theory Spec2Isabelle
  imports Complex_Main "HOL-Library.Multiset"
begin

section \<open>Strings and numbers as the Go standard library renders them\<close>

text \<open>
  A Go \<open>string\<close> is a sequence of bytes; it is modelled by \<^typ>\<open>string\<close>, whose characters
  are bytes, so \<^const>\<open>length\<close> is Go's \<open>len\<close>.
\<close>

definition digitChar :: "nat \<Rightarrow> char" where
  "digitChar d = ''0123456789'' ! d"

text \<open>The decimal digits of a natural number (\<open>strconv.Itoa\<close> on a non-negative value).\<close>

function itoa :: "nat \<Rightarrow> string" where
  "itoa n = (if n < 10 then [digitChar n] else itoa (n div 10) @ [digitChar (n mod 10)])"
  by pat_completeness auto
termination
  by (relation "measure id") auto

declare itoa.simps [simp del]

definition zeroPad :: "nat \<Rightarrow> string \<Rightarrow> string" where
  "zeroPad w s = replicate (w - length s) (CHR ''0'') @ s"

definition isDigit :: "char \<Rightarrow> bool" where
  "isDigit c \<longleftrightarrow> c \<in> set ''0123456789''"

definition digitVal :: "char \<Rightarrow> nat" where
  "digitVal c = of_char c - 48"

text \<open>
  \<open>DiscountPercent\<close> is a \<open>float64\<close>. It is modelled by the real number a finite
  \<open>float64\<close> denotes, on which Go's comparisons \<open><\<close> and \<open>>\<close> are the comparisons of the
  reals. The values \<open>NaN\<close> and \<open>\<plusminus>Inf\<close> are outside the model: a JSON body cannot carry
  them; \<open>strconv.ParseFloat\<close> can return them for a CSV field, and what the code does with
  such a field is not stated here.

  \<open>fmt.Sprintf("%.2f", x)\<close> prints the exact value of \<open>x\<close> rounded to two fractional digits,
  a tie going to the even digit, with a minus sign for a negative \<open>x\<close>. The reals have one
  zero where \<open>float64\<close> has two: for the negative zero Go prints \<open>-0.00\<close>, so the text
  printed for a discount of 0 is outside the model, and no property below states it.
\<close>

definition roundHalfEven :: "real \<Rightarrow> int" where
  "roundHalfEven x =
     (let f = \<lfloor>x\<rfloor>; r = x - of_int f
      in if r < 1 / 2 then f else if 1 / 2 < r then f + 1 else if even f then f else f + 1)"

definition Sprintf_2f :: "real \<Rightarrow> string" where
  "Sprintf_2f x =
     (let n = nat (roundHalfEven (\<bar>x\<bar> * 100))
      in (if x < 0 then ''-'' else []) @ itoa (n div 100) @ ''.'' @ zeroPad 2 (itoa (n mod 100)))"

text \<open>
  \<open>strings.TrimSpace\<close> removes leading and trailing white space as Unicode defines it.
  \<open>spaceRunes\<close> lists the UTF-8 encodings of the runes for which \<open>unicode.IsSpace\<close> holds:
  tab, line feed, vertical tab, form feed, carriage return, space, U+0085, U+00A0, U+1680,
  U+2000 to U+200A, U+2028, U+2029, U+202F, U+205F and U+3000.
\<close>

definition spaceRunes :: "string list" where
  "spaceRunes =
     [[CHR 0x09], [CHR 0x0A], [CHR 0x0B], [CHR 0x0C], [CHR 0x0D], [CHR 0x20],
      [CHR 0xC2, CHR 0x85], [CHR 0xC2, CHR 0xA0],
      [CHR 0xE1, CHR 0x9A, CHR 0x80],
      [CHR 0xE2, CHR 0x80, CHR 0x80], [CHR 0xE2, CHR 0x80, CHR 0x81],
      [CHR 0xE2, CHR 0x80, CHR 0x82], [CHR 0xE2, CHR 0x80, CHR 0x83],
      [CHR 0xE2, CHR 0x80, CHR 0x84], [CHR 0xE2, CHR 0x80, CHR 0x85],
      [CHR 0xE2, CHR 0x80, CHR 0x86], [CHR 0xE2, CHR 0x80, CHR 0x87],
      [CHR 0xE2, CHR 0x80, CHR 0x88], [CHR 0xE2, CHR 0x80, CHR 0x89],
      [CHR 0xE2, CHR 0x80, CHR 0x8A],
      [CHR 0xE2, CHR 0x80, CHR 0xA8], [CHR 0xE2, CHR 0x80, CHR 0xA9],
      [CHR 0xE2, CHR 0x80, CHR 0xAF],
      [CHR 0xE2, CHR 0x81, CHR 0x9F],
      [CHR 0xE3, CHR 0x80, CHR 0x80]]"

text \<open>The rune among \<open>rs\<close> that the string starts with, if any.\<close>

definition leadingRune :: "string list \<Rightarrow> string \<Rightarrow> string option" where
  "leadingRune rs s = find (\<lambda>r. r \<noteq> [] \<and> take (length r) s = r) rs"

lemma leadingRune_shorter:
  assumes "leadingRune rs s = Some r"
  shows "length s - length r < length s"
proof -
  from assms have r: "r \<noteq> []" and t: "take (length r) s = r"
    by (auto simp: leadingRune_def find_Some_iff)
  from t have "length (take (length r) s) = length r"
    by simp
  then have "length r \<le> length s"
    by simp
  moreover from r have "0 < length r"
    by simp
  ultimately show ?thesis
    by linarith
qed

function trimLeading :: "string list \<Rightarrow> string \<Rightarrow> string" where
  "trimLeading rs s =
     (case leadingRune rs s of None \<Rightarrow> s | Some r \<Rightarrow> trimLeading rs (drop (length r) s))"
  by pat_completeness auto
termination
  by (relation "measure (\<lambda>(rs, s). length s)") (auto simp: leadingRune_shorter)

declare trimLeading.simps [simp del]

definition TrimSpace :: "string \<Rightarrow> string" where
  "TrimSpace s = rev (trimLeading (map rev spaceRunes) (rev (trimLeading spaceRunes s)))"

section \<open>Calendar dates and the clock\<close>

text \<open>
  \<open>ExpiryDate\<close> is a \<open>time.Time\<close> that always comes from \<open>time.Parse("2006-01-02", _)\<close>:
  midnight UTC of a calendar day. It is modelled by that calendar day.
\<close>

record date =
  Year :: nat
  Month :: nat
  Day :: nat

definition isLeap :: "nat \<Rightarrow> bool" where
  "isLeap y \<longleftrightarrow> y mod 4 = 0 \<and> (y mod 100 \<noteq> 0 \<or> y mod 400 = 0)"

definition daysBefore :: "nat list" where
  "daysBefore = [0, 31, 59, 90, 120, 151, 181, 212, 243, 273, 304, 334, 365]"

definition daysIn :: "nat \<Rightarrow> nat \<Rightarrow> nat" where
  "daysIn m y = (if m = 2 \<and> isLeap y then 29 else daysBefore ! m - daysBefore ! (m - 1))"

text \<open>
  \<open>time.Parse\<close> with the layout \<open>"2006-01-02"\<close>: exactly four digits, a dash, two digits, a
  dash, two digits and nothing after them; the month in 1..12 and the day inside the month.
\<close>

definition time_Parse :: "string \<Rightarrow> date option" where
  "time_Parse s =
     (if length s = 10
         \<and> list_all isDigit [s ! 0, s ! 1, s ! 2, s ! 3, s ! 5, s ! 6, s ! 8, s ! 9]
         \<and> s ! 4 = CHR ''-'' \<and> s ! 7 = CHR ''-''
      then
        let y = digitVal (s ! 0) * 1000 + digitVal (s ! 1) * 100 + digitVal (s ! 2) * 10
                  + digitVal (s ! 3);
            m = digitVal (s ! 5) * 10 + digitVal (s ! 6);
            d = digitVal (s ! 8) * 10 + digitVal (s ! 9)
        in if m < 1 \<or> 12 < m then None
           else if d < 1 \<or> daysIn m y < d then None
           else Some \<lparr>Year = y, Month = m, Day = d\<rparr>
      else None)"

text \<open>\<open>Time.Format("2006-01-02")\<close> of such a date.\<close>

definition time_Format :: "date \<Rightarrow> string" where
  "time_Format t =
     zeroPad 4 (itoa (Year t)) @ ''-'' @ zeroPad 2 (itoa (Month t)) @ ''-''
       @ zeroPad 2 (itoa (Day t))"

text \<open>The number of leap years among the years \<open>0, \<dots>, y - 1\<close>.\<close>

definition leapsBefore :: "nat \<Rightarrow> nat" where
  "leapsBefore y = (y + 3) div 4 - (y + 99) div 100 + (y + 399) div 400"

text \<open>The day number of a date, counted from 1970-01-01 (day 0).\<close>

definition unixDays :: "date \<Rightarrow> int" where
  "unixDays t =
     int (365 * Year t + leapsBefore (Year t) + daysBefore ! (Month t - 1)
          + (if isLeap (Year t) \<and> 3 \<le> Month t then 1 else 0) + (Day t - 1)) - 719528"

text \<open>
  \<open>time.Now()\<close>: the instant in seconds since the Unix epoch, and the offset of the
  process's local time zone east of UTC in seconds. One call of a service operation reads
  one such clock, and the zone has one offset.
\<close>

record clock =
  unixSeconds :: int
  zoneOffset :: int

text \<open>\<open>time.Now().Truncate(24 * time.Hour)\<close>: the instant rounded down to a multiple of
  24 hours of absolute time, which is midnight UTC.\<close>

definition Truncate24h :: "clock \<Rightarrow> int" where
  "Truncate24h now = (unixSeconds now div 86400) * 86400"

text \<open>The instant of \<open>time.Date(y, m, d, 0, 0, 0, 0, now.Location())\<close> for the calendar day
  with day number \<open>n\<close>.\<close>

definition localMidnight :: "clock \<Rightarrow> int \<Rightarrow> int" where
  "localMidnight now n = n * 86400 - zoneOffset now"

text \<open>The day number of \<open>(now.Year(), now.Month(), now.Day())\<close>, the local calendar day.\<close>

definition localDay :: "clock \<Rightarrow> int" where
  "localDay now = (unixSeconds now + zoneOffset now) div 86400"

text \<open>The day number of the calendar day in UTC.\<close>

definition utcDay :: "clock \<Rightarrow> int" where
  "utcDay now = unixSeconds now div 86400"

text \<open>\<open>t.Before(u)\<close> on instants.\<close>

definition Before :: "int \<Rightarrow> int \<Rightarrow> bool" where
  "Before t u \<longleftrightarrow> t < u"

text \<open>The instant of a parsed date: midnight UTC of its day.\<close>

definition utcMidnight :: "date \<Rightarrow> int" where
  "utcMidnight t = unixDays t * 86400"

section \<open>Entities, requests and results\<close>

text \<open>
  \<open>request.CreateVoucherRequest\<close>; \<open>request.UpdateVoucherRequest\<close> has the same three
  fields. The binding tags of the two structs (\<open>required\<close>, \<open>max=50\<close>, \<open>min=1,max=100\<close>) are
  read by the HTTP layer before a service operation is called, not by the service.
\<close>

record CreateVoucherRequest =
  req_VoucherCode :: string
  req_DiscountPercent :: real
  req_ExpiryDate :: string

type_synonym UpdateVoucherRequest = CreateVoucherRequest

text \<open>
  \<open>entity.Voucher\<close>. The timestamps are instants in seconds; the zero \<open>time.Time\<close> of a
  voucher that has not been stored is written \<open>0\<close>, a null \<open>DeletedAt\<close> is \<open>None\<close>.
\<close>

record Voucher =
  ID :: nat
  VoucherCode :: string
  DiscountPercent :: real
  ExpiryDate :: date
  CreatedAt :: int
  UpdatedAt :: int
  DeletedAt :: "int option"

record ImportError =
  Row :: nat
  Error :: string

record ImportResult =
  TotalRows :: nat
  Success :: nat
  Failed :: nat
  Errors :: "ImportError list"

record BatchImportResult =
  TotalReceived :: nat
  Inserted :: nat
  Duplicates :: nat
  DuplicateCodes :: "string list"
  BatchErrors :: "string list"

text \<open>
  The errors of the service, one constructor for each \<open>errors.New\<close> and \<open>fmt.Errorf\<close> of
  the source, \<open>gorm.ErrRecordNotFound\<close>, and \<open>StorageError\<close> for any other error of the
  persistence layer or of the CSV reader, with its message.
\<close>

datatype error =
    ErrRecordNotFound
  | StorageError string
  | VoucherNotFound
  | DuplicateCode
  | InvalidDateFormat
  | ExpiryInPast
  | EmptyCode
  | CodeTooLong
  | DiscountOutOfRange real
  | InvalidDateFormatOf string
  | ExpiryInPastOf string
  | InsufficientColumns
  | DuplicateCodeOf string
  | CheckCodeFailed error
  | NotANumber string
  | ReadFailed error
  | EmptyImport
  | InsertFailed error
  | FetchFailed error

text \<open>\<open>err.Error()\<close>.\<close>

fun ErrorMsg :: "error \<Rightarrow> string" where
  "ErrorMsg ErrRecordNotFound = ''record not found''"
| "ErrorMsg (StorageError m) = m"
| "ErrorMsg VoucherNotFound = ''voucher not found''"
| "ErrorMsg DuplicateCode = ''voucher code already exists''"
| "ErrorMsg InvalidDateFormat = ''invalid date format, expected YYYY-MM-DD''"
| "ErrorMsg ExpiryInPast = ''expiry date must be today or in the future''"
| "ErrorMsg EmptyCode = ''voucher code is required''"
| "ErrorMsg CodeTooLong = ''voucher code exceeds 50 characters''"
| "ErrorMsg (DiscountOutOfRange x) =
     ''discount percent '' @ Sprintf_2f x @ '' out of range (must be 1-100)''"
| "ErrorMsg (InvalidDateFormatOf d) =
     ''invalid date format '' @ [CHR 0x27] @ d @ [CHR 0x27] @ '': expected YYYY-MM-DD''"
| "ErrorMsg (ExpiryInPastOf d) = ''expiry date '' @ d @ '' must be today or in the future''"
| "ErrorMsg InsufficientColumns =
     ''insufficient columns (expected 3: voucher_code, discount_percent, expiry_date)''"
| "ErrorMsg (DuplicateCodeOf c) =
     ''voucher code '' @ [CHR 0x27] @ c @ [CHR 0x27] @ '' already exists''"
| "ErrorMsg (CheckCodeFailed e) = ''failed to check voucher code: '' @ ErrorMsg e"
| "ErrorMsg (NotANumber d) =
     ''invalid discount percent '' @ [CHR 0x27] @ d @ [CHR 0x27] @ '': must be a number''"
| "ErrorMsg (ReadFailed e) = ''failed to read CSV file: '' @ ErrorMsg e"
| "ErrorMsg EmptyImport = ''CSV file is empty or has no data rows''"
| "ErrorMsg (InsertFailed e) = ''failed to insert vouchers: '' @ ErrorMsg e"
| "ErrorMsg (FetchFailed e) = ''failed to fetch vouchers: '' @ ErrorMsg e"

section \<open>The repository interface\<close>

text \<open>
  \<open>repository.VoucherRepository\<close>. A method takes the state \<open>'s\<close> of the persistence layer
  and returns its result with the new state. A method that fills in the voucher it is given
  (\<open>Create\<close>, \<open>Update\<close>) returns the voucher as it is after the call.
  \<open>FindByVoucherCode\<close> returns the pair of a voucher pointer and an error as they are,
  since the service reads both.
\<close>

record 's VoucherRepository =
  repo_FindAll ::
    "int \<Rightarrow> int \<Rightarrow> string \<Rightarrow> string \<Rightarrow> string \<Rightarrow> 's \<Rightarrow> (error + Voucher list \<times> int) \<times> 's"
  repo_FindByID :: "nat \<Rightarrow> 's \<Rightarrow> (error + Voucher) \<times> 's"
  repo_Create :: "Voucher \<Rightarrow> 's \<Rightarrow> (error + Voucher) \<times> 's"
  repo_Update :: "Voucher \<Rightarrow> 's \<Rightarrow> (error + Voucher) \<times> 's"
  repo_Delete :: "nat \<Rightarrow> 's \<Rightarrow> error option \<times> 's"
  repo_FindByVoucherCode :: "string \<Rightarrow> 's \<Rightarrow> (Voucher option \<times> error option) \<times> 's"
  repo_BulkCreate :: "Voucher list \<Rightarrow> 's \<Rightarrow> error option \<times> 's"
  repo_CheckDuplicateCodes :: "string list \<Rightarrow> 's \<Rightarrow> (error + string list) \<times> 's"

section \<open>The voucher service\<close>

text \<open>The test \<open>err != nil && err != gorm.ErrRecordNotFound\<close>: the error that aborts, if any.\<close>

definition otherThanNotFound :: "error option \<Rightarrow> error option" where
  "otherThanNotFound err =
     (case err of None \<Rightarrow> None | Some e \<Rightarrow> if e = ErrRecordNotFound then None else Some e)"

definition newVoucher :: "string \<Rightarrow> real \<Rightarrow> date \<Rightarrow> Voucher" where
  "newVoucher code discount expiry =
     \<lparr>ID = 0, VoucherCode = code, DiscountPercent = discount, ExpiryDate = expiry,
      CreatedAt = 0, UpdatedAt = 0, DeletedAt = None\<rparr>"

definition Create ::
  "'s VoucherRepository \<Rightarrow> clock \<Rightarrow> CreateVoucherRequest \<Rightarrow> 's \<Rightarrow> (error + Voucher) \<times> 's" where
  "Create repo now req s =
     (case repo_FindByVoucherCode repo (req_VoucherCode req) s of
        ((existing, err), s1) \<Rightarrow>
          (case otherThanNotFound err of
             Some e \<Rightarrow> (Inl e, s1)
           | None \<Rightarrow>
               if existing \<noteq> None then (Inl DuplicateCode, s1)
               else
                 (case time_Parse (req_ExpiryDate req) of
                    None \<Rightarrow> (Inl InvalidDateFormat, s1)
                  | Some expiryDate \<Rightarrow>
                      let today = localMidnight now (localDay now);
                          expiryDateLocal = localMidnight now (unixDays expiryDate)
                      in if Before expiryDateLocal today then (Inl ExpiryInPast, s1)
                         else repo_Create repo
                                (newVoucher (req_VoucherCode req) (req_DiscountPercent req)
                                   expiryDate) s1)))"

definition Update ::
  "'s VoucherRepository \<Rightarrow> clock \<Rightarrow> nat \<Rightarrow> UpdateVoucherRequest \<Rightarrow> 's
     \<Rightarrow> (error + Voucher) \<times> 's" where
  "Update repo now vid req s =
     (case repo_FindByID repo vid s of
        (Inl err, s1) \<Rightarrow>
          (if err = ErrRecordNotFound then (Inl VoucherNotFound, s1) else (Inl err, s1))
      | (Inr voucher, s1) \<Rightarrow>
          (case (if req_VoucherCode req \<noteq> VoucherCode voucher
                 then (case repo_FindByVoucherCode repo (req_VoucherCode req) s1 of
                         ((existing, err), s2) \<Rightarrow>
                           (case otherThanNotFound err of
                              Some e \<Rightarrow> (Some e, s2)
                            | None \<Rightarrow>
                                if existing \<noteq> None then (Some DuplicateCode, s2)
                                else (None, s2)))
                 else (None, s1)) of
             (Some e, s2) \<Rightarrow> (Inl e, s2)
           | (None, s2) \<Rightarrow>
               (case time_Parse (req_ExpiryDate req) of
                  None \<Rightarrow> (Inl InvalidDateFormat, s2)
                | Some expiryDate \<Rightarrow>
                    let today = localMidnight now (localDay now);
                        expiryDateLocal = localMidnight now (unixDays expiryDate)
                    in if Before expiryDateLocal today then (Inl ExpiryInPast, s2)
                       else repo_Update repo
                              (voucher\<lparr>VoucherCode := req_VoucherCode req,
                                 DiscountPercent := req_DiscountPercent req,
                                 ExpiryDate := expiryDate\<rparr>) s2)))"

text \<open>\<open>validateAndConvert\<close> reads no storage: it is a function of the clock and the request.\<close>

definition validateAndConvert :: "clock \<Rightarrow> CreateVoucherRequest \<Rightarrow> error + Voucher" where
  "validateAndConvert now req =
     (if req_VoucherCode req = [] then Inl EmptyCode
      else if 50 < length (req_VoucherCode req) then Inl CodeTooLong
      else if req_DiscountPercent req < 1 \<or> 100 < req_DiscountPercent req
        then Inl (DiscountOutOfRange (req_DiscountPercent req))
      else
        (case time_Parse (req_ExpiryDate req) of
           None \<Rightarrow> Inl (InvalidDateFormatOf (req_ExpiryDate req))
         | Some expiryDate \<Rightarrow>
             let today = Truncate24h now
             in if Before (utcMidnight expiryDate) today
                then Inl (ExpiryInPastOf (req_ExpiryDate req))
                else Inr (newVoucher (req_VoucherCode req) (req_DiscountPercent req)
                            expiryDate)))"

text \<open>Step 3 of \<open>ImportBatch\<close>: the map with \<open>true\<close> at each existing code; a missing key
  reads \<open>false\<close>.\<close>

definition duplicateMapOf :: "string list \<Rightarrow> string \<Rightarrow> bool" where
  "duplicateMapOf existingCodes = fold (\<lambda>code m. m(code := True)) existingCodes (\<lambda>_. False)"

text \<open>Step 4 of \<open>ImportBatch\<close>: the loop over the requests, on the report and the slice
  \<open>validVouchers\<close>.\<close>

fun filterValid ::
  "clock \<Rightarrow> (string \<Rightarrow> bool) \<Rightarrow> CreateVoucherRequest list \<Rightarrow> BatchImportResult \<times> Voucher list
     \<Rightarrow> BatchImportResult \<times> Voucher list" where
  "filterValid now duplicateMap [] acc = acc"
| "filterValid now duplicateMap (voucherReq # rest) (result, validVouchers) =
     (if duplicateMap (req_VoucherCode voucherReq) then
        filterValid now duplicateMap rest
          (result\<lparr>Duplicates := Duplicates result + 1,
             DuplicateCodes := DuplicateCodes result @ [req_VoucherCode voucherReq]\<rparr>,
           validVouchers)
      else
        (case validateAndConvert now voucherReq of
           Inl err \<Rightarrow>
             filterValid now duplicateMap rest
               (result\<lparr>BatchErrors := BatchErrors result
                   @ [''Code '' @ req_VoucherCode voucherReq @ '': '' @ ErrorMsg err]\<rparr>,
                validVouchers)
         | Inr voucher \<Rightarrow>
             filterValid now duplicateMap rest (result, validVouchers @ [voucher])))"

text \<open>The report \<open>ImportBatch\<close> starts from.\<close>

definition newBatchImportResult :: "nat \<Rightarrow> BatchImportResult" where
  "newBatchImportResult totalReceived =
     \<lparr>TotalReceived = totalReceived, Inserted = 0, Duplicates = 0, DuplicateCodes = [],
      BatchErrors = []\<rparr>"

definition ImportBatch ::
  "'s VoucherRepository \<Rightarrow> clock \<Rightarrow> CreateVoucherRequest list \<Rightarrow> 's
     \<Rightarrow> (error + BatchImportResult) \<times> 's" where
  "ImportBatch repo now vouchers s =
     (let result = newBatchImportResult (length vouchers);
          voucherCodes = map req_VoucherCode vouchers
      in case repo_CheckDuplicateCodes repo voucherCodes s of
           (Inl err, s1) \<Rightarrow> (Inl err, s1)
         | (Inr existingCodes, s1) \<Rightarrow>
             (case filterValid now (duplicateMapOf existingCodes) vouchers (result, []) of
                (result, validVouchers) \<Rightarrow>
                  if 0 < length validVouchers then
                    (case repo_BulkCreate repo validVouchers s1 of
                       (Some err, s2) \<Rightarrow> (Inl err, s2)
                     | (None, s2) \<Rightarrow> (Inr (result\<lparr>Inserted := length validVouchers\<rparr>), s2))
                  else (Inr result, s1)))"

text \<open>
  \<open>parseCSVRow\<close>. \<open>strconv.ParseFloat(_, 64)\<close> is the parameter \<open>ParseFloat\<close>: the finite
  value it returns, or \<open>None\<close> where it returns an error. A field that it reads as \<open>NaN\<close>
  or an infinity (\<open>NaN\<close>, \<open>Inf\<close>, \<open>1e999\<close>) is outside the model.
\<close>

definition parseCSVRow ::
  "'s VoucherRepository \<Rightarrow> (string \<Rightarrow> real option) \<Rightarrow> clock \<Rightarrow> string list \<Rightarrow> nat \<Rightarrow> 's
     \<Rightarrow> (error + Voucher) \<times> 's" where
  "parseCSVRow repo ParseFloat now record rowNum s =
     (if length record < 3 then (Inl InsufficientColumns, s)
      else
        let voucherCode = TrimSpace (record ! 0)
        in if voucherCode = [] then (Inl EmptyCode, s)
           else if 50 < length voucherCode then (Inl CodeTooLong, s)
           else
             (case repo_FindByVoucherCode repo voucherCode s of
                ((existing, err), s1) \<Rightarrow>
                  (case otherThanNotFound err of
                     Some e \<Rightarrow> (Inl (CheckCodeFailed e), s1)
                   | None \<Rightarrow>
                       if existing \<noteq> None then (Inl (DuplicateCodeOf voucherCode), s1)
                       else
                         let discountStr = TrimSpace (record ! 1)
                         in (case ParseFloat discountStr of
                               None \<Rightarrow> (Inl (NotANumber discountStr), s1)
                             | Some discountPercent \<Rightarrow>
                                 if discountPercent < 1 \<or> 100 < discountPercent
                                 then (Inl (DiscountOutOfRange discountPercent), s1)
                                 else
                                   let expiryDateStr = TrimSpace (record ! 2)
                                   in (case time_Parse expiryDateStr of
                                         None \<Rightarrow> (Inl (InvalidDateFormatOf expiryDateStr), s1)
                                       | Some expiryDate \<Rightarrow>
                                           let today = Truncate24h now
                                           in if Before (utcMidnight expiryDate) today
                                              then (Inl (ExpiryInPastOf expiryDateStr), s1)
                                              else (Inr (newVoucher voucherCode discountPercent
                                                           expiryDate), s1))))))"

text \<open>The loop of \<open>ImportVouchers\<close> over \<open>records[1:]\<close>, from the index \<open>i\<close> on.\<close>

fun importRows ::
  "'s VoucherRepository \<Rightarrow> (string \<Rightarrow> real option) \<Rightarrow> clock \<Rightarrow> string list list \<Rightarrow> nat
     \<Rightarrow> ImportResult \<times> Voucher list \<Rightarrow> 's \<Rightarrow> (ImportResult \<times> Voucher list) \<times> 's" where
  "importRows repo ParseFloat now [] i acc s = (acc, s)"
| "importRows repo ParseFloat now (record # rest) i (result, vouchers) s =
     (let rowNum = i + 2
      in case parseCSVRow repo ParseFloat now record rowNum s of
           (Inl err, s1) \<Rightarrow>
             importRows repo ParseFloat now rest (i + 1)
               (result\<lparr>Errors := Errors result @ [\<lparr>Row = rowNum, Error = ErrorMsg err\<rparr>],
                  Failed := Failed result + 1\<rparr>, vouchers) s1
         | (Inr voucher, s1) \<Rightarrow>
             importRows repo ParseFloat now rest (i + 1) (result, vouchers @ [voucher]) s1)"

text \<open>
  \<open>ImportVouchers\<close>. The argument \<open>readAll\<close> is what \<open>csv.NewReader(file).ReadAll()\<close>
  returned: the records of the file, or the reader's error.
\<close>

text \<open>The report \<open>ImportVouchers\<close> starts from.\<close>

definition newImportResult :: "nat \<Rightarrow> ImportResult" where
  "newImportResult totalRows = \<lparr>TotalRows = totalRows, Success = 0, Failed = 0, Errors = []\<rparr>"

definition ImportVouchers ::
  "'s VoucherRepository \<Rightarrow> (string \<Rightarrow> real option) \<Rightarrow> clock \<Rightarrow> error + string list list \<Rightarrow> 's
     \<Rightarrow> (error + ImportResult) \<times> 's" where
  "ImportVouchers repo ParseFloat now readAll s =
     (case readAll of
        Inl err \<Rightarrow> (Inl (ReadFailed err), s)
      | Inr records \<Rightarrow>
          if length records < 2 then (Inl EmptyImport, s)
          else
            (case importRows repo ParseFloat now (tl records) 0
                    (newImportResult (length records - 1), []) s of
               ((result, vouchers), s1) \<Rightarrow>
                 if 0 < length vouchers then
                   (case repo_BulkCreate repo vouchers s1 of
                      (Some err, s2) \<Rightarrow> (Inl (InsertFailed err), s2)
                    | (None, s2) \<Rightarrow> (Inr (result\<lparr>Success := length vouchers\<rparr>), s2))
                 else (Inr result, s1)))"

subsection \<open>Export\<close>

text \<open>
  \<open>csv.Writer.Write\<close> with the default comma and line feed: a field is quoted when it is
  a backslash followed by a dot, holds a comma, a quote, a carriage return or a line feed, or starts with white
  space; inside the quotes each quote is doubled. Writing to a \<open>bytes.Buffer\<close> does not fail.
\<close>

definition fieldNeedsQuotes :: "string \<Rightarrow> bool" where
  "fieldNeedsQuotes field \<longleftrightarrow>
     field \<noteq> [] \<and>
     (field = [CHR 0x5C, CHR ''.'']
      \<or> (\<exists>c \<in> set field. c = CHR 0x0A \<or> c = CHR 0x0D \<or> c = CHR 0x22 \<or> c = CHR '','')
      \<or> leadingRune spaceRunes field \<noteq> None)"

definition csvField :: "string \<Rightarrow> string" where
  "csvField field =
     (if fieldNeedsQuotes field
      then [CHR 0x22] @ concat (map (\<lambda>c. if c = CHR 0x22 then [c, c] else [c]) field)
             @ [CHR 0x22]
      else field)"

fun joinFields :: "string list \<Rightarrow> string" where
  "joinFields [] = []"
| "joinFields [f] = f"
| "joinFields (f # g # fs) = f @ '','' @ joinFields (g # fs)"

definition csv_Write :: "string list \<Rightarrow> string" where
  "csv_Write record = joinFields (map csvField record) @ [CHR 0x0A]"

text \<open>The record \<open>ExportVouchers\<close> writes for one voucher, and the records of the document.\<close>

definition exportRecord :: "Voucher \<Rightarrow> string list" where
  "exportRecord voucher =
     [VoucherCode voucher, Sprintf_2f (DiscountPercent voucher),
      time_Format (ExpiryDate voucher)]"

definition exportRecords :: "Voucher list \<Rightarrow> string list list" where
  "exportRecords vouchers =
     [''voucher_code'', ''discount_percent'', ''expiry_date''] # map exportRecord vouchers"

definition ExportVouchers :: "'s VoucherRepository \<Rightarrow> 's \<Rightarrow> (error + string) \<times> 's" where
  "ExportVouchers repo s =
     (case repo_FindAll repo 1 100000 [] ''created_at'' ''asc'' s of
        (Inl err, s1) \<Rightarrow> (Inl (FetchFailed err), s1)
      | (Inr (vouchers, totalCount), s1) \<Rightarrow>
          (Inr (concat (map csv_Write (exportRecords vouchers))), s1))"

section \<open>Recording the calls to the repository\<close>

text \<open>
  As the mock of the service tests records each call it receives, \<open>traced repo\<close> is \<open>repo\<close>
  with a log of the calls made to it, in order.
\<close>

datatype call =
    FindAllCall int int string string string
  | FindByIDCall nat
  | CreateCall Voucher
  | UpdateCall Voucher
  | DeleteCall nat
  | FindByVoucherCodeCall string
  | BulkCreateCall "Voucher list"
  | CheckDuplicateCodesCall "string list"

definition logged :: "call \<Rightarrow> ('s \<Rightarrow> 'a \<times> 's) \<Rightarrow> 's \<times> call list \<Rightarrow> 'a \<times> 's \<times> call list" where
  "logged c f = (\<lambda>(s, calls). case f s of (r, s') \<Rightarrow> (r, s', calls @ [c]))"

definition traced :: "'s VoucherRepository \<Rightarrow> ('s \<times> call list) VoucherRepository" where
  "traced repo =
     \<lparr>repo_FindAll = (\<lambda>page limit search sortBy sortOrder.
        logged (FindAllCall page limit search sortBy sortOrder)
          (repo_FindAll repo page limit search sortBy sortOrder)),
      repo_FindByID = (\<lambda>vid. logged (FindByIDCall vid) (repo_FindByID repo vid)),
      repo_Create = (\<lambda>v. logged (CreateCall v) (repo_Create repo v)),
      repo_Update = (\<lambda>v. logged (UpdateCall v) (repo_Update repo v)),
      repo_Delete = (\<lambda>vid. logged (DeleteCall vid) (repo_Delete repo vid)),
      repo_FindByVoucherCode =
        (\<lambda>code. logged (FindByVoucherCodeCall code) (repo_FindByVoucherCode repo code)),
      repo_BulkCreate = (\<lambda>vs. logged (BulkCreateCall vs) (repo_BulkCreate repo vs)),
      repo_CheckDuplicateCodes =
        (\<lambda>codes. logged (CheckDuplicateCodesCall codes) (repo_CheckDuplicateCodes repo codes))\<rparr>"

definition isFindByVoucherCode :: "call \<Rightarrow> bool" where
  "isFindByVoucherCode c = (case c of FindByVoucherCodeCall _ \<Rightarrow> True | _ \<Rightarrow> False)"

definition isCheckDuplicateCodes :: "call \<Rightarrow> bool" where
  "isCheckDuplicateCodes c = (case c of CheckDuplicateCodesCall _ \<Rightarrow> True | _ \<Rightarrow> False)"

definition isBulkCreate :: "call \<Rightarrow> bool" where
  "isBulkCreate c = (case c of BulkCreateCall _ \<Rightarrow> True | _ \<Rightarrow> False)"

section \<open>The repository over a table of vouchers\<close>

text \<open>
  \<open>voucherRepositoryImpl\<close> sends each method to GORM. Its storage is modelled by the rows of
  the table \<open>vouchers\<close>, in the order of their insertion, and the next value of the
  sequence behind \<open>id\<close>. What GORM and the database add to the text of the source is written
  out here:
  \<^item> a query or update on \<open>entity.Voucher\<close>, which has a \<open>gorm.DeletedAt\<close> field, reads only
    the rows whose \<open>deleted_at\<close> is null (\<open>active\<close>), and \<open>Delete\<close> sets \<open>deleted_at\<close>;
  \<^item> an insert takes the next \<open>id\<close> for a zero \<open>ID\<close> and the current time for a zero
    \<open>CreatedAt\<close> or \<open>UpdatedAt\<close>;
  \<^item> the table has a primary key on \<open>id\<close>, a unique index on \<open>voucher_code\<close> (over all rows,
    soft-deleted ones too) and the constraint \<open>discount_percent >= 1 AND discount_percent <= 100\<close>;
    a statement that violates one of them fails and changes nothing.
  The table is the one \<open>AutoMigrate\<close> derives from the tags of \<open>entity.Voucher\<close>, as
  \<open>main\<close> runs it. The width of the column \<open>voucher_code\<close>, a scale of the column
  \<open>discount_percent\<close> and the failures of the connection are not modelled: a stored
  voucher keeps the values it was given. What holds for every repository, failing ones
  too, is proved on the interface.
\<close>

record storage =
  rows :: "Voucher list"
  nextID :: nat

definition active :: "storage \<Rightarrow> Voucher list" where
  "active db = filter (\<lambda>v. DeletedAt v = None) (rows db)"

definition constraintError :: "Voucher list \<Rightarrow> Voucher \<Rightarrow> error option" where
  "constraintError others v =
     (if ID v \<in> set (map ID others)
        then Some (StorageError ''duplicate key value violates unique constraint: id'')
      else if DiscountPercent v < 1 \<or> 100 < DiscountPercent v
        then Some (StorageError ''new row violates check constraint: discount_percent'')
      else if VoucherCode v \<in> set (map VoucherCode others)
        then Some (StorageError ''duplicate key value violates unique constraint: voucher_code'')
      else None)"

definition insertRow :: "int \<Rightarrow> storage \<Rightarrow> Voucher \<Rightarrow> error + Voucher \<times> storage" where
  "insertRow t db v =
     (let v' = v\<lparr>ID := (if ID v = 0 then nextID db else ID v),
                 CreatedAt := (if CreatedAt v = 0 then t else CreatedAt v),
                 UpdatedAt := (if UpdatedAt v = 0 then t else UpdatedAt v)\<rparr>
      in case constraintError (rows db) v' of
           Some e \<Rightarrow> Inl e
         | None \<Rightarrow>
             Inr (v', db\<lparr>rows := rows db @ [v'],
                        nextID := (if ID v = 0 then nextID db + 1 else nextID db)\<rparr>))"

fun insertRows :: "int \<Rightarrow> Voucher list \<Rightarrow> storage \<Rightarrow> error + storage" where
  "insertRows t [] db = Inr db"
| "insertRows t (v # vs) db =
     (case insertRow t db v of Inl e \<Rightarrow> Inl e | Inr (v', db') \<Rightarrow> insertRows t vs db')"

text \<open>\<open>impl_M\<close> is the method \<open>M\<close> of \<open>voucherRepositoryImpl\<close>; \<open>t\<close> is the time of the
  statement.\<close>

definition impl_FindByID :: "nat \<Rightarrow> storage \<Rightarrow> (error + Voucher) \<times> storage" where
  "impl_FindByID vid db =
     (case find (\<lambda>v. ID v = vid) (active db) of
        None \<Rightarrow> (Inl ErrRecordNotFound, db)
      | Some v \<Rightarrow> (Inr v, db))"

definition impl_Create :: "int \<Rightarrow> Voucher \<Rightarrow> storage \<Rightarrow> (error + Voucher) \<times> storage" where
  "impl_Create t v db =
     (case insertRow t db v of Inl e \<Rightarrow> (Inl e, db) | Inr (v', db') \<Rightarrow> (Inr v', db'))"

text \<open>
  \<open>Update\<close> is GORM's \<open>Save\<close>: an insert for a zero \<open>ID\<close>; otherwise an update of all columns
  of the active row with that \<open>id\<close>; and where no row was updated, an insert that on a
  conflict on \<open>id\<close> overwrites the row it finds, its \<open>created_at\<close> apart.
\<close>

definition impl_Update :: "int \<Rightarrow> Voucher \<Rightarrow> storage \<Rightarrow> (error + Voucher) \<times> storage" where
  "impl_Update t v db =
     (if ID v = 0 then impl_Create t v db
      else
        let v' = v\<lparr>UpdatedAt := t\<rparr>
        in case constraintError (filter (\<lambda>r. ID r \<noteq> ID v) (rows db)) v' of
             Some e \<Rightarrow> (Inl e, db)
           | None \<Rightarrow>
               if ID v \<in> set (map ID (active db))
               then (Inr v', db\<lparr>rows := map (\<lambda>r. if ID r = ID v then v' else r) (rows db)\<rparr>)
               else
                 let v'' = v'\<lparr>CreatedAt := (if CreatedAt v = 0 then t else CreatedAt v)\<rparr>
                 in if ID v \<in> set (map ID (rows db))
                    then (Inr v'',
                          db\<lparr>rows := map (\<lambda>r. if ID r = ID v then v''\<lparr>CreatedAt := CreatedAt r\<rparr>
                                               else r) (rows db)\<rparr>)
                    else (Inr v'', db\<lparr>rows := rows db @ [v'']\<rparr>))"

definition impl_Delete :: "int \<Rightarrow> nat \<Rightarrow> storage \<Rightarrow> error option \<times> storage" where
  "impl_Delete t vid db =
     (None, db\<lparr>rows := map (\<lambda>r. if ID r = vid \<and> DeletedAt r = None
                                then r\<lparr>DeletedAt := Some t\<rparr> else r) (rows db)\<rparr>)"

definition impl_FindByVoucherCode ::
  "string \<Rightarrow> storage \<Rightarrow> (Voucher option \<times> error option) \<times> storage" where
  "impl_FindByVoucherCode code db =
     (case find (\<lambda>v. VoucherCode v = code) (active db) of
        None \<Rightarrow> ((None, None), db)
      | Some v \<Rightarrow> ((Some v, None), db))"

definition impl_BulkCreate :: "int \<Rightarrow> Voucher list \<Rightarrow> storage \<Rightarrow> error option \<times> storage" where
  "impl_BulkCreate t vs db =
     (if vs = [] then (Some (StorageError ''empty slice found''), db)
      else case insertRows t vs db of Inl e \<Rightarrow> (Some e, db) | Inr db' \<Rightarrow> (None, db'))"

definition impl_CheckDuplicateCodes ::
  "string list \<Rightarrow> storage \<Rightarrow> (error + string list) \<times> storage" where
  "impl_CheckDuplicateCodes codes db =
     (Inr (map VoucherCode (filter (\<lambda>v. VoucherCode v \<in> set codes) (active db))), db)"

text \<open>
  The pieces of SQL in \<open>FindAll\<close>. \<open>LIKE\<close> is matched on bytes, with \<open>%\<close>, \<open>_\<close> and the
  backslash as escape, and \<open>LOWER\<close> lowers the ASCII letters. \<open>ORDER BY\<close> is modelled for the
  columns that hold numbers or times, with the direction \<open>asc\<close>, \<open>desc\<close> or none, which is
  ascending. Two limits of the model: among rows with equal keys SQL fixes no order, and
  the model keeps the order of insertion; and any other sort clause, which the source
  hands to the database as it comes, is answered by an error of the model, not of the
  database. The export asks for \<open>created_at asc\<close>, which the model covers, up to the
  order among vouchers created at the same instant.
\<close>

definition sqlLower :: "char \<Rightarrow> char" where
  "sqlLower c =
     (if 65 \<le> (of_char c :: nat) \<and> (of_char c :: nat) \<le> 90 then char_of (of_char c + (32::nat))
      else c)"

fun sqlLike :: "string \<Rightarrow> string \<Rightarrow> bool" where
  "sqlLike [] s = (s = [])"
| "sqlLike (p # ps) [] = (p = CHR ''%'' \<and> sqlLike ps [])"
| "sqlLike (p # ps) (c # cs) =
     (if p = CHR ''%'' then sqlLike ps (c # cs) \<or> sqlLike (p # ps) cs
      else if p = CHR ''_'' then sqlLike ps cs
      else if p = CHR 0x5C then (case ps of [] \<Rightarrow> False | q # qs \<Rightarrow> q = c \<and> sqlLike qs cs)
      else p = c \<and> sqlLike ps cs)"

definition sqlOrderBy :: "string \<Rightarrow> string \<Rightarrow> Voucher list \<Rightarrow> Voucher list option" where
  "sqlOrderBy sortBy sortOrder vs =
     (case (if sortBy = ''created_at'' then Some (sort_key CreatedAt vs)
            else if sortBy = ''updated_at'' then Some (sort_key UpdatedAt vs)
            else if sortBy = ''id'' then Some (sort_key ID vs)
            else if sortBy = ''discount_percent'' then Some (sort_key DiscountPercent vs)
            else if sortBy = ''expiry_date'' then Some (sort_key (\<lambda>v. unixDays (ExpiryDate v)) vs)
            else None) of
        None \<Rightarrow> None
      | Some ascending \<Rightarrow>
          if sortOrder = ''asc'' \<or> sortOrder = [] then Some ascending
          else if sortOrder = ''desc'' then Some (rev ascending)
          else None)"

definition impl_FindAll ::
  "int \<Rightarrow> int \<Rightarrow> string \<Rightarrow> string \<Rightarrow> string \<Rightarrow> storage
     \<Rightarrow> (error + Voucher list \<times> int) \<times> storage" where
  "impl_FindAll page limit search sortBy sortOrder db =
     (let offset = (page - 1) * limit;
          query = (if search \<noteq> []
                   then filter (\<lambda>v. sqlLike (map sqlLower (''%'' @ search @ ''%''))
                                      (map sqlLower (VoucherCode v))) (active db)
                   else active db);
          total = int (length query)
      in case (if sortBy \<noteq> [] then sqlOrderBy sortBy sortOrder query
               else sqlOrderBy ''created_at'' ''desc'' query) of
           None \<Rightarrow> (Inl (StorageError ''sort clause outside the model''), db)
         | Some ordered \<Rightarrow>
             (Inr ((if limit < 0 then drop (nat offset) ordered
                    else take (nat limit) (drop (nat offset) ordered)), total), db))"

definition voucherRepositoryImpl :: "int \<Rightarrow> storage VoucherRepository" where
  "voucherRepositoryImpl t =
     \<lparr>repo_FindAll = impl_FindAll,
      repo_FindByID = impl_FindByID,
      repo_Create = impl_Create t,
      repo_Update = impl_Update t,
      repo_Delete = impl_Delete t,
      repo_FindByVoucherCode = impl_FindByVoucherCode,
      repo_BulkCreate = impl_BulkCreate t,
      repo_CheckDuplicateCodes = impl_CheckDuplicateCodes\<rparr>"

section \<open>Values for the examples\<close>

text \<open>
  The mock repository of the service tests, with the answers of
  \<open>TestVoucherService_Create_Success\<close> and \<open>TestVoucherService_Update_Success\<close>: no voucher
  has the code asked for, \<open>FindByID\<close> finds \<open>existingVoucher\<close>, and every write succeeds.
\<close>

definition mockRepo :: "Voucher \<Rightarrow> unit VoucherRepository" where
  "mockRepo existingVoucher =
     \<lparr>repo_FindAll = (\<lambda>page limit search sortBy sortOrder s. (Inr ([], 0), s)),
      repo_FindByID = (\<lambda>vid s. (Inr existingVoucher, s)),
      repo_Create = (\<lambda>v s. (Inr v, s)),
      repo_Update = (\<lambda>v s. (Inr v, s)),
      repo_Delete = (\<lambda>vid s. (None, s)),
      repo_FindByVoucherCode = (\<lambda>code s. ((None, None), s)),
      repo_BulkCreate = (\<lambda>vs s. (None, s)),
      repo_CheckDuplicateCodes = (\<lambda>codes s. (Inr [], s))\<rparr>"

text \<open>The same mock with a bulk insert that fails.\<close>

definition mockRepoBulkFails :: "Voucher \<Rightarrow> unit VoucherRepository" where
  "mockRepoBulkFails existingVoucher =
     (mockRepo existingVoucher)
       \<lparr>repo_BulkCreate := (\<lambda>vs s. (Some (StorageError ''connection refused''), s))\<rparr>"

definition old123 :: Voucher where
  "old123 = \<lparr>ID = 1, VoucherCode = ''OLD123'', DiscountPercent = 10,
             ExpiryDate = \<lparr>Year = 2030, Month = 6, Day = 30\<rparr>,
             CreatedAt = 1600000000, UpdatedAt = 1600000000, DeletedAt = None\<rparr>"

text \<open>
  A clock: 14 November 2023, 22:13:20 UTC, read in a zone seven hours east of UTC, where it
  is 05:13:20 on 15 November 2023; the same instant read in UTC; and 15 November 2023,
  02:00:00 UTC, read in a zone five hours west of UTC, where it is 21:00:00 on 14 November.
\<close>

definition clockEast :: clock where
  "clockEast = \<lparr>unixSeconds = 1700000000, zoneOffset = 25200\<rparr>"

definition clockUTC :: clock where
  "clockUTC = \<lparr>unixSeconds = 1700000000, zoneOffset = 0\<rparr>"

definition clockWest :: clock where
  "clockWest = \<lparr>unixSeconds = 1700013600, zoneOffset = - 18000\<rparr>"

text \<open>The values of \<open>strconv.ParseFloat\<close> at the literals of the examples.\<close>

definition decimalLiterals :: "string \<Rightarrow> real option" where
  "decimalLiterals = map_of [(''10'', 10), (''10.00'', 10), (''20'', 20), (''200'', 200)]"

definition request :: "string \<Rightarrow> real \<Rightarrow> string \<Rightarrow> CreateVoucherRequest" where
  "request code discount expiry =
     \<lparr>req_VoucherCode = code, req_DiscountPercent = discount, req_ExpiryDate = expiry\<rparr>"

text \<open>A table with the active voucher \<open>old123\<close> and a voucher that was soft-deleted.\<close>

definition gone :: Voucher where
  "gone = \<lparr>ID = 2, VoucherCode = ''GONE'', DiscountPercent = 15,
           ExpiryDate = \<lparr>Year = 2030, Month = 6, Day = 30\<rparr>,
           CreatedAt = 1600000100, UpdatedAt = 1600000200, DeletedAt = Some 1600000200\<rparr>"

definition storage2 :: storage where
  "storage2 = \<lparr>rows = [old123, gone], nextID = 3\<rparr>"

definition save20 :: Voucher where
  "save20 = \<lparr>ID = 5, VoucherCode = ''SAVE20'', DiscountPercent = 20,
             ExpiryDate = \<lparr>Year = 2031, Month = 3, Day = 15\<rparr>,
             CreatedAt = 1600000300, UpdatedAt = 1600000300, DeletedAt = None\<rparr>"

definition storage3 :: storage where
  "storage3 = \<lparr>rows = [old123, gone, save20], nextID = 6\<rparr>"

definition newYear2099 :: date where
  "newYear2099 = \<lparr>Year = 2099, Month = 1, Day = 1\<rparr>"

text \<open>
  A table of \<open>n\<close> active vouchers \<open>V0\<close>, \<open>V1\<close>, ... created one second after the other, and
  what \<open>insertRow\<close> stores for a voucher that comes without \<open>ID\<close> and timestamps.
\<close>

definition numbered :: "nat \<Rightarrow> Voucher" where
  "numbered k =
     \<lparr>ID = k + 1, VoucherCode = ''V'' @ itoa k, DiscountPercent = 10, ExpiryDate = newYear2099,
      CreatedAt = int k, UpdatedAt = int k, DeletedAt = None\<rparr>"

definition numberedTable :: "nat \<Rightarrow> storage" where
  "numberedTable n = \<lparr>rows = map numbered [0..<n], nextID = n + 1\<rparr>"

definition stored :: "nat \<Rightarrow> int \<Rightarrow> Voucher \<Rightarrow> Voucher" where
  "stored n t v = v\<lparr>ID := n, CreatedAt := t, UpdatedAt := t\<rparr>"

section \<open>Vocabulary of the properties\<close>

text \<open>The codes of the active vouchers of a table.\<close>

definition activeCodes :: "storage \<Rightarrow> string set" where
  "activeCodes db = set (map VoucherCode (active db))"

text \<open>
  The invariant of the table: the primary key and the unique index hold, each \<open>id\<close> is
  positive and was drawn from the sequence, each discount satisfies the check constraint.
\<close>

definition wellFormed :: "storage \<Rightarrow> bool" where
  "wellFormed db \<longleftrightarrow>
     distinct (map ID (rows db)) \<and> distinct (map VoucherCode (rows db))
     \<and> list_all (\<lambda>v. 0 < ID v \<and> ID v < nextID db
                      \<and> 1 \<le> DiscountPercent v \<and> DiscountPercent v \<le> 100) (rows db)"

text \<open>A date of the calendar with a year of four digits.\<close>

definition validDate :: "date \<Rightarrow> bool" where
  "validDate d \<longleftrightarrow>
     Year d \<le> 9999 \<and> 1 \<le> Month d \<and> Month d \<le> 12 \<and> 1 \<le> Day d
     \<and> Day d \<le> daysIn (Month d) (Year d)"

text \<open>A decimal numeral with exactly two digits after the point: an optional minus sign,
  at least one digit, the point, two digits.\<close>

definition decimalWithTwoDigits :: "string \<Rightarrow> bool" where
  "decimalWithTwoDigits s =
     (let u = (case s of [] \<Rightarrow> [] | c # cs \<Rightarrow> if c = CHR ''-'' then cs else s);
          n = length u
      in 4 \<le> n \<and> list_all isDigit (take (n - 3) u) \<and> u ! (n - 3) = CHR ''.''
         \<and> isDigit (u ! (n - 2)) \<and> isDigit (u ! (n - 1)))"

text \<open>The number a string of digits denotes; the inverse of \<open>itoa\<close>.\<close>

definition atoi :: "string \<Rightarrow> nat" where
  "atoi s = foldl (\<lambda>a c. 10 * a + digitVal c) 0 s"

text \<open>The requests of a batch that \<open>ImportBatch\<close>, on the repository of the source, neither
  counts as duplicates nor refuses: their code belongs to no active voucher and
  \<open>validateAndConvert\<close> accepts them.\<close>

definition accepted :: "clock \<Rightarrow> storage \<Rightarrow> CreateVoucherRequest list \<Rightarrow> CreateVoucherRequest list" where
  "accepted now db reqs =
     filter (\<lambda>q. req_VoucherCode q \<notin> activeCodes db \<and> \<not> isl (validateAndConvert now q)) reqs"

text \<open>
  For rows of a CSV file paired with their row numbers: the error entries of the rows that
  \<open>parseCSVRow\<close> refuses in the state \<open>s\<close>, and the vouchers of the rows it accepts, each list
  in the order of the rows.
\<close>

definition rowErrors ::
  "'s VoucherRepository \<Rightarrow> (string \<Rightarrow> real option) \<Rightarrow> clock \<Rightarrow> 's \<Rightarrow> (nat \<times> string list) list
     \<Rightarrow> ImportError list" where
  "rowErrors repo pf now s nrs =
     concat (map (\<lambda>(n, row). case fst (parseCSVRow repo pf now row n s) of
                                Inl e \<Rightarrow> [\<lparr>Row = n, Error = ErrorMsg e\<rparr>] | Inr v \<Rightarrow> []) nrs)"

definition rowVouchers ::
  "'s VoucherRepository \<Rightarrow> (string \<Rightarrow> real option) \<Rightarrow> clock \<Rightarrow> 's \<Rightarrow> (nat \<times> string list) list
     \<Rightarrow> Voucher list" where
  "rowVouchers repo pf now s nrs =
     concat (map (\<lambda>(n, row). case fst (parseCSVRow repo pf now row n s) of
                                Inl e \<Rightarrow> [] | Inr v \<Rightarrow> [v]) nrs)"

text \<open>
  The last call of \<open>Update\<close> and of \<open>Create\<close> once the code has passed: the write, when the
  date of the request parses and is not before the local day of the clock, and no call
  otherwise.
\<close>

definition saveCall :: "clock \<Rightarrow> Voucher \<Rightarrow> UpdateVoucherRequest \<Rightarrow> call list" where
  "saveCall now v q =
     (case time_Parse (req_ExpiryDate q) of
        None \<Rightarrow> []
      | Some d \<Rightarrow>
          if unixDays d < localDay now then []
          else [UpdateCall (v\<lparr>VoucherCode := req_VoucherCode q,
                              DiscountPercent := req_DiscountPercent q, ExpiryDate := d\<rparr>)])"

definition createCall :: "clock \<Rightarrow> CreateVoucherRequest \<Rightarrow> call list" where
  "createCall now q =
     (case time_Parse (req_ExpiryDate q) of
        None \<Rightarrow> []
      | Some d \<Rightarrow>
          if unixDays d < localDay now then []
          else [CreateCall (newVoucher (req_VoucherCode q) (req_DiscountPercent q) d)])"

section \<open>Evaluation of dates\<close>

lemmas date_eval =
  time_Parse_def isDigit_def digitVal_def daysIn_def daysBefore_def isLeap_def unixDays_def
  leapsBefore_def utcMidnight_def Truncate24h_def localMidnight_def localDay_def Before_def

lemma time_Parse_2099: "time_Parse ''2099-01-01'' = Some \<lparr>Year = 2099, Month = 1, Day = 1\<rparr>"
  by (simp add: date_eval)

lemma time_Parse_2023_11_14:
  "time_Parse ''2023-11-14'' = Some \<lparr>Year = 2023, Month = 11, Day = 14\<rparr>"
  by (simp add: date_eval)

lemma unixDays_2023_11_14: "unixDays \<lparr>Year = 2023, Month = 11, Day = 14\<rparr> = 19675"
  by (simp add: date_eval)

section \<open>The expiry date (C3)\<close>

lemmas trim_eval = TrimSpace_def trimLeading.simps leadingRune_def spaceRunes_def

lemma Before_utcMidnight:
  "Before (utcMidnight d) (Truncate24h now) \<longleftrightarrow> unixDays d < utcDay now"
  by (simp add: Before_def utcMidnight_def Truncate24h_def utcDay_def)

lemma Before_localMidnight:
  "Before (localMidnight now (unixDays d)) (localMidnight now (localDay now))
     \<longleftrightarrow> unixDays d < localDay now"
  by (simp add: Before_def localMidnight_def)

text \<open>
  \<open>Create\<close> compares the day of the expiry date with the local day of the clock, as C3
  says: a date before today is refused, today's date goes on to the repository.
\<close>

lemma Create_expiry:
  assumes "repo_FindByVoucherCode repo (req_VoucherCode r) s = ((None, err), s1)"
    and "otherThanNotFound err = None"
    and "time_Parse (req_ExpiryDate r) = Some d"
  shows "Create repo now r s =
     (if unixDays d < localDay now then (Inl ExpiryInPast, s1)
      else repo_Create repo (newVoucher (req_VoucherCode r) (req_DiscountPercent r) d) s1)"
  using assms by (simp add: Create_def Before_localMidnight)

text \<open>\<open>validateAndConvert\<close> compares it with the day of the clock in UTC.\<close>

lemma validateAndConvert_expiry:
  assumes "req_VoucherCode r \<noteq> []" and "length (req_VoucherCode r) \<le> 50"
    and "1 \<le> req_DiscountPercent r" and "req_DiscountPercent r \<le> 100"
    and "time_Parse (req_ExpiryDate r) = Some d"
  shows "validateAndConvert now r =
     (if unixDays d < utcDay now then Inl (ExpiryInPastOf (req_ExpiryDate r))
      else Inr (newVoucher (req_VoucherCode r) (req_DiscountPercent r) d))"
  using assms by (simp add: validateAndConvert_def Before_utcMidnight)

text \<open>
  C3 fails on the code for the batch validation and the CSV row validation, which take
  today from \<open>time.Now().Truncate(24 * time.Hour)\<close>, midnight UTC, where \<open>Create\<close> and
  \<open>Update\<close> take midnight of the local day.

  On \<open>clockEast\<close> the local day is 15 November 2023 (day 19676) and the day in UTC is
  14 November (day 19675). The expiry date 2023-11-14 is strictly before today in local
  time: \<open>Create\<close> refuses it, and \<open>validateAndConvert\<close> and \<open>parseCSVRow\<close> accept it.

  On \<open>clockWest\<close> the local day is 14 November 2023 and the day in UTC is 15 November. The
  expiry date 2023-11-14 is today in local time: \<open>Create\<close> accepts it, and
  \<open>validateAndConvert\<close> refuses it.
\<close>

theorem batch_validation_compares_with_UTC_day:
  "validateAndConvert clockEast (request ''PROMO'' 10 ''2023-11-14'')
     = Inr (newVoucher ''PROMO'' 10 \<lparr>Year = 2023, Month = 11, Day = 14\<rparr>)
   \<and> parseCSVRow (mockRepo old123) decimalLiterals clockEast
       [''PROMO'', ''10'', ''2023-11-14''] 2 ()
     = (Inr (newVoucher ''PROMO'' 10 \<lparr>Year = 2023, Month = 11, Day = 14\<rparr>), ())
   \<and> Create (mockRepo old123) clockEast (request ''PROMO'' 10 ''2023-11-14'') ()
     = (Inl ExpiryInPast, ())
   \<and> localDay clockEast = 19676 \<and> utcDay clockEast = 19675
   \<and> unixDays \<lparr>Year = 2023, Month = 11, Day = 14\<rparr> = 19675
   \<and> validateAndConvert clockWest (request ''PROMO'' 10 ''2023-11-14'')
     = Inl (ExpiryInPastOf ''2023-11-14'')
   \<and> Create (mockRepo old123) clockWest (request ''PROMO'' 10 ''2023-11-14'') ()
     = (Inr (newVoucher ''PROMO'' 10 \<lparr>Year = 2023, Month = 11, Day = 14\<rparr>), ())
   \<and> localDay clockWest = 19675 \<and> utcDay clockWest = 19676"
proof -
  have t: "TrimSpace ''PROMO'' = ''PROMO''" "TrimSpace ''10'' = ''10''"
    "TrimSpace ''2023-11-14'' = ''2023-11-14''"
    by (simp_all add: trim_eval)
  show ?thesis
    by (simp add: validateAndConvert_def parseCSVRow_def Create_def mockRepo_def request_def
          otherThanNotFound_def decimalLiterals_def clockEast_def clockWest_def t utcDay_def
          date_eval)
qed

section \<open>The loop of the batch import\<close>

lemma duplicateMapOf_fold:
  "fold (\<lambda>code m. m(code := True)) xs m0 c \<longleftrightarrow> c \<in> set xs \<or> m0 c"
  by (induction xs arbitrary: m0) auto

lemma duplicateMapOf_iff: "duplicateMapOf xs c \<longleftrightarrow> c \<in> set xs"
  by (simp add: duplicateMapOf_def duplicateMapOf_fold)

lemma filterValid_Duplicates:
  "Duplicates (fst (filterValid now dm reqs (r, vs)))
     = Duplicates r + length (filter (\<lambda>q. dm (req_VoucherCode q)) reqs)"
  by (induction reqs arbitrary: r vs) (simp_all split: sum.splits)

lemma filterValid_DuplicateCodes:
  "DuplicateCodes (fst (filterValid now dm reqs (r, vs)))
     = DuplicateCodes r @ filter dm (map req_VoucherCode reqs)"
  by (induction reqs arbitrary: r vs) (simp_all split: sum.splits)

lemma filterValid_BatchErrors:
  "BatchErrors (fst (filterValid now dm reqs (r, vs)))
     = BatchErrors r
       @ map (\<lambda>q. ''Code '' @ req_VoucherCode q @ '': ''
                  @ ErrorMsg (projl (validateAndConvert now q)))
           (filter (\<lambda>q. \<not> dm (req_VoucherCode q) \<and> isl (validateAndConvert now q)) reqs)"
  by (induction reqs arbitrary: r vs) (simp_all split: sum.splits)

lemma filterValid_valid:
  "snd (filterValid now dm reqs (r, vs))
     = vs @ map (\<lambda>q. projr (validateAndConvert now q))
           (filter (\<lambda>q. \<not> dm (req_VoucherCode q) \<and> \<not> isl (validateAndConvert now q)) reqs)"
  by (induction reqs arbitrary: r vs) (simp_all split: sum.splits)

lemma filterValid_TotalReceived:
  "TotalReceived (fst (filterValid now dm reqs (r, vs))) = TotalReceived r"
  by (induction reqs arbitrary: r vs) (simp_all split: sum.splits)

lemma filterValid_Inserted:
  "Inserted (fst (filterValid now dm reqs (r, vs))) = Inserted r"
  by (induction reqs arbitrary: r vs) (simp_all split: sum.splits)

lemma length_filter3:
  "length (filter P xs) + length (filter (\<lambda>x. \<not> P x \<and> Q x) xs)
     + length (filter (\<lambda>x. \<not> P x \<and> \<not> Q x) xs) = length xs"
  by (induction xs) auto

lemma validateAndConvert_code:
  "validateAndConvert now q = Inr v \<Longrightarrow> VoucherCode v = req_VoucherCode q"
  by (auto simp: validateAndConvert_def newVoucher_def Let_def split: if_splits option.splits)

text \<open>\<open>ImportBatch\<close>, with the results of the loop named by projections.\<close>

lemma ImportBatch_unfold:
  "ImportBatch repo now reqs s =
     (case repo_CheckDuplicateCodes repo (map req_VoucherCode reqs) s of
        (Inl err, s1) \<Rightarrow> (Inl err, s1)
      | (Inr existingCodes, s1) \<Rightarrow>
          (let fv = filterValid now (duplicateMapOf existingCodes) reqs
                      (newBatchImportResult (length reqs), [])
           in if snd fv \<noteq> [] then
                (case repo_BulkCreate repo (snd fv) s1 of
                   (Some err, s2) \<Rightarrow> (Inl err, s2)
                 | (None, s2) \<Rightarrow> (Inr ((fst fv)\<lparr>Inserted := length (snd fv)\<rparr>), s2))
              else (Inr (fst fv), s1)))"
  by (simp add: ImportBatch_def Let_def split: prod.splits sum.splits option.splits)

lemma traced_CheckDuplicateCodes:
  "repo_CheckDuplicateCodes (traced repo) codes (s, calls) =
     (fst (repo_CheckDuplicateCodes repo codes s), snd (repo_CheckDuplicateCodes repo codes s),
      calls @ [CheckDuplicateCodesCall codes])"
  by (simp add: traced_def logged_def split: prod.splits)

lemma traced_BulkCreate:
  "repo_BulkCreate (traced repo) vs (s, calls) =
     (fst (repo_BulkCreate repo vs s), snd (repo_BulkCreate repo vs s),
      calls @ [BulkCreateCall vs])"
  by (simp add: traced_def logged_def split: prod.splits)

text \<open>The calls \<open>ImportBatch\<close> makes to the repository.\<close>

lemma ImportBatch_calls:
  "snd (snd (ImportBatch (traced repo) now reqs (s, []))) =
     (case fst (repo_CheckDuplicateCodes repo (map req_VoucherCode reqs) s) of
        Inl err \<Rightarrow> [CheckDuplicateCodesCall (map req_VoucherCode reqs)]
      | Inr existingCodes \<Rightarrow>
          (let vs = snd (filterValid now (duplicateMapOf existingCodes) reqs
                           (newBatchImportResult (length reqs), []))
           in if vs \<noteq> []
              then [CheckDuplicateCodesCall (map req_VoucherCode reqs), BulkCreateCall vs]
              else [CheckDuplicateCodesCall (map req_VoucherCode reqs)]))"
  by (simp add: ImportBatch_unfold traced_CheckDuplicateCodes traced_BulkCreate Let_def
        split: prod.splits sum.splits option.splits)

lemma impl_CheckDuplicateCodes_eq:
  "repo_CheckDuplicateCodes (voucherRepositoryImpl t) codes db
     = (Inr (map VoucherCode (filter (\<lambda>v. VoucherCode v \<in> set codes) (active db))), db)"
  by (simp add: voucherRepositoryImpl_def impl_CheckDuplicateCodes_def)

lemma duplicate_in_storage:
  assumes "q \<in> set reqs"
  shows "duplicateMapOf (map VoucherCode
            (filter (\<lambda>v. VoucherCode v \<in> set (map req_VoucherCode reqs)) (active db)))
           (req_VoucherCode q)
         \<longleftrightarrow> req_VoucherCode q \<in> activeCodes db"
  using assms by (force simp: duplicateMapOf_iff activeCodes_def)

lemma Sprintf_2f_200: "Sprintf_2f 200 = ''200.00''"
  by (simp add: Sprintf_2f_def roundHalfEven_def itoa.simps digitChar_def zeroPad_def)

section \<open>Codes repeated inside one batch (C10)\<close>

text \<open>A bulk insert of the source that succeeds has inserted vouchers with distinct codes,
  none of them a code of the table.\<close>

lemma insertRow_Inr:
  assumes "insertRow t db v = Inr (v', db')"
  shows "VoucherCode v' = VoucherCode v \<and> VoucherCode v \<notin> set (map VoucherCode (rows db))
     \<and> rows db' = rows db @ [v']"
  using assms
  by (auto simp: insertRow_def constraintError_def Let_def split: option.splits if_splits)

lemma insertRows_distinct_codes:
  "insertRows t vs db = Inr db' \<Longrightarrow>
     distinct (map VoucherCode vs)
     \<and> set (map VoucherCode vs) \<inter> set (map VoucherCode (rows db)) = {}"
proof (induction vs arbitrary: db)
  case Nil
  then show ?case by simp
next
  case (Cons v vs)
  from Cons.prems obtain v' db1 where
    i: "insertRow t db v = Inr (v', db1)" and r: "insertRows t vs db1 = Inr db'"
    by (auto split: sum.splits)
  from insertRow_Inr [OF i] have
    c: "VoucherCode v \<notin> set (map VoucherCode (rows db))"
    and rows1: "rows db1 = rows db @ [v']" and c': "VoucherCode v' = VoucherCode v"
    by simp_all
  from Cons.IH [OF r] have d: "distinct (map VoucherCode vs)"
    and disj: "set (map VoucherCode vs) \<inter> set (map VoucherCode (rows db1)) = {}"
    by simp_all
  from disj rows1 c' have "VoucherCode v \<notin> set (map VoucherCode vs)"
    and "set (map VoucherCode vs) \<inter> set (map VoucherCode (rows db)) = {}"
    by auto
  with d c show ?case
    by auto
qed

lemma impl_BulkCreate_same_code_fails:
  assumes "\<not> distinct (map VoucherCode vs)"
  shows "fst (repo_BulkCreate (voucherRepositoryImpl t) vs db) \<noteq> None"
proof (cases "insertRows t vs db")
  case (Inl e)
  then show ?thesis
    by (simp add: voucherRepositoryImpl_def impl_BulkCreate_def)
next
  case (Inr db')
  from insertRows_distinct_codes [OF Inr] assms show ?thesis
    by simp
qed

lemma distinct_at_most_one:
  "distinct (map f xs) \<Longrightarrow> length (filter (\<lambda>v. f v = c) xs) \<le> 1"
proof (induction xs)
  case Nil
  then show ?case by simp
next
  case (Cons x xs)
  show ?case
  proof (cases "f x = c")
    case True
    from Cons.prems have "f x \<notin> f ` set xs"
      by simp
    with True have "\<forall>v \<in> set xs. f v \<noteq> c"
      by blast
    then have "filter (\<lambda>v. f v = c) xs = []"
      by (simp add: filter_empty_conv)
    with True show ?thesis by simp
  next
    case False
    with Cons show ?thesis by simp
  qed
qed

lemma two_equal_codes:
  assumes "2 \<le> length (filter (\<lambda>v. f v = c) vs)"
  shows "\<not> distinct (map f vs)"
  using assms distinct_at_most_one [of f vs c] by auto

text \<open>
  C10: let the code \<open>c\<close> be none of the codes \<open>CheckDuplicateCodes\<close> returns, and let two
  or more requests of the batch have the code \<open>c\<close>, each of them valid. Then \<open>ImportBatch\<close>
  makes one \<open>BulkCreate\<close> call, and the vouchers of that call with the code \<open>c\<close> are the
  vouchers of all these requests; where a report is returned, \<open>c\<close> is not among its
  \<open>DuplicateCodes\<close>, and where an error is returned, it is the error of that call. The
  service compares no two codes of a batch: on the repository of the source this bulk
  insert fails on the unique index of the table.
\<close>

theorem ImportBatch_inserts_codes_repeated_in_the_batch:
  assumes "repo_CheckDuplicateCodes repo (map req_VoucherCode reqs) s = (Inr existingCodes, s1)"
    and "c \<notin> set existingCodes"
    and "\<forall>q \<in> set reqs. req_VoucherCode q = c \<longrightarrow> \<not> isl (validateAndConvert now q)"
    and "2 \<le> length (filter (\<lambda>q. req_VoucherCode q = c) reqs)"
  shows "\<exists>vs. snd (snd (ImportBatch (traced repo) now reqs (s, [])))
            = [CheckDuplicateCodesCall (map req_VoucherCode reqs), BulkCreateCall vs]
     \<and> filter (\<lambda>v. VoucherCode v = c) vs
         = map (\<lambda>q. projr (validateAndConvert now q)) (filter (\<lambda>q. req_VoucherCode q = c) reqs)
     \<and> (case fst (ImportBatch repo now reqs s) of
           Inr report \<Rightarrow> c \<notin> set (DuplicateCodes report)
         | Inl e \<Rightarrow> fst (repo_BulkCreate repo vs s1) = Some e)
     \<and> fst (repo_BulkCreate (voucherRepositoryImpl t) vs db) \<noteq> None"
proof -
  define dm where "dm = duplicateMapOf existingCodes"
  define fv where "fv = filterValid now dm reqs (newBatchImportResult (length reqs), [])"
  define vs where "vs = snd fv"
  have ndm: "\<not> dm c"
    using assms(2) by (simp add: dm_def duplicateMapOf_iff)
  have vs_eq: "vs = map (\<lambda>q. projr (validateAndConvert now q))
           (filter (\<lambda>q. \<not> dm (req_VoucherCode q) \<and> \<not> isl (validateAndConvert now q)) reqs)"
    by (simp add: vs_def fv_def filterValid_valid)
  have code: "VoucherCode (projr (validateAndConvert now q)) = req_VoucherCode q"
    if "\<not> isl (validateAndConvert now q)" for q
    using that by (cases "validateAndConvert now q") (simp_all add: validateAndConvert_code)
  have sel: "filter (\<lambda>v. VoucherCode v = c) vs
         = map (\<lambda>q. projr (validateAndConvert now q)) (filter (\<lambda>q. req_VoucherCode q = c) reqs)"
  proof -
    have "filter (\<lambda>q. (\<not> dm (req_VoucherCode q) \<and> \<not> isl (validateAndConvert now q))
                    \<and> VoucherCode (projr (validateAndConvert now q)) = c) reqs
          = filter (\<lambda>q. req_VoucherCode q = c) reqs"
      using assms(3) ndm by (intro filter_cong) (auto simp: code)
    then show ?thesis
      by (simp add: vs_eq filter_map comp_def conj_commute)
  qed
  from assms(4) sel have ne: "vs \<noteq> []"
    by (metis filter.simps(1) length_map list.size(3) not_numeral_le_zero)
  have calls: "snd (snd (ImportBatch (traced repo) now reqs (s, [])))
            = [CheckDuplicateCodesCall (map req_VoucherCode reqs), BulkCreateCall vs]"
    using ne by (simp add: ImportBatch_calls assms(1) Let_def vs_def fv_def dm_def)
  have dupc: "c \<notin> set (DuplicateCodes (fst fv))"
    using ndm by (simp add: fv_def filterValid_DuplicateCodes newBatchImportResult_def)
  have res: "case fst (ImportBatch repo now reqs s) of
           Inr report \<Rightarrow> c \<notin> set (DuplicateCodes report)
         | Inl e \<Rightarrow> fst (repo_BulkCreate repo vs s1) = Some e"
    using ne dupc
    by (auto simp: ImportBatch_unfold assms(1) Let_def vs_def fv_def dm_def
          split: prod.splits option.splits)
  have "2 \<le> length (filter (\<lambda>v. VoucherCode v = c) vs)"
    using assms(4) by (simp add: sel)
  then have "\<not> distinct (map VoucherCode vs)"
    by (rule two_equal_codes)
  then have fails: "fst (repo_BulkCreate (voucherRepositoryImpl t) vs db) \<noteq> None"
    by (rule impl_BulkCreate_same_code_fails)
  from calls sel res fails show ?thesis
    by blast
qed

text \<open>Twice the code \<open>A\<close>, which the table \<open>storage2\<close> does not hold.\<close>

lemma repeated_code_example:
  "repo_CheckDuplicateCodes (voucherRepositoryImpl 1700000000)
       (map req_VoucherCode [request ''A'' 10 ''2099-01-01'', request ''A'' 20 ''2099-01-01''])
       storage2 = (Inr [], storage2)"
  "\<forall>q \<in> set [request ''A'' 10 ''2099-01-01'', request ''A'' 20 ''2099-01-01''].
       req_VoucherCode q = ''A'' \<longrightarrow> \<not> isl (validateAndConvert clockEast q)"
  "2 \<le> length (filter (\<lambda>q. req_VoucherCode q = ''A'')
            [request ''A'' 10 ''2099-01-01'', request ''A'' 20 ''2099-01-01''])"
  by (simp_all add: impl_CheckDuplicateCodes_eq request_def active_def storage2_def old123_def
        gone_def validateAndConvert_def clockEast_def date_eval)

theorem ImportBatch_inserts_codes_repeated_in_the_batch_witness:
  "(\<exists>vs. snd (snd (ImportBatch (traced (voucherRepositoryImpl 1700000000)) clockEast
                     [request ''A'' 10 ''2099-01-01'', request ''A'' 20 ''2099-01-01'']
                     (storage2, [])))
            = [CheckDuplicateCodesCall
                 (map req_VoucherCode
                    [request ''A'' 10 ''2099-01-01'', request ''A'' 20 ''2099-01-01'']),
               BulkCreateCall vs]
     \<and> filter (\<lambda>v. VoucherCode v = ''A'') vs
         = map (\<lambda>q. projr (validateAndConvert clockEast q))
             (filter (\<lambda>q. req_VoucherCode q = ''A'')
                [request ''A'' 10 ''2099-01-01'', request ''A'' 20 ''2099-01-01''])
     \<and> (case fst (ImportBatch (voucherRepositoryImpl 1700000000) clockEast
                     [request ''A'' 10 ''2099-01-01'', request ''A'' 20 ''2099-01-01'']
                     storage2) of
           Inr report \<Rightarrow> ''A'' \<notin> set (DuplicateCodes report)
         | Inl e \<Rightarrow> fst (repo_BulkCreate (voucherRepositoryImpl 1700000000) vs storage2) = Some e)
     \<and> fst (repo_BulkCreate (voucherRepositoryImpl 1700000000) vs storage2) \<noteq> None)
   \<and> ImportBatch (voucherRepositoryImpl 1700000000) clockEast
        [request ''A'' 10 ''2099-01-01'', request ''A'' 20 ''2099-01-01''] storage2
      = (Inl (StorageError ''duplicate key value violates unique constraint: voucher_code''),
         storage2)"
proof
  show "\<exists>vs. snd (snd (ImportBatch (traced (voucherRepositoryImpl 1700000000)) clockEast
                     [request ''A'' 10 ''2099-01-01'', request ''A'' 20 ''2099-01-01'']
                     (storage2, [])))
            = [CheckDuplicateCodesCall
                 (map req_VoucherCode
                    [request ''A'' 10 ''2099-01-01'', request ''A'' 20 ''2099-01-01'']),
               BulkCreateCall vs]
     \<and> filter (\<lambda>v. VoucherCode v = ''A'') vs
         = map (\<lambda>q. projr (validateAndConvert clockEast q))
             (filter (\<lambda>q. req_VoucherCode q = ''A'')
                [request ''A'' 10 ''2099-01-01'', request ''A'' 20 ''2099-01-01''])
     \<and> (case fst (ImportBatch (voucherRepositoryImpl 1700000000) clockEast
                     [request ''A'' 10 ''2099-01-01'', request ''A'' 20 ''2099-01-01'']
                     storage2) of
           Inr report \<Rightarrow> ''A'' \<notin> set (DuplicateCodes report)
         | Inl e \<Rightarrow> fst (repo_BulkCreate (voucherRepositoryImpl 1700000000) vs storage2) = Some e)
     \<and> fst (repo_BulkCreate (voucherRepositoryImpl 1700000000) vs storage2) \<noteq> None"
    by (rule ImportBatch_inserts_codes_repeated_in_the_batch [OF repeated_code_example(1) _ repeated_code_example(2) repeated_code_example(3)]) simp
  show "ImportBatch (voucherRepositoryImpl 1700000000) clockEast
        [request ''A'' 10 ''2099-01-01'', request ''A'' 20 ''2099-01-01''] storage2
      = (Inl (StorageError ''duplicate key value violates unique constraint: voucher_code''),
         storage2)"
    by (simp add: ImportBatch_def voucherRepositoryImpl_def impl_CheckDuplicateCodes_def
        impl_BulkCreate_def insertRow_def constraintError_def active_def storage2_def
        old123_def gone_def request_def duplicateMapOf_def newBatchImportResult_def
        validateAndConvert_def newVoucher_def clockEast_def Let_def date_eval)
qed

section \<open>A bulk insert that fails (C5)\<close>

lemma ImportVouchers_unfold:
  "ImportVouchers repo pf now (Inr records) s =
     (if length records < 2 then (Inl EmptyImport, s)
      else
        let l = importRows repo pf now (tl records) 0 (newImportResult (length records - 1), []) s
        in if snd (fst l) \<noteq> [] then
             (case repo_BulkCreate repo (snd (fst l)) (snd l) of
                (Some err, s2) \<Rightarrow> (Inl (InsertFailed err), s2)
              | (None, s2) \<Rightarrow> (Inr ((fst (fst l))\<lparr>Success := length (snd (fst l))\<rparr>), s2))
           else (Inr (fst (fst l)), snd l))"
  by (simp add: ImportVouchers_def Let_def split: prod.splits sum.splits option.splits)

text \<open>
  C5: in the CSV import and in the batch import alike, when the loop has found at least
  one valid voucher and the one \<open>BulkCreate\<close> call returns an error, the whole call returns
  that error (wrapped, for the CSV import) and no report: the counts and the errors the
  loop had gathered are not returned.
\<close>

theorem bulk_insert_failure_loses_the_report:
  "(2 \<le> length records
      \<and> importRows repo pf now (tl records) 0 (newImportResult (length records - 1), []) s
          = ((result, vouchers), sa)
      \<and> vouchers \<noteq> [] \<and> repo_BulkCreate repo vouchers sa = (Some err, sb)
    \<longrightarrow> ImportVouchers repo pf now (Inr records) s = (Inl (InsertFailed err), sb))
   \<and> (repo_CheckDuplicateCodes repo (map req_VoucherCode reqs) s' = (Inr existingCodes, sa')
      \<and> filterValid now (duplicateMapOf existingCodes) reqs
            (newBatchImportResult (length reqs), []) = (bresult, validVouchers)
      \<and> validVouchers \<noteq> [] \<and> repo_BulkCreate repo validVouchers sa' = (Some err', sb')
    \<longrightarrow> ImportBatch repo now reqs s' = (Inl err', sb'))"
  by (auto simp: ImportVouchers_unfold ImportBatch_unfold Let_def)

lemma TrimSpace_examples:
  "TrimSpace ''DISC10'' = ''DISC10''" "TrimSpace ''10.00'' = ''10.00''"
  "TrimSpace ''2099-01-01'' = ''2099-01-01''" "TrimSpace [] = []" "TrimSpace ''BAD'' = ''BAD''"
  "TrimSpace ''200'' = ''200''" "TrimSpace ''20'' = ''20''"
  by (simp_all add: trim_eval)

lemma one_row_import:
  "importRows (mockRepoBulkFails old123) decimalLiterals clockEast
     (tl [[''voucher_code'', ''discount_percent'', ''expiry_date''],
          [''DISC10'', ''10.00'', ''2099-01-01'']]) 0
     (newImportResult
        (length [[''voucher_code'', ''discount_percent'', ''expiry_date''],
                 [''DISC10'', ''10.00'', ''2099-01-01'']] - 1), []) ()
   = ((newImportResult 1, [newVoucher ''DISC10'' 10 \<lparr>Year = 2099, Month = 1, Day = 1\<rparr>]), ())"
  by (simp add: parseCSVRow_def mockRepoBulkFails_def mockRepo_def otherThanNotFound_def TrimSpace_examples
        decimalLiterals_def clockEast_def time_Parse_2099 newVoucher_def Let_def
        unixDays_def leapsBefore_def daysBefore_def isLeap_def utcMidnight_def Truncate24h_def
        Before_def)

lemma one_request_batch:
  "filterValid clockEast (duplicateMapOf []) [request ''DISC10'' 10 ''2099-01-01'']
     (newBatchImportResult (length [request ''DISC10'' 10 ''2099-01-01'']), [])
   = (newBatchImportResult 1, [newVoucher ''DISC10'' 10 \<lparr>Year = 2099, Month = 1, Day = 1\<rparr>])"
  by (simp add: duplicateMapOf_def validateAndConvert_def request_def clockEast_def
        time_Parse_2099 newVoucher_def Let_def
        unixDays_def leapsBefore_def daysBefore_def isLeap_def utcMidnight_def Truncate24h_def
        Before_def)

theorem bulk_insert_failure_loses_the_report_witness:
  "ImportVouchers (mockRepoBulkFails old123) decimalLiterals clockEast
     (Inr [[''voucher_code'', ''discount_percent'', ''expiry_date''],
           [''DISC10'', ''10.00'', ''2099-01-01'']]) ()
   = (Inl (InsertFailed (StorageError ''connection refused'')), ())
   \<and> ImportBatch (mockRepoBulkFails old123) clockEast [request ''DISC10'' 10 ''2099-01-01''] ()
   = (Inl (StorageError ''connection refused''), ())"
proof -
  have b: "repo_BulkCreate (mockRepoBulkFails old123) vs () 
             = (Some (StorageError ''connection refused''), ())" for vs
    by (simp add: mockRepoBulkFails_def)
  have c: "repo_CheckDuplicateCodes (mockRepoBulkFails old123) codes () = (Inr [], ())" for codes
    by (simp add: mockRepoBulkFails_def mockRepo_def)
  from bulk_insert_failure_loses_the_report [where repo = "mockRepoBulkFails old123" and pf = decimalLiterals and now = clockEast
             and records = "[[''voucher_code'', ''discount_percent'', ''expiry_date''],
                             [''DISC10'', ''10.00'', ''2099-01-01'']]"
             and s = "()" and sa = "()" and sb = "()"
             and result = "newImportResult 1"
             and vouchers = "[newVoucher ''DISC10'' 10 \<lparr>Year = 2099, Month = 1, Day = 1\<rparr>]"
             and err = "StorageError ''connection refused''"
             and reqs = "[request ''DISC10'' 10 ''2099-01-01'']"
             and s' = "()" and sa' = "()" and sb' = "()" and existingCodes = "[]"
             and bresult = "newBatchImportResult 1"
             and validVouchers = "[newVoucher ''DISC10'' 10 \<lparr>Year = 2099, Month = 1, Day = 1\<rparr>]"
             and err' = "StorageError ''connection refused''"]
    one_row_import one_request_batch b c
  show ?thesis
    by simp
qed

section \<open>The table of the source\<close>

lemma time_Parse_newYear2099: "time_Parse ''2099-01-01'' = Some newYear2099"
  by (simp add: newYear2099_def date_eval)

lemma unixDays_newYear2099: "unixDays newYear2099 = 47117"
  by (simp add: newYear2099_def date_eval)

lemma wellFormed_nextID: "wellFormed db \<Longrightarrow> nextID db \<notin> set (map ID (rows db))"
  by (auto simp: wellFormed_def list_all_iff)

lemma impl_FindByVoucherCode_absent:
  "c \<notin> activeCodes db \<Longrightarrow>
     repo_FindByVoucherCode (voucherRepositoryImpl t) c db = ((None, None), db)"
  by (auto simp: voucherRepositoryImpl_def impl_FindByVoucherCode_def activeCodes_def
        find_None_iff split: option.splits)

lemma activeCodes_subset: "activeCodes db \<subseteq> set (map VoucherCode (rows db))"
  by (auto simp: activeCodes_def active_def)

lemma importRows_counts:
  "Failed (fst (fst (importRows repo pf now rs i (r, vs) s)))
       + length (snd (fst (importRows repo pf now rs i (r, vs) s)))
     = Failed r + length vs + length rs
   \<and> length (Errors (fst (fst (importRows repo pf now rs i (r, vs) s)))) + Failed r
     = length (Errors r) + Failed (fst (fst (importRows repo pf now rs i (r, vs) s)))
   \<and> TotalRows (fst (fst (importRows repo pf now rs i (r, vs) s))) = TotalRows r"
proof (induction rs arbitrary: i r vs s)
  case Nil
  show ?case by simp
next
  case (Cons a rs)
  obtain res s1 where p: "parseCSVRow repo pf now a (i + 2) s = (res, s1)"
    by (cases "parseCSVRow repo pf now a (i + 2) s")
  show ?case
  proof (cases res)
    case (Inl e)
    with p Cons.IH [of "i + 1"
        "r\<lparr>Errors := Errors r @ [\<lparr>Row = i + 2, Error = ErrorMsg e\<rparr>], Failed := Failed r + 1\<rparr>"
        vs s1]
    show ?thesis by simp
  next
    case (Inr v)
    with p Cons.IH [of "i + 1" r "vs @ [v]" s1]
    show ?thesis by simp
  qed
qed

lemma storage_examples:
  "wellFormed storage2" "wellFormed storage3"
  "active storage2 = [old123]" "active storage3 = [old123, save20]"
  "activeCodes storage2 = {''OLD123''}" "activeCodes storage3 = {''OLD123'', ''SAVE20''}"
  by (auto simp: wellFormed_def storage2_def storage3_def old123_def gone_def save20_def
        active_def activeCodes_def)

section \<open>Lookups and updates on the table of the source\<close>

lemma find_distinct_key:
  "distinct (map f xs) \<Longrightarrow> x \<in> set xs \<Longrightarrow> find (\<lambda>v. f v = f x) xs = Some x"
proof (induction xs)
  case Nil
  then show ?case by simp
next
  case (Cons a xs)
  then show ?case by (cases "a = x") force+
qed

lemma wellFormed_active_ids: "wellFormed db \<Longrightarrow> distinct (map ID (active db))"
  by (simp add: wellFormed_def active_def distinct_map_filter)

lemma impl_FindByID_found:
  assumes "wellFormed db" and "r \<in> set (active db)"
  shows "repo_FindByID (voucherRepositoryImpl t) (ID r) db = (Inr r, db)"
  using find_distinct_key [OF wellFormed_active_ids [OF assms(1)] assms(2)]
  by (simp add: voucherRepositoryImpl_def impl_FindByID_def)

lemma impl_FindByVoucherCode_found:
  assumes "c \<in> activeCodes db"
  shows "\<exists>v. repo_FindByVoucherCode (voucherRepositoryImpl t) c db = ((Some v, None), db)"
proof -
  from assms have "find (\<lambda>v. VoucherCode v = c) (active db) \<noteq> None"
    by (auto simp: activeCodes_def find_None_iff)
  then show ?thesis
    by (auto simp: voucherRepositoryImpl_def impl_FindByVoucherCode_def split: option.splits)
qed

lemma code_of_other_rows:
  assumes "distinct (map VoucherCode xs)" and "r \<in> set xs"
  shows "VoucherCode r \<notin> set (map VoucherCode (filter (\<lambda>x. ID x \<noteq> ID r) xs))"
proof
  assume "VoucherCode r \<in> set (map VoucherCode (filter (\<lambda>x. ID x \<noteq> ID r) xs))"
  then obtain x where x: "x \<in> set xs" "ID x \<noteq> ID r" "VoucherCode x = VoucherCode r"
    by auto
  from assms(1) have "inj_on VoucherCode (set xs)"
    by (simp add: distinct_map)
  with x(1,3) assms(2) have "x = r"
    by (auto dest: inj_onD)
  with x(2) show False by simp
qed

lemma impl_Update_same_code:
  assumes "wellFormed db" and "r \<in> set (active db)"
    and "VoucherCode v = VoucherCode r" and "ID v = ID r"
    and "1 \<le> DiscountPercent v" and "DiscountPercent v \<le> 100"
  shows "repo_Update (voucherRepositoryImpl t) v db
         = (Inr (v\<lparr>UpdatedAt := t\<rparr>),
            db\<lparr>rows := map (\<lambda>x. if ID x = ID r then v\<lparr>UpdatedAt := t\<rparr> else x) (rows db)\<rparr>)"
proof -
  from assms(2) have rows: "r \<in> set (rows db)"
    by (simp add: active_def)
  with assms(1) have pos: "ID r \<noteq> 0"
    by (auto simp: wellFormed_def list_all_iff)
  from assms(1) rows have "VoucherCode r \<notin> set (map VoucherCode (filter (\<lambda>x. ID x \<noteq> ID r) (rows db)))"
    by (intro code_of_other_rows) (simp_all add: wellFormed_def)
  then have "constraintError (filter (\<lambda>x. ID x \<noteq> ID r) (rows db)) (v\<lparr>UpdatedAt := t\<rparr>) = None"
    using assms(3-6) by (auto simp: constraintError_def)
  moreover from assms(2) have "ID r \<in> set (map ID (active db))"
    by simp
  ultimately show ?thesis
    using pos assms(4) by (simp add: voucherRepositoryImpl_def impl_Update_def Let_def)
qed

lemma traced_FindByID:
  "repo_FindByID (traced repo) vid (s, calls) =
     (fst (repo_FindByID repo vid s), snd (repo_FindByID repo vid s), calls @ [FindByIDCall vid])"
  by (simp add: traced_def logged_def split: prod.splits)

lemma traced_FindByVoucherCode:
  "repo_FindByVoucherCode (traced repo) c (s, calls) =
     (fst (repo_FindByVoucherCode repo c s), snd (repo_FindByVoucherCode repo c s),
      calls @ [FindByVoucherCodeCall c])"
  by (simp add: traced_def logged_def split: prod.splits)

lemma traced_Update:
  "repo_Update (traced repo) v (s, calls) =
     (fst (repo_Update repo v s), snd (repo_Update repo v s), calls @ [UpdateCall v])"
  by (simp add: traced_def logged_def split: prod.splits)

section \<open>Rendering and parsing of numbers and dates\<close>

lemma isDigit_digitChar: "k < 10 \<Longrightarrow> isDigit (digitChar k)"
proof -
  assume "k < 10"
  then have "k \<in> {0, 1, 2, 3, 4, 5, 6, 7, 8, 9}" by auto
  then show ?thesis
    by (auto simp: isDigit_def digitChar_def)
qed

lemma digitVal_digitChar: "k < 10 \<Longrightarrow> digitVal (digitChar k) = k"
proof -
  assume "k < 10"
  then have "k \<in> {0, 1, 2, 3, 4, 5, 6, 7, 8, 9}" by auto
  then show ?thesis
    by (auto simp: digitVal_def digitChar_def)
qed

lemma digitChar_digitVal: "isDigit c \<Longrightarrow> digitChar (digitVal c) = c"
  by (auto simp: isDigit_def digitVal_def digitChar_def)

lemma digitVal_less: "isDigit c \<Longrightarrow> digitVal c < 10"
  by (auto simp: isDigit_def digitVal_def)

lemma digitChar_not_dash: "k < 10 \<Longrightarrow> digitChar k \<noteq> CHR ''-''"
  using isDigit_digitChar [of k] by (auto simp: isDigit_def)

lemma itoa_digits: "list_all isDigit (itoa n) \<and> itoa n \<noteq> []"
proof (induction n rule: itoa.induct)
  case (1 n)
  show ?case
  proof (cases "n < 10")
    case True
    then show ?thesis
      by (simp add: itoa.simps [of n] isDigit_digitChar)
  next
    case False
    with 1 show ?thesis
      by (simp add: itoa.simps [of n] isDigit_digitChar)
  qed
qed

lemma itoa_one: "n < 10 \<Longrightarrow> itoa n = [digitChar n]"
  by (simp add: itoa.simps [of n])

lemma itoa_two: "10 \<le> n \<Longrightarrow> n < 100 \<Longrightarrow> itoa n = [digitChar (n div 10), digitChar (n mod 10)]"
  by (simp add: itoa.simps [of n] itoa_one)

lemma itoa_three:
  "100 \<le> n \<Longrightarrow> n < 1000 \<Longrightarrow>
     itoa n = [digitChar (n div 100), digitChar (n div 10 mod 10), digitChar (n mod 10)]"
  by (simp add: itoa.simps [of n] itoa_two div_mult2_eq [symmetric])

lemma itoa_four:
  "1000 \<le> n \<Longrightarrow> n < 10000 \<Longrightarrow>
     itoa n = [digitChar (n div 1000), digitChar (n div 100 mod 10), digitChar (n div 10 mod 10),
               digitChar (n mod 10)]"
  by (simp add: itoa.simps [of n] itoa_three div_mult2_eq [symmetric])

lemma replicate_small:
  "replicate 3 c = [c, c, c]" "replicate 2 c = [c, c]" "replicate 1 c = [c]"
  by (simp_all add: numeral_3_eq_3 numeral_2_eq_2)

lemma digitChar_0: "digitChar 0 = CHR ''0''"
  by (simp add: digitChar_def)

lemma zeroPad2: "n < 100 \<Longrightarrow> zeroPad 2 (itoa n) = [digitChar (n div 10), digitChar (n mod 10)]"
  by (cases "n < 10") (simp_all add: zeroPad_def itoa_one itoa_two digitChar_0)

lemma zeroPad4:
  assumes "n < 10000"
  shows "zeroPad 4 (itoa n)
     = [digitChar (n div 1000), digitChar (n div 100 mod 10), digitChar (n div 10 mod 10),
        digitChar (n mod 10)]"
proof -
  consider "n < 10" | "10 \<le> n" "n < 100" | "100 \<le> n" "n < 1000" | "1000 \<le> n"
    by linarith
  then show ?thesis
  proof cases
    case 1
    then show ?thesis
      by (simp add: zeroPad_def itoa_one digitChar_0 replicate_small)
  next
    case 2
    then show ?thesis
      by (simp add: zeroPad_def itoa_two digitChar_0 replicate_small)
  next
    case 3
    then show ?thesis
      by (simp add: zeroPad_def itoa_three digitChar_0 replicate_small)
  next
    case 4
    with assms show ?thesis
      by (simp add: zeroPad_def itoa_four)
  qed
qed

lemma list10:
  assumes "length s = 10"
  shows "s = [s ! 0, s ! 1, s ! 2, s ! 3, s ! 4, s ! 5, s ! 6, s ! 7, s ! 8, s ! 9]"
proof -
  have "s = map (\<lambda>i. s ! i) [0..<length s]"
    by (simp add: map_nth)
  also have "[0..<length s] = [0, 1, 2, 3, 4, 5, 6, 7, 8, 9]"
    unfolding assms by (simp add: upt_conv_Cons)
  finally show ?thesis
    by simp
qed

lemma div_step: "r < n \<Longrightarrow> (k * n + r) div n = (k::nat)"
  by simp

lemma mod_step: "r < n \<Longrightarrow> (k * n + r) mod n = (r::nat)"
  by simp

lemma digits4:
  assumes "a < 10" "b < 10" "c < 10" "e < (10::nat)"
  shows "(a * 1000 + b * 100 + c * 10 + e) div 1000 = a"
    and "(a * 1000 + b * 100 + c * 10 + e) div 100 mod 10 = b"
    and "(a * 1000 + b * 100 + c * 10 + e) div 10 mod 10 = c"
    and "(a * 1000 + b * 100 + c * 10 + e) mod 10 = e"
    and "a * 1000 + b * 100 + c * 10 + e < 10000"
proof -
  let ?x = "a * 1000 + b * 100 + c * 10 + e"
  have x1: "?x = a * 1000 + (b * 100 + c * 10 + e)" and r1: "b * 100 + c * 10 + e < 1000"
    and x2: "?x = (a * 10 + b) * 100 + (c * 10 + e)" and r2: "c * 10 + e < 100"
    and x3: "?x = (a * 100 + b * 10 + c) * 10 + e"
    using assms by simp_all
  show "?x div 1000 = a"
    unfolding x1 using r1 by (rule div_step)
  have "?x div 100 = a * 10 + b"
    unfolding x2 using r2 by (rule div_step)
  then show "?x div 100 mod 10 = b"
    using assms(2) by (simp only: mod_step)
  have "?x div 10 = (a * 100 + b * 10) + c"
    unfolding x3 using assms(4) by (simp only: div_step add.assoc)
  moreover have "((a * 10 + b) * 10 + c) mod 10 = c"
    using assms(3) by (rule mod_step)
  ultimately show "?x div 10 mod 10 = c"
    by (simp add: algebra_simps)
  show "?x mod 10 = e"
    unfolding x3 using assms(4) by (rule mod_step)
  show "?x < 10000"
    using assms by simp
qed

lemma digits4_sum:
  "y div 1000 * 1000 + y div 100 mod 10 * 100 + y div 10 mod 10 * 10 + y mod 10 = (y::nat)"
proof -
  have a: "y div 10 div 10 = y div 100" "y div 100 div 10 = y div 1000"
    by (simp_all add: div_mult2_eq [symmetric])
  have "y = y div 10 * 10 + y mod 10"
    by simp
  moreover have "y div 10 = y div 10 div 10 * 10 + y div 10 mod 10"
    by simp
  moreover have "y div 100 = y div 100 div 10 * 10 + y div 100 mod 10"
    by simp
  ultimately show ?thesis
    unfolding a by linarith
qed

lemma digits2:
  assumes "a < 10" "b < (10::nat)"
  shows "(a * 10 + b) div 10 = a" and "(a * 10 + b) mod 10 = b" and "a * 10 + b < 100"
  using assms by simp_all

lemma time_Parse_Some:
  assumes "time_Parse s = Some d"
  shows "length s = 10"
    and "list_all isDigit [s ! 0, s ! 1, s ! 2, s ! 3, s ! 5, s ! 6, s ! 8, s ! 9]"
    and "s ! 4 = CHR ''-''" and "s ! 7 = CHR ''-''"
    and "Year d = digitVal (s ! 0) * 1000 + digitVal (s ! 1) * 100 + digitVal (s ! 2) * 10
                    + digitVal (s ! 3)"
    and "Month d = digitVal (s ! 5) * 10 + digitVal (s ! 6)"
    and "Day d = digitVal (s ! 8) * 10 + digitVal (s ! 9)"
    and "1 \<le> Month d" and "Month d \<le> 12" and "1 \<le> Day d"
    and "Day d \<le> daysIn (Month d) (Year d)"
  using assms by (auto simp: time_Parse_def Let_def split: if_splits)

lemma time_Parse_valid:
  assumes "time_Parse s = Some d"
  shows "validDate d"
proof -
  note p = time_Parse_Some [OF assms]
  from p(2) have "digitVal (s ! 0) < 10" "digitVal (s ! 1) < 10" "digitVal (s ! 2) < 10"
    "digitVal (s ! 3) < 10"
    by (simp_all add: digitVal_less)
  then have "Year d < 10000"
    unfolding p(5) by (rule digits4(5))
  with p(8-11) show ?thesis
    by (simp add: validDate_def)
qed

lemma time_Format_Parse:
  assumes "time_Parse s = Some d"
  shows "time_Format d = s"
proof -
  note p = time_Parse_Some [OF assms]
  define a b c e m n u w where "a = s ! 0" and "b = s ! 1" and "c = s ! 2" and "e = s ! 3"
    and "m = s ! 5" and "n = s ! 6" and "u = s ! 8" and "w = s ! 9"
  note defs = this
  from p(2) have dg: "isDigit a" "isDigit b" "isDigit c" "isDigit e"
    "isDigit m" "isDigit n" "isDigit u" "isDigit w"
    unfolding defs by simp_all
  note lt = dg [THEN digitVal_less]
  have yd: "Year d = digitVal a * 1000 + digitVal b * 100 + digitVal c * 10 + digitVal e"
    and md: "Month d = digitVal m * 10 + digitVal n"
    and dd: "Day d = digitVal u * 10 + digitVal w"
    unfolding defs by (rule p(5) p(6) p(7))+
  have y: "zeroPad 4 (itoa (Year d)) = [a, b, c, e]"
    unfolding yd
    by (simp only: zeroPad4 [OF digits4(5) [OF lt(1-4)]] digits4(1-4) [OF lt(1-4)]
          digitChar_digitVal [OF dg(1)] digitChar_digitVal [OF dg(2)]
          digitChar_digitVal [OF dg(3)] digitChar_digitVal [OF dg(4)])
  have mo: "zeroPad 2 (itoa (Month d)) = [m, n]"
    unfolding md
    by (simp only: zeroPad2 [OF digits2(3) [OF lt(5,6)]] digits2(1,2) [OF lt(5,6)]
          digitChar_digitVal [OF dg(5)] digitChar_digitVal [OF dg(6)])
  have da: "zeroPad 2 (itoa (Day d)) = [u, w]"
    unfolding dd
    by (simp only: zeroPad2 [OF digits2(3) [OF lt(7,8)]] digits2(1,2) [OF lt(7,8)]
          digitChar_digitVal [OF dg(7)] digitChar_digitVal [OF dg(8)])
  have "time_Format d = [a, b, c, e, s ! 4, m, n, s ! 7, u, w]"
    by (simp add: time_Format_def y mo da p(3,4))
  also have "\<dots> = s"
    unfolding defs using list10 [OF p(1)] by simp
  finally show ?thesis .
qed

lemma daysIn_le:
  assumes "1 \<le> m" and "m \<le> 12"
  shows "daysIn m y \<le> 31"
proof -
  have "\<forall>k \<in> set [1..<13]. daysIn k y \<le> 31"
    by (simp add: upt_conv_Cons daysIn_def daysBefore_def)
  moreover from assms have "m \<in> set [1..<13]"
    by simp
  ultimately show ?thesis
    by blast
qed

lemma time_Parse_digits:
  assumes "a < 10" "b < 10" "c < 10" "e < 10" "p < 10" "q < 10" "u < 10" "w < 10"
    and "1 \<le> p * 10 + q" "p * 10 + q \<le> 12" "1 \<le> u * 10 + w"
    and "u * 10 + w \<le> daysIn (p * 10 + q) (a * 1000 + b * 100 + c * 10 + e)"
  shows "time_Parse [digitChar a, digitChar b, digitChar c, digitChar e, CHR ''-'',
       digitChar p, digitChar q, CHR ''-'', digitChar u, digitChar w]
     = Some \<lparr>Year = a * 1000 + b * 100 + c * 10 + e, Month = p * 10 + q, Day = u * 10 + w\<rparr>"
  using assms
  by (auto simp: time_Parse_def isDigit_digitChar digitVal_digitChar Let_def)

lemma time_Parse_Format:
  assumes "validDate d"
  shows "time_Parse (time_Format d) = Some d"
proof -
  from assms have y: "Year d < 10000"
    and v: "1 \<le> Month d" "Month d \<le> 12" "1 \<le> Day d" "Day d \<le> daysIn (Month d) (Year d)"
    by (simp_all add: validDate_def)
  from v(1,2) have m: "Month d < 100"
    by simp
  from v(4) daysIn_le [OF v(1,2), of "Year d"] have dd: "Day d < 100"
    by linarith
  define a b c e p q u w where "a = Year d div 1000" and "b = Year d div 100 mod 10"
    and "c = Year d div 10 mod 10" and "e = Year d mod 10" and "p = Month d div 10"
    and "q = Month d mod 10" and "u = Day d div 10" and "w = Day d mod 10"
  note defs = this
  have f: "time_Format d =
      [digitChar a, digitChar b, digitChar c, digitChar e, CHR ''-'',
       digitChar p, digitChar q, CHR ''-'', digitChar u, digitChar w]"
    unfolding defs
    by (simp add: time_Format_def zeroPad4 [OF y] zeroPad2 [OF m] zeroPad2 [OF dd])
  have lt: "a < 10" "b < 10" "c < 10" "e < 10" "p < 10" "q < 10" "u < 10" "w < 10"
    unfolding defs using y m dd by simp_all
  have ye: "a * 1000 + b * 100 + c * 10 + e = Year d"
    unfolding defs by (rule digits4_sum)
  have me: "p * 10 + q = Month d" and de: "u * 10 + w = Day d"
    unfolding defs by simp_all
  have "time_Parse (time_Format d)
      = Some \<lparr>Year = a * 1000 + b * 100 + c * 10 + e, Month = p * 10 + q, Day = u * 10 + w\<rparr>"
    unfolding f using lt
  proof (rule time_Parse_digits)
    show "1 \<le> p * 10 + q" "p * 10 + q \<le> 12" "1 \<le> u * 10 + w"
      "u * 10 + w \<le> daysIn (p * 10 + q) (a * 1000 + b * 100 + c * 10 + e)"
      unfolding ye me de by (rule v)+
  qed
  then show ?thesis
    unfolding ye me de by simp
qed

section \<open>The export (C8)\<close>

lemma decimalWithTwoDigits_shape:
  assumes "ds \<noteq> []" and "list_all isDigit ds" and "isDigit p" and "isDigit q"
  shows "decimalWithTwoDigits (ds @ ''.'' @ [p, q])"
    and "decimalWithTwoDigits (''-'' @ ds @ ''.'' @ [p, q])"
proof -
  from assms(1) obtain c cs where ds: "ds = c # cs"
    by (cases ds) auto
  with assms(2) have "isDigit c"
    by simp
  then have c: "c \<noteq> CHR ''-''"
    by (auto simp: isDigit_def)
  have u: "4 \<le> length (ds @ ''.'' @ [p, q])
      \<and> list_all isDigit (take (length (ds @ ''.'' @ [p, q]) - 3) (ds @ ''.'' @ [p, q]))
      \<and> (ds @ ''.'' @ [p, q]) ! (length (ds @ ''.'' @ [p, q]) - 3) = CHR ''.''
      \<and> isDigit ((ds @ ''.'' @ [p, q]) ! (length (ds @ ''.'' @ [p, q]) - 2))
      \<and> isDigit ((ds @ ''.'' @ [p, q]) ! (length (ds @ ''.'' @ [p, q]) - 1))"
    using assms by (simp add: ds nth_append)
  show "decimalWithTwoDigits (ds @ ''.'' @ [p, q])"
    using u c unfolding decimalWithTwoDigits_def Let_def by (simp add: ds)
  show "decimalWithTwoDigits (''-'' @ ds @ ''.'' @ [p, q])"
    using u unfolding decimalWithTwoDigits_def Let_def by simp
qed

lemma Sprintf_2f_two_digits: "decimalWithTwoDigits (Sprintf_2f x)"
proof -
  define n where "n = nat (roundHalfEven (\<bar>x\<bar> * 100))"
  have z: "zeroPad 2 (itoa (n mod 100))
             = [digitChar (n mod 100 div 10), digitChar (n mod 100 mod 10)]"
    by (simp add: zeroPad2)
  have d: "isDigit (digitChar (n mod 100 div 10))" "isDigit (digitChar (n mod 100 mod 10))"
    by (simp_all add: isDigit_digitChar)
  have i: "itoa (n div 100) \<noteq> []" "list_all isDigit (itoa (n div 100))"
    using itoa_digits [of "n div 100"] by simp_all
  show ?thesis
    using decimalWithTwoDigits_shape [OF i d]
    by (simp add: Sprintf_2f_def Let_def n_def [symmetric] z)
qed

lemma impl_FindAll_export:
  "repo_FindAll (voucherRepositoryImpl t) 1 100000 [] ''created_at'' ''asc'' db
     = (Inr (take 100000 (sort_key CreatedAt (active db)), int (length (active db))), db)"
  by (simp add: voucherRepositoryImpl_def impl_FindAll_def sqlOrderBy_def Let_def)

lemma ExportVouchers_impl:
  "ExportVouchers (voucherRepositoryImpl t) db
     = (Inr (concat (map csv_Write
               (exportRecords (take 100000 (sort_key CreatedAt (active db)))))), db)"
  by (simp add: ExportVouchers_def impl_FindAll_export)

lemma sorted_take_sort_key: "sorted (map f (take n (sort_key f xs)))"
  by (simp add: take_map [symmetric] sorted_wrt_take)

text \<open>
  What the export does for every table, on the repository of the source:
  \<open>ExportVouchers\<close> leaves the table as it is and returns the document that \<open>csv.Writer\<close>
  writes for the header followed by one record per voucher of \<open>vs\<close>, where \<open>vs\<close> is the
  first 100000 active vouchers in ascending order of \<open>CreatedAt\<close>: all active vouchers when
  there are at most 100000 of them. Each record is the code, the discount as
  \<open>Sprintf_2f\<close> renders it, a decimal with exactly two digits after the point, and the
  date as \<open>time_Format\<close> renders it, which \<open>time_Parse\<close> reads back as the same date.
  Vouchers created at the same instant come in the order of their insertion, which is a
  choice of the model.
\<close>

theorem ExportVouchers_document:
  "\<exists>vs. ExportVouchers (voucherRepositoryImpl t) db
           = (Inr (concat (map csv_Write (exportRecords vs))), db)
     \<and> exportRecords vs
         = [''voucher_code'', ''discount_percent'', ''expiry_date''] # map exportRecord vs
     \<and> vs = take 100000 (sort_key CreatedAt (active db))
     \<and> sorted (map CreatedAt vs)
     \<and> length vs = min 100000 (length (active db))
     \<and> (length (active db) \<le> 100000 \<longrightarrow> mset vs = mset (active db))
     \<and> (\<forall>v \<in> set vs.
           v \<in> set (active db)
           \<and> exportRecord v
               = [VoucherCode v, Sprintf_2f (DiscountPercent v), time_Format (ExpiryDate v)]
           \<and> decimalWithTwoDigits (Sprintf_2f (DiscountPercent v))
           \<and> (validDate (ExpiryDate v)
                \<longrightarrow> time_Parse (time_Format (ExpiryDate v)) = Some (ExpiryDate v)))"
proof -
  define vs where "vs = take 100000 (sort_key CreatedAt (active db))"
  have 1: "ExportVouchers (voucherRepositoryImpl t) db
           = (Inr (concat (map csv_Write (exportRecords vs))), db)"
    by (simp add: ExportVouchers_impl vs_def)
  have 2: "exportRecords vs
         = [''voucher_code'', ''discount_percent'', ''expiry_date''] # map exportRecord vs"
    by (simp add: exportRecords_def)
  have 4: "sorted (map CreatedAt vs)"
    unfolding vs_def by (rule sorted_take_sort_key)
  have 5: "length vs = min 100000 (length (active db))"
    by (simp add: vs_def min.commute)
  have 6: "length (active db) \<le> 100000 \<longrightarrow> mset vs = mset (active db)"
    by (simp add: vs_def)
  have 7: "\<forall>v \<in> set vs.
           v \<in> set (active db)
           \<and> exportRecord v
               = [VoucherCode v, Sprintf_2f (DiscountPercent v), time_Format (ExpiryDate v)]
           \<and> decimalWithTwoDigits (Sprintf_2f (DiscountPercent v))
           \<and> (validDate (ExpiryDate v)
                \<longrightarrow> time_Parse (time_Format (ExpiryDate v)) = Some (ExpiryDate v))"
  proof
    fix v assume "v \<in> set vs"
    then have "v \<in> set (sort_key CreatedAt (active db))"
      unfolding vs_def by (rule in_set_takeD)
    then have "v \<in> set (active db)"
      by simp
    then show "v \<in> set (active db)
           \<and> exportRecord v
               = [VoucherCode v, Sprintf_2f (DiscountPercent v), time_Format (ExpiryDate v)]
           \<and> decimalWithTwoDigits (Sprintf_2f (DiscountPercent v))
           \<and> (validDate (ExpiryDate v)
                \<longrightarrow> time_Parse (time_Format (ExpiryDate v)) = Some (ExpiryDate v))"
      by (simp add: exportRecord_def Sprintf_2f_two_digits time_Parse_Format)
  qed
  from 1 2 4 5 6 7 vs_def show ?thesis
    by blast
qed

subsection \<open>A table of more than 100000 vouchers\<close>

lemma atoi_itoa: "atoi (itoa n) = n"
proof (induction n rule: itoa.induct)
  case (1 n)
  show ?case
  proof (cases "n < 10")
    case True
    then show ?thesis
      by (simp add: itoa.simps [of n] atoi_def digitVal_digitChar)
  next
    case False
    with 1 have "atoi (itoa (n div 10)) = n div 10"
      by simp
    with False show ?thesis
      by (simp add: itoa.simps [of n] atoi_def digitVal_digitChar)
  qed
qed

lemma itoa_inj: "itoa m = itoa n \<Longrightarrow> m = n"
  by (metis atoi_itoa)

lemma active_numberedTable: "active (numberedTable n) = map numbered [0..<n]"
  by (simp add: active_def numberedTable_def filter_map comp_def numbered_def)

lemma sort_numbered: "sort_key CreatedAt (map numbered [0..<n]) = map numbered [0..<n]"
proof (rule sort_key_id_if_sorted)
  have e: "map CreatedAt (map numbered xs) = map int xs" for xs
    by (simp add: numbered_def)
  have "sorted (map int [0..<n])"
    by (simp add: sorted_map sorted_wrt_iff_nth_less)
  then show "sorted (map CreatedAt (map numbered [0..<n]))"
    unfolding e .
qed

lemma take_upt_min: "take m [0..<n] = [0..<min m n]"
proof (cases "m \<le> n")
  case True
  then show ?thesis
    by (simp add: min_def)
next
  case False
  then show ?thesis
    by (simp add: min_def)
qed

lemma export_numberedTable:
  "ExportVouchers (voucherRepositoryImpl t) (numberedTable n)
     = (Inr (concat (map csv_Write (exportRecords (map numbered [0..<min 100000 n])))),
        numberedTable n)"
proof -
  have "take 100000 (map numbered [0..<n]) = map numbered (take 100000 [0..<n])"
    by (rule take_map)
  also have "\<dots> = map numbered [0..<min 100000 n]"
    by (simp only: take_upt_min)
  finally show ?thesis
    by (simp only: ExportVouchers_impl active_numberedTable sort_numbered)
qed

lemma wellFormed_numberedTable: "wellFormed (numberedTable n)"
proof -
  have "inj_on (\<lambda>k. ID (numbered k)) (set [0..<n])"
    by (simp add: numbered_def inj_on_def)
  then have 1: "distinct (map ID (map numbered [0..<n]))"
    by (simp add: distinct_map comp_def)
  have "inj_on (\<lambda>k. VoucherCode (numbered k)) (set [0..<n])"
    by (auto simp: numbered_def inj_on_def dest: itoa_inj)
  then have 2: "distinct (map VoucherCode (map numbered [0..<n]))"
    by (simp add: distinct_map comp_def)
  have 3: "list_all (\<lambda>v. 0 < ID v \<and> ID v < n + 1 \<and> 1 \<le> DiscountPercent v
                      \<and> DiscountPercent v \<le> 100) (map numbered [0..<n])"
    by (simp add: list_all_iff numbered_def)
  from 1 2 3 show ?thesis
    by (simp add: wellFormed_def numberedTable_def)
qed

lemma numbered_not_exported:
  assumes "n \<le> m"
  shows "exportRecord (numbered m) \<notin> set (exportRecords (map numbered [0..<n]))"
proof
  assume "exportRecord (numbered m) \<in> set (exportRecords (map numbered [0..<n]))"
  then have "hd (exportRecord (numbered m)) = ''voucher_code''
      \<or> (\<exists>k < n. hd (exportRecord (numbered m)) = hd (exportRecord (numbered k)))"
    by (auto simp: exportRecords_def)
  then have "\<exists>k < n. itoa m = itoa k"
    by (auto simp: exportRecord_def numbered_def)
  then obtain k where "k < n" "m = k"
    using itoa_inj by blast
  with assms show False
    by simp
qed

text \<open>
  C8 fails on the code. \<open>ExportVouchers\<close>, which its comment says exports all vouchers,
  asks \<open>FindAll\<close> for page 1 with the limit 100000. From a well-formed table of 100001
  active vouchers the document has the header and 100000 records: the voucher created
  last is active and has no row.
\<close>

theorem ExportVouchers_stops_at_100000_vouchers:
  "ExportVouchers (voucherRepositoryImpl 1700000000) (numberedTable 100001)
     = (Inr (concat (map csv_Write (exportRecords (map numbered [0..<100000])))),
        numberedTable 100001)
   \<and> length (exportRecords (map numbered [0..<100000])) = 100001
   \<and> length (active (numberedTable 100001)) = 100001
   \<and> wellFormed (numberedTable 100001)
   \<and> numbered 100000 \<in> set (active (numberedTable 100001))
   \<and> exportRecord (numbered 100000) \<notin> set (exportRecords (map numbered [0..<100000]))"
proof -
  have m: "min 100000 100001 = (100000::nat)"
    by simp
  have 1: "ExportVouchers (voucherRepositoryImpl 1700000000) (numberedTable 100001)
     = (Inr (concat (map csv_Write (exportRecords (map numbered [0..<100000])))),
        numberedTable 100001)"
    using export_numberedTable [of 1700000000 100001] unfolding m .
  have 2: "length (exportRecords (map numbered [0..<n])) = n + 1" for n
    by (simp add: exportRecords_def)
  have 3: "length (active (numberedTable n)) = n" for n
    by (simp add: active_numberedTable)
  have 4: "numbered k \<in> set (active (numberedTable n))" if "k < n" for k n
    using that by (simp add: active_numberedTable)
  have 5: "exportRecord (numbered 100000) \<notin> set (exportRecords (map numbered [0..<100000]))"
    by (rule numbered_not_exported) simp
  from 1 2 [of 100000] 3 [of 100001] wellFormed_numberedTable [of 100001]
    4 [of 100000 100001] 5
  show ?thesis
    by simp
qed

subsection \<open>A table of two vouchers\<close>

lemma Sprintf_2f_examples: "Sprintf_2f 10 = ''10.00''" "Sprintf_2f 20 = ''20.00''"
  by (simp_all add: Sprintf_2f_def roundHalfEven_def itoa.simps digitChar_def zeroPad_def)

lemma time_Format_examples:
  "time_Format \<lparr>Year = 2030, Month = 6, Day = 30\<rparr> = ''2030-06-30''"
  "time_Format \<lparr>Year = 2031, Month = 3, Day = 15\<rparr> = ''2031-03-15''"
  by (simp_all add: time_Format_def itoa.simps digitChar_def zeroPad_def)

lemma csv_Write_plain:
  "csv_Write [''voucher_code'', ''discount_percent'', ''expiry_date'']
     = ''voucher_code,discount_percent,expiry_date'' @ [CHR 0x0A]"
  "csv_Write [''OLD123'', ''10.00'', ''2030-06-30''] = ''OLD123,10.00,2030-06-30'' @ [CHR 0x0A]"
  "csv_Write [''SAVE20'', ''20.00'', ''2031-03-15''] = ''SAVE20,20.00,2031-03-15'' @ [CHR 0x0A]"
  by (simp_all add: csv_Write_def csvField_def fieldNeedsQuotes_def leadingRune_def
        spaceRunes_def)

text \<open>The export of the table with the active vouchers \<open>OLD123\<close> and \<open>SAVE20\<close> and one
  deleted voucher.\<close>

theorem ExportVouchers_document_witness:
  "ExportVouchers (voucherRepositoryImpl 1700000000) storage3
     = (Inr (''voucher_code,discount_percent,expiry_date'' @ [CHR 0x0A]
             @ ''OLD123,10.00,2030-06-30'' @ [CHR 0x0A]
             @ ''SAVE20,20.00,2031-03-15'' @ [CHR 0x0A]), storage3)"
proof -
  from ExportVouchers_document [of 1700000000 storage3] obtain vs where
    e: "ExportVouchers (voucherRepositoryImpl 1700000000) storage3
           = (Inr (concat (map csv_Write (exportRecords vs))), storage3)"
    and v: "vs = take 100000 (sort_key CreatedAt (active storage3))"
    by blast
  have "vs = [old123, save20]"
    unfolding v by (simp add: storage_examples old123_def save20_def)
  then have "exportRecords vs
      = [[''voucher_code'', ''discount_percent'', ''expiry_date''],
         [''OLD123'', ''10.00'', ''2030-06-30''], [''SAVE20'', ''20.00'', ''2031-03-15'']]"
    by (simp add: exportRecords_def exportRecord_def old123_def save20_def Sprintf_2f_examples
          time_Format_examples)
  with e show ?thesis
    by (simp add: csv_Write_plain)
qed

section \<open>Import, then export (C9)\<close>

lemma impl_FindByVoucherCode_state:
  "snd (repo_FindByVoucherCode (voucherRepositoryImpl t) c db) = db"
  by (simp add: voucherRepositoryImpl_def impl_FindByVoucherCode_def split: option.splits)

lemma parseCSVRow_impl_state:
  "snd (parseCSVRow (voucherRepositoryImpl t) pf now row n db) = db"
proof -
  obtain r where "repo_FindByVoucherCode (voucherRepositoryImpl t) (TrimSpace (row ! 0)) db
                    = (r, db)"
    using impl_FindByVoucherCode_state [of t "TrimSpace (row ! 0)" db]
    by (cases "repo_FindByVoucherCode (voucherRepositoryImpl t) (TrimSpace (row ! 0)) db") simp
  then show ?thesis
    by (cases r) (simp add: parseCSVRow_def Let_def split: option.splits)
qed

lemma parseCSVRow_rowNum:
  "parseCSVRow repo pf now row n s = parseCSVRow repo pf now row m s"
  by (simp add: parseCSVRow_def)

lemma parseCSVRow_Inr:
  assumes "fst (parseCSVRow repo pf now row n s) = Inr v"
  shows "VoucherCode v = TrimSpace (row ! 0)
     \<and> pf (TrimSpace (row ! 1)) = Some (DiscountPercent v)
     \<and> time_Parse (TrimSpace (row ! 2)) = Some (ExpiryDate v)
     \<and> DeletedAt v = None"
  using assms
  by (auto simp: parseCSVRow_def Let_def newVoucher_def
        split: if_splits prod.splits option.splits)

text \<open>On the repository of the source the loop of the import leaves the table as it is,
  and gathers the vouchers of the rows that pass \<open>parseCSVRow\<close>, in order.\<close>

lemma importRows_impl_state:
  "snd (importRows (voucherRepositoryImpl t) pf now rs i acc db) = db"
proof (induction rs arbitrary: i acc)
  case Nil
  show ?case by simp
next
  case (Cons a rs)
  obtain r vs where acc: "acc = (r, vs)"
    by (cases acc)
  obtain res where p: "parseCSVRow (voucherRepositoryImpl t) pf now a (i + 2) db = (res, db)"
    using parseCSVRow_impl_state [of t pf now a "i + 2" db]
    by (cases "parseCSVRow (voucherRepositoryImpl t) pf now a (i + 2) db") simp
  from p have p': "parseCSVRow (voucherRepositoryImpl t) pf now a (Suc (Suc i)) db = (res, db)"
    by simp
  show ?case
    by (cases res) (simp_all add: acc p' Cons.IH)
qed

lemma importRows_impl_vouchers:
  "snd (fst (importRows (voucherRepositoryImpl t) pf now rs i (r, vs) db))
     = vs @ map (\<lambda>row. projr (fst (parseCSVRow (voucherRepositoryImpl t) pf now row 0 db)))
              (filter (\<lambda>row. \<not> isl (fst (parseCSVRow (voucherRepositoryImpl t) pf now
                                                 row 0 db))) rs)"
proof (induction rs arbitrary: i r vs)
  case Nil
  show ?case by simp
next
  case (Cons a rs)
  obtain res where p: "parseCSVRow (voucherRepositoryImpl t) pf now a (i + 2) db = (res, db)"
    using parseCSVRow_impl_state [of t pf now a "i + 2" db]
    by (cases "parseCSVRow (voucherRepositoryImpl t) pf now a (i + 2) db") simp
  then have q: "parseCSVRow (voucherRepositoryImpl t) pf now a 0 db = (res, db)"
    using parseCSVRow_rowNum [of "voucherRepositoryImpl t" pf now a 0 db "i + 2"] by simp
  from p have p': "parseCSVRow (voucherRepositoryImpl t) pf now a (Suc (Suc i)) db = (res, db)"
    by simp
  show ?case
    by (cases res) (simp_all add: p' q Cons.IH)
qed

lemma insertRow_fields:
  assumes "insertRow t db v = Inr (v', db')"
  shows "VoucherCode v' = VoucherCode v \<and> DiscountPercent v' = DiscountPercent v
     \<and> ExpiryDate v' = ExpiryDate v \<and> DeletedAt v' = DeletedAt v
     \<and> rows db' = rows db @ [v']"
  using assms
  by (auto simp: insertRow_def constraintError_def Let_def split: option.splits if_splits)

lemma insertRows_grow: "insertRows t vs db = Inr db' \<Longrightarrow> set (rows db) \<subseteq> set (rows db')"
proof (induction vs arbitrary: db)
  case Nil
  then show ?case by simp
next
  case (Cons v vs)
  from Cons.prems obtain v' db1 where
    i: "insertRow t db v = Inr (v', db1)" and r: "insertRows t vs db1 = Inr db'"
    by (auto split: sum.splits)
  from insertRow_fields [OF i] Cons.IH [OF r] show ?case
    by auto
qed

lemma insertRows_member:
  "insertRows t vs db = Inr db' \<Longrightarrow> v \<in> set vs \<Longrightarrow>
     \<exists>v' \<in> set (rows db'). VoucherCode v' = VoucherCode v
        \<and> DiscountPercent v' = DiscountPercent v \<and> ExpiryDate v' = ExpiryDate v
        \<and> DeletedAt v' = DeletedAt v"
proof (induction vs arbitrary: db)
  case Nil
  then show ?case by simp
next
  case (Cons a vs)
  from Cons.prems(1) obtain a' db1 where
    i: "insertRow t db a = Inr (a', db1)" and r: "insertRows t vs db1 = Inr db'"
    by (auto split: sum.splits)
  show ?case
  proof (cases "v = a")
    case True
    from insertRow_fields [OF i] have "a' \<in> set (rows db1)"
      by simp
    with insertRows_grow [OF r] have "a' \<in> set (rows db')"
      by blast
    with insertRow_fields [OF i] True show ?thesis
      by blast
  next
    case False
    with Cons.prems(2) have "v \<in> set vs"
      by simp
    from Cons.IH [OF r this] show ?thesis .
  qed
qed

text \<open>
  The round trip within the limit of the export: on the repository of the source, when
  \<open>ImportVouchers\<close> returns a report, a row of the file after the header that \<open>parseCSVRow\<close> accepts has a
  discount that \<open>ParseFloat\<close> reads as some \<open>x\<close> and a date that \<open>time_Parse\<close> reads; and if
  the table then holds at most 100000 active vouchers, the records that \<open>ExportVouchers\<close>
  writes from that table contain the trimmed code, \<open>x\<close> with two decimal digits, and the
  trimmed date, which is its own canonical form.
\<close>

theorem import_then_export_round_trip:
  assumes "ImportVouchers (voucherRepositoryImpl t) pf now (Inr table) db = (Inr report, db')"
    and "row \<in> set (tl table)"
    and "fst (parseCSVRow (voucherRepositoryImpl t) pf now row n db) = Inr v"
    and "length (active db') \<le> 100000"
  shows "\<exists>x d vs. pf (TrimSpace (row ! 1)) = Some x
     \<and> time_Parse (TrimSpace (row ! 2)) = Some d
     \<and> ExportVouchers (voucherRepositoryImpl t') db'
         = (Inr (concat (map csv_Write (exportRecords vs))), db')
     \<and> [TrimSpace (row ! 0), Sprintf_2f x, TrimSpace (row ! 2)] \<in> set (exportRecords vs)"
proof -
  define accepted where
    "accepted = (\<lambda>row. \<not> isl (fst (parseCSVRow (voucherRepositoryImpl t) pf now row 0 db)))"
  define vouchers where
    "vouchers = map (\<lambda>row. projr (fst (parseCSVRow (voucherRepositoryImpl t) pf now
                                               row 0 db))) (filter accepted (tl table))"
  have p0: "fst (parseCSVRow (voucherRepositoryImpl t) pf now row 0 db) = Inr v"
    using assms(3) parseCSVRow_rowNum [of "voucherRepositoryImpl t" pf now row 0 db n]
    by simp
  with assms(2) have mem: "v \<in> set vouchers"
    by (force simp: vouchers_def accepted_def)
  define l where
    "l = importRows (voucherRepositoryImpl t) pf now (tl table) 0
           (newImportResult (length table - 1), []) db"
  have l2: "snd l = db"
    unfolding l_def by (rule importRows_impl_state)
  have l1: "snd (fst l) = vouchers"
    unfolding l_def vouchers_def accepted_def
    using importRows_impl_vouchers [of t pf now "tl table" 0
            "newImportResult (length table - 1)" "[]" db]
    by simp
  from mem have ne: "vouchers \<noteq> []"
    by auto
  from assms(1) have
    "(case repo_BulkCreate (voucherRepositoryImpl t) vouchers db of
        (Some err, s2) \<Rightarrow> (Inl (InsertFailed err), s2)
      | (None, s2) \<Rightarrow> (Inr ((fst (fst l))\<lparr>Success := length vouchers\<rparr>), s2))
     = (Inr report, db')"
    unfolding ImportVouchers_unfold l_def [symmetric] Let_def l1 l2
    using ne by (simp split: if_splits)
  then have "fst (repo_BulkCreate (voucherRepositoryImpl t) vouchers db) = None"
    and "snd (repo_BulkCreate (voucherRepositoryImpl t) vouchers db) = db'"
    by (auto split: prod.splits option.splits)
  then have ins: "insertRows t vouchers db = Inr db'"
    using ne
    by (auto simp: voucherRepositoryImpl_def impl_BulkCreate_def split: sum.splits)
  from insertRows_member [OF ins mem] obtain v' where
    v': "v' \<in> set (rows db')" "VoucherCode v' = VoucherCode v"
      "DiscountPercent v' = DiscountPercent v" "ExpiryDate v' = ExpiryDate v"
      "DeletedAt v' = DeletedAt v"
    by blast
  note f = parseCSVRow_Inr [OF p0]
  from v'(1,5) f have act: "v' \<in> set (active db')"
    by (simp add: active_def)
  define vs where "vs = take 100000 (sort_key CreatedAt (active db'))"
  from assms(4) have "vs = sort_key CreatedAt (active db')"
    by (simp add: vs_def)
  with act have "v' \<in> set vs"
    by simp
  then have "exportRecord v' \<in> set (exportRecords vs)"
    by (simp add: exportRecords_def)
  moreover have "exportRecord v'
      = [TrimSpace (row ! 0), Sprintf_2f (DiscountPercent v), TrimSpace (row ! 2)]"
    using f v'(2-4) time_Format_Parse [of "TrimSpace (row ! 2)" "ExpiryDate v"]
    by (simp add: exportRecord_def)
  moreover have "ExportVouchers (voucherRepositoryImpl t') db'
         = (Inr (concat (map csv_Write (exportRecords vs))), db')"
    by (simp add: ExportVouchers_impl vs_def)
  ultimately show ?thesis
    using f by auto
qed

subsection \<open>Examples of the round trip\<close>

lemma import_one_row:
  assumes "pf ''10.00'' = Some 10" and "wellFormed db"
    and "''DISC10'' \<notin> set (map VoucherCode (rows db))" and "utcDay now \<le> 47117"
  shows "parseCSVRow (voucherRepositoryImpl t) pf now [''DISC10'', ''10.00'', ''2099-01-01''] n db
           = (Inr (newVoucher ''DISC10'' 10 newYear2099), db)"
    and "ImportVouchers (voucherRepositoryImpl t) pf now
           (Inr [header, [''DISC10'', ''10.00'', ''2099-01-01'']]) db
         = (Inr \<lparr>TotalRows = 1, Success = 1, Failed = 0, Errors = []\<rparr>,
            \<lparr>rows = rows db @ [stored (nextID db) t (newVoucher ''DISC10'' 10 newYear2099)],
             nextID = nextID db + 1\<rparr>)"
proof -
  have d: "''DISC10'' \<notin> activeCodes db"
    using assms(3) activeCodes_subset by blast
  have f: "repo_FindByVoucherCode (voucherRepositoryImpl t) ''DISC10'' db = ((None, None), db)"
    using d by (simp add: impl_FindByVoucherCode_absent)
  have b: "\<not> Before (utcMidnight newYear2099) (Truncate24h now)"
    unfolding Before_utcMidnight unixDays_newYear2099 using assms(4) by simp
  show r: "parseCSVRow (voucherRepositoryImpl t) pf now
              [''DISC10'', ''10.00'', ''2099-01-01''] n db
            = (Inr (newVoucher ''DISC10'' 10 newYear2099), db)" for n
    using b
    by (simp add: parseCSVRow_def TrimSpace_examples f assms(1) otherThanNotFound_def
          time_Parse_newYear2099)
  have ins: "repo_BulkCreate (voucherRepositoryImpl t)
               [newVoucher ''DISC10'' 10 newYear2099] db
             = (None, \<lparr>rows = rows db
                          @ [stored (nextID db) t (newVoucher ''DISC10'' 10 newYear2099)],
                       nextID = nextID db + 1\<rparr>)"
    using assms(3) wellFormed_nextID [OF assms(2)]
    by (simp add: voucherRepositoryImpl_def impl_BulkCreate_def insertRow_def
          constraintError_def newVoucher_def stored_def Let_def)
  show "ImportVouchers (voucherRepositoryImpl t) pf now
           (Inr [header, [''DISC10'', ''10.00'', ''2099-01-01'']]) db
         = (Inr \<lparr>TotalRows = 1, Success = 1, Failed = 0, Errors = []\<rparr>,
            \<lparr>rows = rows db @ [stored (nextID db) t (newVoucher ''DISC10'' 10 newYear2099)],
             nextID = nextID db + 1\<rparr>)"
    by (simp add: ImportVouchers_def r ins newImportResult_def)
qed

lemma numbered_codes: "''DISC10'' \<notin> set (map VoucherCode (rows (numberedTable n)))"
  by (auto simp: numberedTable_def numbered_def)

lemma sorted_numbered_snoc:
  assumes "int n \<le> CreatedAt v"
  shows "sort_key CreatedAt (map numbered [0..<n] @ [v]) = map numbered [0..<n] @ [v]"
proof (rule sort_key_id_if_sorted)
  have e: "map CreatedAt (map numbered xs) = map int xs" for xs
    by (simp add: numbered_def)
  have "sorted (map int [0..<n])"
    by (simp add: sorted_map sorted_wrt_iff_nth_less)
  moreover have "\<forall>x \<in> set (map int [0..<n]). x \<le> CreatedAt v"
    using assms by auto
  ultimately have "sorted (map int [0..<n] @ [CreatedAt v])"
    by (simp add: sorted_append)
  then show "sorted (map CreatedAt (map numbered [0..<n] @ [v]))"
    unfolding map_append e list.map .
qed

lemma export_full_table:
  assumes "int n \<le> CreatedAt v" and "DeletedAt v = None" and "100000 \<le> n"
  shows "ExportVouchers (voucherRepositoryImpl t)
           \<lparr>rows = rows (numberedTable n) @ [v], nextID = m\<rparr>
         = (Inr (concat (map csv_Write (exportRecords (map numbered [0..<100000])))),
            \<lparr>rows = rows (numberedTable n) @ [v], nextID = m\<rparr>)"
proof -
  have a: "active \<lparr>rows = rows (numberedTable n) @ [v], nextID = m\<rparr>
             = map numbered [0..<n] @ [v]"
    using assms(2) active_numberedTable [of n]
    by (simp add: active_def)
  have "take 100000 (map numbered [0..<n] @ [v]) = take 100000 (map numbered [0..<n])"
    using assms(3) by simp
  also have "\<dots> = map numbered (take 100000 [0..<n])"
    by (rule take_map)
  also have "\<dots> = map numbered [0..<min 100000 n]"
    by (simp only: take_upt_min)
  also have "min 100000 n = 100000"
    using assms(3) by simp
  finally show ?thesis
    by (simp only: ExportVouchers_impl a sorted_numbered_snoc [OF assms(1)])
qed

lemma not_exported:
  "[''DISC10'', x, y] \<notin> set (exportRecords (map numbered [0..<n]))"
  by (auto simp: exportRecords_def exportRecord_def numbered_def)

text \<open>
  C9 fails on the code, through the limit of 100000 in \<open>ExportVouchers\<close>, which its comment
  says exports all vouchers. On a table that already holds 100000 active vouchers created
  earlier, the import of the row \<open>DISC10,10.00,2099-01-01\<close> succeeds and stores the voucher,
  and the export that follows writes the 100000 older vouchers only: no record of it is
  the normalised row.
\<close>

theorem round_trip_fails_on_full_table:
  "ImportVouchers (voucherRepositoryImpl 1700000000) decimalLiterals clockEast
     (Inr [[''voucher_code'', ''discount_percent'', ''expiry_date''],
           [''DISC10'', ''10.00'', ''2099-01-01'']]) (numberedTable 100000)
     = (Inr \<lparr>TotalRows = 1, Success = 1, Failed = 0, Errors = []\<rparr>,
        \<lparr>rows = rows (numberedTable 100000)
                  @ [stored 100001 1700000000 (newVoucher ''DISC10'' 10 newYear2099)],
         nextID = 100002\<rparr>)
   \<and> ExportVouchers (voucherRepositoryImpl 1700000060)
        \<lparr>rows = rows (numberedTable 100000)
                  @ [stored 100001 1700000000 (newVoucher ''DISC10'' 10 newYear2099)],
         nextID = 100002\<rparr>
     = (Inr (concat (map csv_Write (exportRecords (map numbered [0..<100000])))),
        \<lparr>rows = rows (numberedTable 100000)
                  @ [stored 100001 1700000000 (newVoucher ''DISC10'' 10 newYear2099)],
         nextID = 100002\<rparr>)
   \<and> [TrimSpace ''DISC10'', Sprintf_2f 10, TrimSpace ''2099-01-01'']
       = [''DISC10'', ''10.00'', ''2099-01-01'']
   \<and> [''DISC10'', ''10.00'', ''2099-01-01'']
       \<notin> set (exportRecords (map numbered [0..<100000]))"
proof -
  have p: "decimalLiterals ''10.00'' = Some 10"
    by (simp add: decimalLiterals_def)
  have u: "utcDay clockEast \<le> 47117"
    by (simp add: utcDay_def clockEast_def)
  have n: "nextID (numberedTable 100000) = 100001"
    by (simp add: numberedTable_def)
  have 1: "ImportVouchers (voucherRepositoryImpl 1700000000) decimalLiterals clockEast
     (Inr [[''voucher_code'', ''discount_percent'', ''expiry_date''],
           [''DISC10'', ''10.00'', ''2099-01-01'']]) (numberedTable 100000)
     = (Inr \<lparr>TotalRows = 1, Success = 1, Failed = 0, Errors = []\<rparr>,
        \<lparr>rows = rows (numberedTable 100000)
                  @ [stored 100001 1700000000 (newVoucher ''DISC10'' 10 newYear2099)],
         nextID = 100002\<rparr>)"
    using import_one_row(2) [where pf = decimalLiterals and db = "numberedTable 100000"
        and now = clockEast and t = 1700000000
        and header = "[''voucher_code'', ''discount_percent'', ''expiry_date'']",
        OF p wellFormed_numberedTable numbered_codes u]
    unfolding n by simp
  have 2: "ExportVouchers (voucherRepositoryImpl 1700000060)
        \<lparr>rows = rows (numberedTable 100000)
                  @ [stored 100001 1700000000 (newVoucher ''DISC10'' 10 newYear2099)],
         nextID = 100002\<rparr>
     = (Inr (concat (map csv_Write (exportRecords (map numbered [0..<100000])))),
        \<lparr>rows = rows (numberedTable 100000)
                  @ [stored 100001 1700000000 (newVoucher ''DISC10'' 10 newYear2099)],
         nextID = 100002\<rparr>)"
    by (rule export_full_table) (simp_all add: stored_def newVoucher_def)
  have 3: "[TrimSpace ''DISC10'', Sprintf_2f 10, TrimSpace ''2099-01-01'']
       = [''DISC10'', ''10.00'', ''2099-01-01'']"
    by (simp add: TrimSpace_examples Sprintf_2f_examples)
  from 1 2 3 not_exported [of "''10.00''" "''2099-01-01''" 100000] show ?thesis
    by (simp only: simp_thms)
qed

text \<open>The row \<open>DISC10,10.00,2099-01-01\<close> imported into the table of \<open>OLD123\<close> and \<open>SAVE20\<close>, and
  exported a minute later.\<close>

theorem import_then_export_round_trip_witness:
  "\<exists>vs. ExportVouchers (voucherRepositoryImpl 1700000060)
           \<lparr>rows = rows storage3
                     @ [stored 6 1700000000 (newVoucher ''DISC10'' 10 newYear2099)],
            nextID = 7\<rparr>
         = (Inr (concat (map csv_Write (exportRecords vs))),
            \<lparr>rows = rows storage3
                     @ [stored 6 1700000000 (newVoucher ''DISC10'' 10 newYear2099)],
             nextID = 7\<rparr>)
     \<and> [''DISC10'', ''10.00'', ''2099-01-01''] \<in> set (exportRecords vs)"
proof -
  define hdr where "hdr = [''voucher_code'', ''discount_percent'', ''expiry_date'']"
  define db' where
    "db' = \<lparr>rows = rows storage3
                     @ [stored 6 1700000000 (newVoucher ''DISC10'' 10 newYear2099)],
            nextID = 7\<rparr>"
  have p: "decimalLiterals ''10.00'' = Some 10"
    by (simp add: decimalLiterals_def)
  have u: "utcDay clockEast \<le> 47117"
    by (simp add: utcDay_def clockEast_def)
  have d: "''DISC10'' \<notin> set (map VoucherCode (rows storage3))"
    by (simp add: storage3_def old123_def gone_def save20_def)
  have n: "nextID storage3 = 6"
    by (simp add: storage3_def)
  have 1: "ImportVouchers (voucherRepositoryImpl 1700000000) decimalLiterals clockEast
             (Inr [hdr, [''DISC10'', ''10.00'', ''2099-01-01'']]) storage3
           = (Inr \<lparr>TotalRows = 1, Success = 1, Failed = 0, Errors = []\<rparr>, db')"
    using import_one_row(2) [where pf = decimalLiterals and db = storage3 and now = clockEast
        and t = 1700000000 and header = hdr, OF p storage_examples(2) d u]
    unfolding n db'_def by simp
  have 2: "[''DISC10'', ''10.00'', ''2099-01-01'']
             \<in> set (tl [hdr, [''DISC10'', ''10.00'', ''2099-01-01'']])"
    by simp
  have 3: "fst (parseCSVRow (voucherRepositoryImpl 1700000000) decimalLiterals clockEast
                  [''DISC10'', ''10.00'', ''2099-01-01''] 2 storage3)
           = Inr (newVoucher ''DISC10'' 10 newYear2099)"
    using import_one_row(1) [where pf = decimalLiterals and db = storage3 and now = clockEast
        and t = 1700000000 and n = 2, OF p storage_examples(2) d u] by simp
  have 4: "length (active db') \<le> 100000"
    by (simp add: db'_def active_def storage3_def)
  from import_then_export_round_trip [OF 1 2 3 4, of 1700000060] obtain x vs where
    "decimalLiterals (TrimSpace ([''DISC10'', ''10.00'', ''2099-01-01''] ! 1)) = Some x"
    "ExportVouchers (voucherRepositoryImpl 1700000060) db'
       = (Inr (concat (map csv_Write (exportRecords vs))), db')"
    "[TrimSpace ([''DISC10'', ''10.00'', ''2099-01-01''] ! 0), Sprintf_2f x,
      TrimSpace ([''DISC10'', ''10.00'', ''2099-01-01''] ! 2)] \<in> set (exportRecords vs)"
    by blast
  then have "ExportVouchers (voucherRepositoryImpl 1700000060) db'
       = (Inr (concat (map csv_Write (exportRecords vs))), db')
     \<and> [''DISC10'', ''10.00'', ''2099-01-01''] \<in> set (exportRecords vs)"
    by (simp add: TrimSpace_examples p Sprintf_2f_examples)
  then show ?thesis
    unfolding db'_def by blast
qed

section \<open>The report of the batch import (C2)\<close>

lemma validateAndConvert_Inr:
  assumes "validateAndConvert now q = Inr v"
  shows "ID v = 0 \<and> VoucherCode v = req_VoucherCode q
     \<and> 1 \<le> DiscountPercent v \<and> DiscountPercent v \<le> 100"
  using assms
  by (auto simp: validateAndConvert_def newVoucher_def Let_def split: if_splits option.splits)

lemma insertRows_succeeds:
  assumes "\<forall>r \<in> set (rows db). ID r < nextID db"
    and "\<forall>v \<in> set vs. ID v = 0 \<and> 1 \<le> DiscountPercent v \<and> DiscountPercent v \<le> 100"
    and "distinct (map VoucherCode vs)"
    and "set (map VoucherCode vs) \<inter> set (map VoucherCode (rows db)) = {}"
  shows "\<exists>db'. insertRows t vs db = Inr db'"
  using assms
proof (induction vs arbitrary: db)
  case Nil
  show ?case by simp
next
  case (Cons v vs)
  define v' where "v' = v\<lparr>ID := nextID db, CreatedAt := (if CreatedAt v = 0 then t else CreatedAt v),
                           UpdatedAt := (if UpdatedAt v = 0 then t else UpdatedAt v)\<rparr>"
  define db1 where "db1 = db\<lparr>rows := rows db @ [v'], nextID := nextID db + 1\<rparr>"
  from Cons.prems(1) have fresh: "nextID db \<notin> set (map ID (rows db))"
    by auto
  from Cons.prems(2) have v: "ID v = 0" "1 \<le> DiscountPercent v" "DiscountPercent v \<le> 100"
    by simp_all
  from Cons.prems(4) have c: "VoucherCode v \<notin> set (map VoucherCode (rows db))"
    by auto
  have i: "insertRow t db v = Inr (v', db1)"
    using fresh v c by (simp add: insertRow_def constraintError_def Let_def v'_def db1_def)
  have 1: "\<forall>r \<in> set (rows db1). ID r < nextID db1"
    using Cons.prems(1) by (auto simp: db1_def v'_def)
  have 2: "\<forall>v \<in> set vs. ID v = 0 \<and> 1 \<le> DiscountPercent v \<and> DiscountPercent v \<le> 100"
    using Cons.prems(2) by simp
  have 3: "distinct (map VoucherCode vs)"
    using Cons.prems(3) by simp
  have 4: "set (map VoucherCode vs) \<inter> set (map VoucherCode (rows db1)) = {}"
    using Cons.prems(3,4) by (auto simp: db1_def v'_def)
  from Cons.IH [OF 1 2 3 4] i show ?case
    by simp
qed

lemma wellFormed_ids: "wellFormed db \<Longrightarrow> \<forall>r \<in> set (rows db). ID r < nextID db"
  by (simp add: wellFormed_def list_all_iff)

text \<open>The loop asks the map only for the codes of the requests.\<close>

lemma filterValid_cong:
  assumes "\<And>q. q \<in> set reqs \<Longrightarrow> dm (req_VoucherCode q) = dm' (req_VoucherCode q)"
  shows "filterValid now dm reqs (r, vs) = filterValid now dm' reqs (r, vs)"
  using assms
proof (induction reqs arbitrary: r vs)
  case Nil
  show ?case by simp
next
  case (Cons q reqs)
  have "dm (req_VoucherCode q) = dm' (req_VoucherCode q)"
    by (rule Cons.prems) simp
  moreover have "filterValid now dm reqs (r', vs') = filterValid now dm' reqs (r', vs')" for r' vs'
    by (rule Cons.IH) (simp add: Cons.prems)
  ultimately show ?case
    by (simp split: sum.splits)
qed

text \<open>\<open>ImportBatch\<close> on the repository of the source.\<close>

lemma ImportBatch_impl:
  "ImportBatch (voucherRepositoryImpl t) now reqs db =
     (let fv = filterValid now (\<lambda>c. c \<in> activeCodes db) reqs
                 (newBatchImportResult (length reqs), [])
      in if snd fv \<noteq> [] then
           (case insertRows t (snd fv) db of
              Inl e \<Rightarrow> (Inl e, db)
            | Inr db' \<Rightarrow> (Inr ((fst fv)\<lparr>Inserted := length (snd fv)\<rparr>), db'))
         else (Inr (fst fv), db))"
proof -
  have "filterValid now
          (duplicateMapOf (map VoucherCode
             (filter (\<lambda>v. VoucherCode v \<in> set (map req_VoucherCode reqs)) (active db))))
          reqs (newBatchImportResult (length reqs), [])
        = filterValid now (\<lambda>c. c \<in> activeCodes db) reqs (newBatchImportResult (length reqs), [])"
    by (rule filterValid_cong) (rule duplicate_in_storage)
  then have "ImportBatch (voucherRepositoryImpl t) now reqs db =
     (let fv = filterValid now (\<lambda>c. c \<in> activeCodes db) reqs
                 (newBatchImportResult (length reqs), [])
      in if snd fv \<noteq> [] then
           (case repo_BulkCreate (voucherRepositoryImpl t) (snd fv) db of
              (Some err, s2) \<Rightarrow> (Inl err, s2)
            | (None, s2) \<Rightarrow> (Inr ((fst fv)\<lparr>Inserted := length (snd fv)\<rparr>), s2))
         else (Inr (fst fv), db))"
    unfolding ImportBatch_unfold impl_CheckDuplicateCodes_eq prod.case sum.case
    by (simp only:)
  then show ?thesis
    by (simp add: Let_def voucherRepositoryImpl_def impl_BulkCreate_def split: sum.splits)
qed

lemma filterValid_accepted:
  "snd (filterValid now (\<lambda>c. c \<in> activeCodes db) reqs (r, []))
     = map (\<lambda>q. projr (validateAndConvert now q)) (accepted now db reqs)"
  by (simp add: filterValid_valid accepted_def)

lemma accepted_vouchers:
  "\<forall>v \<in> set (map (\<lambda>q. projr (validateAndConvert now q)) (accepted now db reqs)).
      ID v = 0 \<and> 1 \<le> DiscountPercent v \<and> DiscountPercent v \<le> 100"
proof
  fix v
  assume "v \<in> set (map (\<lambda>q. projr (validateAndConvert now q)) (accepted now db reqs))"
  then obtain q where q: "\<not> isl (validateAndConvert now q)" "v = projr (validateAndConvert now q)"
    by (auto simp: accepted_def)
  then have "validateAndConvert now q = Inr v"
    by (cases "validateAndConvert now q") simp_all
  from validateAndConvert_Inr [OF this]
  show "ID v = 0 \<and> 1 \<le> DiscountPercent v \<and> DiscountPercent v \<le> 100"
    by simp
qed

lemma accepted_codes:
  "map VoucherCode (map (\<lambda>q. projr (validateAndConvert now q)) (accepted now db reqs))
     = map req_VoucherCode (accepted now db reqs)"
proof -
  have "VoucherCode (projr (validateAndConvert now q)) = req_VoucherCode q"
    if "q \<in> set (accepted now db reqs)" for q
  proof -
    from that have "\<not> isl (validateAndConvert now q)"
      by (simp add: accepted_def)
    then obtain v where v: "validateAndConvert now q = Inr v"
      by (cases "validateAndConvert now q") simp_all
    from validateAndConvert_code [OF v] v show ?thesis
      by simp
  qed
  then show ?thesis
    by simp
qed

text \<open>A report that \<open>ImportBatch\<close> returns on the repository of the source.\<close>

lemma ImportBatch_report:
  assumes "ImportBatch (voucherRepositoryImpl t) now reqs db = (Inr report, db')"
  shows "TotalReceived report = length reqs
     \<and> Duplicates report
         = length (filter (\<lambda>q. req_VoucherCode q \<in> activeCodes db) reqs)
     \<and> DuplicateCodes report
         = filter (\<lambda>c. c \<in> activeCodes db) (map req_VoucherCode reqs)
     \<and> length (BatchErrors report)
         = length (filter (\<lambda>q. req_VoucherCode q \<notin> activeCodes db
                               \<and> isl (validateAndConvert now q)) reqs)
     \<and> Inserted report = length (accepted now db reqs)
     \<and> int (Inserted report)
         = int (length reqs) - int (Duplicates report) - int (length (BatchErrors report))"
proof -
  define fv where
    "fv = filterValid now (\<lambda>c. c \<in> activeCodes db) reqs (newBatchImportResult (length reqs), [])"
  have report: "report = (fst fv)\<lparr>Inserted := length (snd fv)\<rparr>"
  proof (cases "snd fv = []")
    case True
    with assms have "report = fst fv"
      by (auto simp: ImportBatch_impl Let_def fv_def)
    moreover have "Inserted (fst fv) = 0"
      by (simp add: fv_def filterValid_Inserted newBatchImportResult_def)
    ultimately show ?thesis
      using True by simp
  next
    case False
    with assms show ?thesis
      by (auto simp: ImportBatch_impl Let_def fv_def split: sum.splits)
  qed
  have n: "length (filter (\<lambda>q. req_VoucherCode q \<in> activeCodes db) reqs)
        + length (filter (\<lambda>q. req_VoucherCode q \<notin> activeCodes db
                               \<and> isl (validateAndConvert now q)) reqs)
        + length (filter (\<lambda>q. req_VoucherCode q \<notin> activeCodes db
                               \<and> \<not> isl (validateAndConvert now q)) reqs)
        = length reqs"
    by (rule length_filter3)
  have 1: "TotalReceived report = length reqs"
    by (simp add: report fv_def filterValid_TotalReceived newBatchImportResult_def)
  have 2: "Duplicates report = length (filter (\<lambda>q. req_VoucherCode q \<in> activeCodes db) reqs)"
    by (simp add: report fv_def filterValid_Duplicates newBatchImportResult_def)
  have 3: "DuplicateCodes report = filter (\<lambda>c. c \<in> activeCodes db) (map req_VoucherCode reqs)"
    by (simp add: report fv_def filterValid_DuplicateCodes newBatchImportResult_def)
  have 4: "length (BatchErrors report)
         = length (filter (\<lambda>q. req_VoucherCode q \<notin> activeCodes db
                               \<and> isl (validateAndConvert now q)) reqs)"
    by (simp add: report fv_def filterValid_BatchErrors newBatchImportResult_def)
  have 5: "Inserted report = length (accepted now db reqs)"
    by (simp add: report fv_def filterValid_accepted)
  have 6: "int (Inserted report)
         = int (length reqs) - int (Duplicates report) - int (length (BatchErrors report))"
    using n unfolding 2 4 5 accepted_def by linarith
  from 1 2 3 4 5 6 show ?thesis
    by blast
qed

text \<open>
  C2, amended, on the repository of the source and a well-formed table, for a batch of \<open>N\<close>
  requests of which \<open>M\<close> have the code of an active voucher. If the codes of the accepted
  requests are pairwise distinct and none of them is the code of a row of the table,
  soft-deleted rows included, \<open>ImportBatch\<close> returns a report: \<open>Duplicates\<close> is \<open>M\<close> and
  \<open>DuplicateCodes\<close> lists those codes, \<open>BatchErrors\<close> has one entry for each of the other
  requests that fails the validation, \<open>Inserted\<close> counts the accepted ones, so that it is
  \<open>N - M\<close> minus the number of validation failures, and the three outcomes partition the
  batch. Otherwise the bulk insert fails, and \<open>ImportBatch\<close> returns an error, no report,
  and the table as it was.
\<close>

theorem ImportBatch_report_partitions_the_batch:
  assumes "wellFormed db"
  shows "(distinct (map req_VoucherCode (accepted now db reqs))
          \<and> set (map req_VoucherCode (accepted now db reqs)) \<inter> set (map VoucherCode (rows db)) = {}
        \<longrightarrow> (\<exists>report db'.
              ImportBatch (voucherRepositoryImpl t) now reqs db = (Inr report, db')
              \<and> TotalReceived report = length reqs
              \<and> Duplicates report
                  = length (filter (\<lambda>q. req_VoucherCode q \<in> activeCodes db) reqs)
              \<and> DuplicateCodes report
                  = filter (\<lambda>c. c \<in> activeCodes db) (map req_VoucherCode reqs)
              \<and> length (BatchErrors report)
                  = length (filter (\<lambda>q. req_VoucherCode q \<notin> activeCodes db
                                        \<and> isl (validateAndConvert now q)) reqs)
              \<and> Inserted report = length (accepted now db reqs)
              \<and> int (Inserted report)
                  = int (length reqs) - int (Duplicates report)
                    - int (length (BatchErrors report))))
     \<and> (\<not> (distinct (map req_VoucherCode (accepted now db reqs))
             \<and> set (map req_VoucherCode (accepted now db reqs))
                 \<inter> set (map VoucherCode (rows db)) = {})
        \<longrightarrow> (\<exists>e. ImportBatch (voucherRepositoryImpl t) now reqs db = (Inl e, db)))"
proof (intro conjI impI)
  define vs where "vs = map (\<lambda>q. projr (validateAndConvert now q)) (accepted now db reqs)"
  have fv: "snd (filterValid now (\<lambda>c. c \<in> activeCodes db) reqs
                   (newBatchImportResult (length reqs), [])) = vs"
    unfolding vs_def by (rule filterValid_accepted)
  have codes: "map VoucherCode vs = map req_VoucherCode (accepted now db reqs)"
    unfolding vs_def by (rule accepted_codes)
  {
    assume a: "distinct (map req_VoucherCode (accepted now db reqs))
          \<and> set (map req_VoucherCode (accepted now db reqs)) \<inter> set (map VoucherCode (rows db)) = {}"
    have "\<exists>db'. insertRows t vs db = Inr db'"
    proof (rule insertRows_succeeds)
      show "\<forall>r \<in> set (rows db). ID r < nextID db"
        using assms by (rule wellFormed_ids)
      show "\<forall>v \<in> set vs. ID v = 0 \<and> 1 \<le> DiscountPercent v \<and> DiscountPercent v \<le> 100"
        unfolding vs_def by (rule accepted_vouchers)
      show "distinct (map VoucherCode vs)"
        using a by (simp only: codes)
      show "set (map VoucherCode vs) \<inter> set (map VoucherCode (rows db)) = {}"
        using a by (simp only: codes)
    qed
    then obtain db' where ins: "insertRows t vs db = Inr db'"
      by blast
    have "\<exists>report db''. ImportBatch (voucherRepositoryImpl t) now reqs db = (Inr report, db'')"
    proof (cases "vs = []")
      case True
      then show ?thesis
        by (simp add: ImportBatch_impl Let_def fv)
    next
      case False
      with ins show ?thesis
        by (simp add: ImportBatch_impl Let_def fv)
    qed
    then obtain report db'' where
      r: "ImportBatch (voucherRepositoryImpl t) now reqs db = (Inr report, db'')"
      by blast
    from ImportBatch_report [OF r] r
    show "\<exists>report db'.
              ImportBatch (voucherRepositoryImpl t) now reqs db = (Inr report, db')
              \<and> TotalReceived report = length reqs
              \<and> Duplicates report
                  = length (filter (\<lambda>q. req_VoucherCode q \<in> activeCodes db) reqs)
              \<and> DuplicateCodes report
                  = filter (\<lambda>c. c \<in> activeCodes db) (map req_VoucherCode reqs)
              \<and> length (BatchErrors report)
                  = length (filter (\<lambda>q. req_VoucherCode q \<notin> activeCodes db
                                        \<and> isl (validateAndConvert now q)) reqs)
              \<and> Inserted report = length (accepted now db reqs)
              \<and> int (Inserted report)
                  = int (length reqs) - int (Duplicates report)
                    - int (length (BatchErrors report))"
      by blast
  }
  {
    assume b: "\<not> (distinct (map req_VoucherCode (accepted now db reqs))
             \<and> set (map req_VoucherCode (accepted now db reqs))
                 \<inter> set (map VoucherCode (rows db)) = {})"
    have "\<exists>e. insertRows t vs db = Inl e"
    proof (cases "insertRows t vs db")
      case (Inl e)
      then show ?thesis by blast
    next
      case (Inr db')
      from insertRows_distinct_codes [OF Inr] b show ?thesis
        by (simp only: codes)
    qed
    then obtain e where ins: "insertRows t vs db = Inl e"
      by blast
    from b have ne: "vs \<noteq> []"
      by (auto simp: vs_def)
    with ins show "\<exists>e. ImportBatch (voucherRepositoryImpl t) now reqs db = (Inl e, db)"
      by (simp add: ImportBatch_impl Let_def fv)
  }
qed


lemma accepted_examples:
  "accepted clockEast storage2
     [request ''OLD123'' 10 ''2099-01-01'', request ''NEW1'' 20 ''2099-01-01'',
      request ''BAD'' 200 ''2099-01-01'']
   = [request ''NEW1'' 20 ''2099-01-01'']"
  "accepted clockEast storage2
     [request ''GONE'' 10 ''2099-01-01'', request ''OLD123'' 10 ''2099-01-01'']
   = [request ''GONE'' 10 ''2099-01-01'']"
  "accepted clockEast storage2
     [request ''NEW1'' 20 ''2099-01-01'', request ''NEW1'' 30 ''2099-01-01'']
   = [request ''NEW1'' 20 ''2099-01-01'', request ''NEW1'' 30 ''2099-01-01'']"
  by (simp_all add: accepted_def storage_examples request_def validateAndConvert_def
        clockEast_def Let_def date_eval)

text \<open>
  C2, as stated, fails: a report is not always returned. In the table \<open>storage2\<close> the
  voucher \<open>GONE\<close> is soft-deleted, so the batch of the two valid requests \<open>GONE\<close> and \<open>OLD123\<close>
  has \<open>M = 1\<close> and no validation failure; the bulk insert of \<open>GONE\<close> fails on the unique
  index, which covers soft-deleted rows, and \<open>ImportBatch\<close> returns that error.
\<close>

theorem ImportBatch_returns_no_report_for_a_soft_deleted_code:
  "ImportBatch (voucherRepositoryImpl 1700000000) clockEast
     [request ''GONE'' 10 ''2099-01-01'', request ''OLD123'' 10 ''2099-01-01''] storage2
   = (Inl (StorageError ''duplicate key value violates unique constraint: voucher_code''),
      storage2)
   \<and> wellFormed storage2
   \<and> length (filter (\<lambda>q. req_VoucherCode q \<in> activeCodes storage2)
        [request ''GONE'' 10 ''2099-01-01'', request ''OLD123'' 10 ''2099-01-01'']) = 1
   \<and> filter (\<lambda>q. isl (validateAndConvert clockEast q))
        [request ''GONE'' 10 ''2099-01-01'', request ''OLD123'' 10 ''2099-01-01''] = []"
proof -
  have 1: "ImportBatch (voucherRepositoryImpl 1700000000) clockEast
     [request ''GONE'' 10 ''2099-01-01'', request ''OLD123'' 10 ''2099-01-01''] storage2
   = (Inl (StorageError ''duplicate key value violates unique constraint: voucher_code''),
      storage2)"
    by (simp add: ImportBatch_def voucherRepositoryImpl_def impl_CheckDuplicateCodes_def
        impl_BulkCreate_def insertRow_def constraintError_def active_def storage2_def
        old123_def gone_def request_def duplicateMapOf_def newBatchImportResult_def
        validateAndConvert_def newVoucher_def clockEast_def Let_def date_eval)
  have 2: "length (filter (\<lambda>q. req_VoucherCode q \<in> activeCodes storage2)
        [request ''GONE'' 10 ''2099-01-01'', request ''OLD123'' 10 ''2099-01-01'']) = 1"
    by (simp add: storage_examples request_def)
  have 3: "filter (\<lambda>q. isl (validateAndConvert clockEast q))
        [request ''GONE'' 10 ''2099-01-01'', request ''OLD123'' 10 ''2099-01-01''] = []"
    by (simp add: request_def validateAndConvert_def clockEast_def Let_def date_eval)
  from 1 2 3 storage_examples(1) show ?thesis
    by simp
qed

text \<open>
  Two batches on the table \<open>storage2\<close>. In the first, \<open>OLD123\<close> is the code of an active
  voucher, \<open>NEW1\<close> is valid and new, \<open>BAD\<close> has the discount 200. The second has the new code
  \<open>NEW1\<close> twice.
\<close>

theorem ImportBatch_report_partitions_the_batch_witness:
  "(\<exists>report db'.
     ImportBatch (voucherRepositoryImpl 1700000000) clockEast
       [request ''OLD123'' 10 ''2099-01-01'', request ''NEW1'' 20 ''2099-01-01'',
        request ''BAD'' 200 ''2099-01-01''] storage2 = (Inr report, db')
     \<and> TotalReceived report = 3 \<and> Duplicates report = 1 \<and> DuplicateCodes report = [''OLD123'']
     \<and> length (BatchErrors report) = 1 \<and> Inserted report = 1)
   \<and> (\<exists>e. ImportBatch (voucherRepositoryImpl 1700000000) clockEast
              [request ''NEW1'' 20 ''2099-01-01'', request ''NEW1'' 30 ''2099-01-01''] storage2
            = (Inl e, storage2))"
proof -
  have n: "\<not> (distinct (map req_VoucherCode
                   [request ''NEW1'' 20 ''2099-01-01'', request ''NEW1'' 30 ''2099-01-01''])
        \<and> set (map req_VoucherCode
                 [request ''NEW1'' 20 ''2099-01-01'', request ''NEW1'' 30 ''2099-01-01''])
            \<inter> set (map VoucherCode (rows storage2)) = {})"
    by (simp add: request_def)
  have 2: "\<exists>e. ImportBatch (voucherRepositoryImpl 1700000000) clockEast
              [request ''NEW1'' 20 ''2099-01-01'', request ''NEW1'' 30 ''2099-01-01''] storage2
            = (Inl e, storage2)"
    using ImportBatch_report_partitions_the_batch [OF storage_examples(1), of clockEast
        "[request ''NEW1'' 20 ''2099-01-01'', request ''NEW1'' 30 ''2099-01-01'']" 1700000000,
        THEN conjunct2, unfolded accepted_examples(3)] n
    by blast
  have c: "distinct (map req_VoucherCode [request ''NEW1'' 20 ''2099-01-01''])
     \<and> set (map req_VoucherCode [request ''NEW1'' 20 ''2099-01-01''])
         \<inter> set (map VoucherCode (rows storage2)) = {}"
    by (simp add: request_def storage2_def old123_def gone_def)
  have d: "length (filter (\<lambda>q. req_VoucherCode q \<in> activeCodes storage2)
        [request ''OLD123'' 10 ''2099-01-01'', request ''NEW1'' 20 ''2099-01-01'',
         request ''BAD'' 200 ''2099-01-01'']) = 1"
    "filter (\<lambda>c. c \<in> activeCodes storage2)
       (map req_VoucherCode [request ''OLD123'' 10 ''2099-01-01'',
          request ''NEW1'' 20 ''2099-01-01'', request ''BAD'' 200 ''2099-01-01''])
     = [''OLD123'']"
    "length (filter (\<lambda>q. req_VoucherCode q \<notin> activeCodes storage2
                          \<and> isl (validateAndConvert clockEast q))
        [request ''OLD123'' 10 ''2099-01-01'', request ''NEW1'' 20 ''2099-01-01'',
         request ''BAD'' 200 ''2099-01-01'']) = 1"
    by (simp_all add: storage_examples request_def validateAndConvert_def clockEast_def
          Let_def date_eval)
  define reqs where
    "reqs = [request ''OLD123'' 10 ''2099-01-01'', request ''NEW1'' 20 ''2099-01-01'',
             request ''BAD'' 200 ''2099-01-01'']"
  note th = ImportBatch_report_partitions_the_batch [OF storage_examples(1), of clockEast reqs 1700000000]
  from th c obtain report db' where
    r: "ImportBatch (voucherRepositoryImpl 1700000000) clockEast reqs storage2 = (Inr report, db')"
    and f: "TotalReceived report = length reqs"
      "Duplicates report = length (filter (\<lambda>q. req_VoucherCode q \<in> activeCodes storage2) reqs)"
      "DuplicateCodes report = filter (\<lambda>c. c \<in> activeCodes storage2) (map req_VoucherCode reqs)"
      "length (BatchErrors report)
         = length (filter (\<lambda>q. req_VoucherCode q \<notin> activeCodes storage2
                               \<and> isl (validateAndConvert clockEast q)) reqs)"
      "Inserted report = length (accepted clockEast storage2 reqs)"
    unfolding reqs_def accepted_examples(1) by blast
  from f have "TotalReceived report = 3 \<and> Duplicates report = 1
     \<and> DuplicateCodes report = [''OLD123''] \<and> length (BatchErrors report) = 1
     \<and> Inserted report = 1"
    unfolding reqs_def accepted_examples(1) d by simp
  with r have "\<exists>report db'.
     ImportBatch (voucherRepositoryImpl 1700000000) clockEast reqs storage2 = (Inr report, db')
     \<and> TotalReceived report = 3 \<and> Duplicates report = 1 \<and> DuplicateCodes report = [''OLD123'']
     \<and> length (BatchErrors report) = 1 \<and> Inserted report = 1"
    by blast
  with 2 show ?thesis
    unfolding reqs_def by blast
qed

section \<open>One existence check for the whole batch (C7)\<close>

lemma ImportBatch_duplicates:
  assumes "repo_CheckDuplicateCodes repo (map req_VoucherCode reqs) s = (Inr existingCodes, s1)"
    and "ImportBatch repo now reqs s = (Inr report, s2)"
  shows "DuplicateCodes report = filter (\<lambda>c. c \<in> set existingCodes) (map req_VoucherCode reqs)
     \<and> Duplicates report = length (filter (\<lambda>q. req_VoucherCode q \<in> set existingCodes) reqs)"
proof -
  define fv where
    "fv = filterValid now (duplicateMapOf existingCodes) reqs
            (newBatchImportResult (length reqs), [])"
  have d: "duplicateMapOf existingCodes = (\<lambda>c. c \<in> set existingCodes)"
    by (rule ext) (rule duplicateMapOf_iff)
  from assms have "report = fst fv \<or> report = (fst fv)\<lparr>Inserted := length (snd fv)\<rparr>"
    by (auto simp: ImportBatch_unfold Let_def fv_def split: if_splits prod.splits option.splits)
  then have "DuplicateCodes report = DuplicateCodes (fst fv)"
    and "Duplicates report = Duplicates (fst fv)"
    by auto
  then show ?thesis
    by (simp add: fv_def filterValid_DuplicateCodes filterValid_Duplicates
          newBatchImportResult_def d)
qed

lemma ImportBatch_trace:
  assumes "repo_CheckDuplicateCodes repo (map req_VoucherCode reqs) s = (Inr existingCodes, s1)"
  shows "snd (snd (ImportBatch (traced repo) now reqs (s, [])))
     = CheckDuplicateCodesCall (map req_VoucherCode reqs)
       # (if filter (\<lambda>q. req_VoucherCode q \<notin> set existingCodes
                           \<and> \<not> isl (validateAndConvert now q)) reqs = [] then []
          else [BulkCreateCall
                  (map (\<lambda>q. projr (validateAndConvert now q))
                     (filter (\<lambda>q. req_VoucherCode q \<notin> set existingCodes
                                   \<and> \<not> isl (validateAndConvert now q)) reqs))])"
proof -
  have d: "duplicateMapOf existingCodes = (\<lambda>c. c \<in> set existingCodes)"
    by (rule ext) (rule duplicateMapOf_iff)
  show ?thesis
    by (simp add: ImportBatch_calls assms Let_def filterValid_valid d)
qed

text \<open>
  C7. Whatever the repository, the calls of \<open>ImportBatch\<close> are one \<open>CheckDuplicateCodes\<close>
  call with the codes of all requests, followed by at most one \<open>BulkCreate\<close> call, and
  nothing else: no call per code. When that call answers \<open>existingCodes\<close>, the requests
  treated as existing are exactly those with a code in the answer: the vouchers of the
  \<open>BulkCreate\<close> call are those of the valid requests with a code outside the answer, and a
  report lists as \<open>DuplicateCodes\<close> the codes of the requests inside it. And
  \<open>CheckDuplicateCodes\<close> of the source returns, without changing the table, codes that are
  exactly the codes asked for that belong to an active voucher.
\<close>

theorem ImportBatch_one_existence_check:
  "(snd (snd (ImportBatch (traced repo) now reqs (s, [])))
      = [CheckDuplicateCodesCall (map req_VoucherCode reqs)]
    \<or> (\<exists>vs. snd (snd (ImportBatch (traced repo) now reqs (s, [])))
             = [CheckDuplicateCodesCall (map req_VoucherCode reqs), BulkCreateCall vs]))
   \<and> (repo_CheckDuplicateCodes repo (map req_VoucherCode reqs) s = (Inr existingCodes, s1)
      \<longrightarrow> snd (snd (ImportBatch (traced repo) now reqs (s, [])))
            = CheckDuplicateCodesCall (map req_VoucherCode reqs)
              # (if filter (\<lambda>q. req_VoucherCode q \<notin> set existingCodes
                                  \<and> \<not> isl (validateAndConvert now q)) reqs = [] then []
                 else [BulkCreateCall
                         (map (\<lambda>q. projr (validateAndConvert now q))
                            (filter (\<lambda>q. req_VoucherCode q \<notin> set existingCodes
                                          \<and> \<not> isl (validateAndConvert now q)) reqs))])
          \<and> (\<forall>report s2. ImportBatch repo now reqs s = (Inr report, s2)
                \<longrightarrow> DuplicateCodes report
                      = filter (\<lambda>c. c \<in> set existingCodes) (map req_VoucherCode reqs)
                    \<and> Duplicates report
                      = length (filter (\<lambda>q. req_VoucherCode q \<in> set existingCodes) reqs)))
   \<and> (\<exists>existingCodes.
         repo_CheckDuplicateCodes (voucherRepositoryImpl t) codes db = (Inr existingCodes, db)
         \<and> set existingCodes = set codes \<inter> activeCodes db)"
proof (intro conjI impI allI)
  show "snd (snd (ImportBatch (traced repo) now reqs (s, [])))
      = [CheckDuplicateCodesCall (map req_VoucherCode reqs)]
    \<or> (\<exists>vs. snd (snd (ImportBatch (traced repo) now reqs (s, [])))
             = [CheckDuplicateCodesCall (map req_VoucherCode reqs), BulkCreateCall vs])"
    by (simp add: ImportBatch_calls Let_def split: sum.splits)
  show "\<exists>existingCodes.
         repo_CheckDuplicateCodes (voucherRepositoryImpl t) codes db = (Inr existingCodes, db)
         \<and> set existingCodes = set codes \<inter> activeCodes db"
    by (auto simp: voucherRepositoryImpl_def impl_CheckDuplicateCodes_def activeCodes_def)
next
  assume a: "repo_CheckDuplicateCodes repo (map req_VoucherCode reqs) s = (Inr existingCodes, s1)"
  show "snd (snd (ImportBatch (traced repo) now reqs (s, [])))
            = CheckDuplicateCodesCall (map req_VoucherCode reqs)
              # (if filter (\<lambda>q. req_VoucherCode q \<notin> set existingCodes
                                  \<and> \<not> isl (validateAndConvert now q)) reqs = [] then []
                 else [BulkCreateCall
                         (map (\<lambda>q. projr (validateAndConvert now q))
                            (filter (\<lambda>q. req_VoucherCode q \<notin> set existingCodes
                                          \<and> \<not> isl (validateAndConvert now q)) reqs))])"
    using a by (rule ImportBatch_trace)
  fix report s2
  assume "ImportBatch repo now reqs s = (Inr report, s2)"
  from ImportBatch_duplicates [OF a this]
  show "DuplicateCodes report
          = filter (\<lambda>c. c \<in> set existingCodes) (map req_VoucherCode reqs)"
    and "Duplicates report
          = length (filter (\<lambda>q. req_VoucherCode q \<in> set existingCodes) reqs)"
    by simp_all
qed

lemma ImportBatch_storage2:
  "ImportBatch (voucherRepositoryImpl 1700000000) clockEast
     [request ''OLD123'' 10 ''2099-01-01'', request ''NEW1'' 20 ''2099-01-01'',
      request ''GONE'' 200 ''2099-01-01''] storage2
   = (Inr \<lparr>TotalReceived = 3, Inserted = 1, Duplicates = 1, DuplicateCodes = [''OLD123''],
            BatchErrors = [''Code GONE: discount percent 200.00 out of range (must be 1-100)'']\<rparr>,
      \<lparr>rows = [old123, gone,
               \<lparr>ID = 3, VoucherCode = ''NEW1'', DiscountPercent = 20,
                ExpiryDate = \<lparr>Year = 2099, Month = 1, Day = 1\<rparr>,
                CreatedAt = 1700000000, UpdatedAt = 1700000000, DeletedAt = None\<rparr>],
       nextID = 4\<rparr>)"
  by (simp add: ImportBatch_def voucherRepositoryImpl_def impl_CheckDuplicateCodes_def
        impl_BulkCreate_def insertRow_def constraintError_def active_def storage2_def
        old123_def gone_def request_def duplicateMapOf_def newBatchImportResult_def
        validateAndConvert_def newVoucher_def clockEast_def Sprintf_2f_200 Let_def date_eval)

text \<open>On the table \<open>storage2\<close>: \<open>OLD123\<close> is active, \<open>GONE\<close> is soft-deleted and here comes
  with the discount 200.\<close>

theorem ImportBatch_one_existence_check_witness:
  "repo_CheckDuplicateCodes (voucherRepositoryImpl 1700000000) [''OLD123'', ''NEW1'', ''GONE'']
     storage2 = (Inr [''OLD123''], storage2)
   \<and> snd (snd (ImportBatch (traced (voucherRepositoryImpl 1700000000)) clockEast
       [request ''OLD123'' 10 ''2099-01-01'', request ''NEW1'' 20 ''2099-01-01'',
        request ''GONE'' 200 ''2099-01-01''] (storage2, [])))
     = [CheckDuplicateCodesCall [''OLD123'', ''NEW1'', ''GONE''],
        BulkCreateCall [newVoucher ''NEW1'' 20 newYear2099]]
   \<and> (\<exists>report s2.
         ImportBatch (voucherRepositoryImpl 1700000000) clockEast
           [request ''OLD123'' 10 ''2099-01-01'', request ''NEW1'' 20 ''2099-01-01'',
            request ''GONE'' 200 ''2099-01-01''] storage2 = (Inr report, s2)
         \<and> DuplicateCodes report = [''OLD123''] \<and> Duplicates report = 1)"
proof -
  define reqs where
    "reqs = [request ''OLD123'' 10 ''2099-01-01'', request ''NEW1'' 20 ''2099-01-01'',
             request ''GONE'' 200 ''2099-01-01'']"
  have codes: "map req_VoucherCode reqs = [''OLD123'', ''NEW1'', ''GONE'']"
    by (simp add: reqs_def request_def)
  have a: "repo_CheckDuplicateCodes (voucherRepositoryImpl 1700000000)
             (map req_VoucherCode reqs) storage2 = (Inr [''OLD123''], storage2)"
    unfolding codes
    by (simp add: impl_CheckDuplicateCodes_eq storage_examples old123_def)
  have f: "filter (\<lambda>q. req_VoucherCode q \<notin> set [''OLD123'']
                        \<and> \<not> isl (validateAndConvert clockEast q)) reqs
           = [request ''NEW1'' 20 ''2099-01-01'']"
    by (simp add: reqs_def request_def validateAndConvert_def clockEast_def Let_def date_eval)
  have v: "projr (validateAndConvert clockEast (request ''NEW1'' 20 ''2099-01-01''))
           = newVoucher ''NEW1'' 20 newYear2099"
    by (simp add: request_def validateAndConvert_def clockEast_def Let_def newYear2099_def
          date_eval)
  from ImportBatch_one_existence_check [of "voucherRepositoryImpl 1700000000" clockEast reqs storage2 "[''OLD123'']" storage2]
    a
  have "snd (snd (ImportBatch (traced (voucherRepositoryImpl 1700000000)) clockEast reqs
                    (storage2, [])))
          = [CheckDuplicateCodesCall [''OLD123'', ''NEW1'', ''GONE''],
             BulkCreateCall [newVoucher ''NEW1'' 20 newYear2099]]"
    unfolding f codes by (simp add: v)
  note 1 = this
  obtain report s2 where
    r: "ImportBatch (voucherRepositoryImpl 1700000000) clockEast reqs storage2 = (Inr report, s2)"
    unfolding reqs_def using ImportBatch_storage2 by blast
  from ImportBatch_one_existence_check [of "voucherRepositoryImpl 1700000000" clockEast reqs storage2 "[''OLD123'']" storage2]
    a r
  have "DuplicateCodes report = filter (\<lambda>c. c \<in> set [''OLD123'']) (map req_VoucherCode reqs)
     \<and> Duplicates report = length (filter (\<lambda>q. req_VoucherCode q \<in> set [''OLD123'']) reqs)"
    by blast
  then have "DuplicateCodes report = [''OLD123''] \<and> Duplicates report = 1"
    by (simp add: reqs_def request_def)
  with r have 2: "\<exists>report s2.
         ImportBatch (voucherRepositoryImpl 1700000000) clockEast reqs storage2 = (Inr report, s2)
         \<and> DuplicateCodes report = [''OLD123''] \<and> Duplicates report = 1"
    by blast
  from a 1 2 show ?thesis
    unfolding reqs_def codes [unfolded reqs_def] by simp
qed

section \<open>The CSV scenario (C4)\<close>

lemma parseCSVRow_state:
  assumes "\<And>c s. snd (repo_FindByVoucherCode repo c s) = s"
  shows "snd (parseCSVRow repo pf now row n s) = s"
proof -
  obtain r where "repo_FindByVoucherCode repo (TrimSpace (row ! 0)) s = (r, s)"
    using assms [of "TrimSpace (row ! 0)" s]
    by (cases "repo_FindByVoucherCode repo (TrimSpace (row ! 0)) s") simp
  then show ?thesis
    by (cases r) (simp add: parseCSVRow_def Let_def split: option.splits)
qed

lemma importRows_rows:
  assumes "\<And>c s. snd (repo_FindByVoucherCode repo c s) = s"
  shows "importRows repo pf now rs i (r, vs) s
     = ((r\<lparr>Errors := Errors r @ rowErrors repo pf now s (enumerate (i + 2) rs),
           Failed := Failed r + length (rowErrors repo pf now s (enumerate (i + 2) rs))\<rparr>,
         vs @ rowVouchers repo pf now s (enumerate (i + 2) rs)), s)"
proof (induction rs arbitrary: i r vs)
  case Nil
  show ?case by (simp add: rowErrors_def rowVouchers_def)
next
  case (Cons a rs)
  obtain res where p: "parseCSVRow repo pf now a (Suc (Suc i)) s = (res, s)"
    using parseCSVRow_state [OF assms, of pf now a "Suc (Suc i)" s]
    by (cases "parseCSVRow repo pf now a (Suc (Suc i)) s") simp
  have e: "rowErrors repo pf now s ((n, a) # nrs)
      = (case fst (parseCSVRow repo pf now a n s) of
           Inl e \<Rightarrow> [\<lparr>Row = n, Error = ErrorMsg e\<rparr>] | Inr v \<Rightarrow> []) @ rowErrors repo pf now s nrs"
    for n nrs
    by (simp add: rowErrors_def)
  have v: "rowVouchers repo pf now s ((n, a) # nrs)
      = (case fst (parseCSVRow repo pf now a n s) of Inl e \<Rightarrow> [] | Inr v \<Rightarrow> [v])
        @ rowVouchers repo pf now s nrs"
    for n nrs
    by (simp add: rowVouchers_def)
  show ?case
  proof (cases res)
    case (Inl err)
    with p Cons.IH [of "i + 1"
        "r\<lparr>Errors := Errors r @ [\<lparr>Row = Suc (Suc i), Error = ErrorMsg err\<rparr>],
           Failed := Failed r + 1\<rparr>" vs]
    show ?thesis
      by (simp add: e v)
  next
    case (Inr voucher)
    with p Cons.IH [of "i + 1" r "vs @ [voucher]"]
    show ?thesis
      by (simp add: e v)
  qed
qed

lemma parseCSVRow_examples:
  assumes "pf ''10.00'' = Some 10" and "pf ''200'' = Some 200"
    and "''DISC10'' \<notin> activeCodes db" and "''BAD'' \<notin> activeCodes db"
    and "utcDay now \<le> 47117"
  shows "parseCSVRow (voucherRepositoryImpl t) pf now [''DISC10'', ''10.00'', ''2099-01-01''] n db
           = (Inr (newVoucher ''DISC10'' 10 newYear2099), db)"
    and "parseCSVRow (voucherRepositoryImpl t) pf now ['''', ''20'', ''2099-01-01''] n db
           = (Inl EmptyCode, db)"
    and "parseCSVRow (voucherRepositoryImpl t) pf now [''BAD'', ''200'', ''2099-01-01''] n db
           = (Inl (DiscountOutOfRange 200), db)"
proof -
  have f: "repo_FindByVoucherCode (voucherRepositoryImpl t) ''DISC10'' db = ((None, None), db)"
    "repo_FindByVoucherCode (voucherRepositoryImpl t) ''BAD'' db = ((None, None), db)"
    using assms(3,4) by (simp_all add: impl_FindByVoucherCode_absent)
  have b: "\<not> Before (utcMidnight newYear2099) (Truncate24h now)"
    unfolding Before_utcMidnight unixDays_newYear2099 using assms(5) by simp
  show "parseCSVRow (voucherRepositoryImpl t) pf now [''DISC10'', ''10.00'', ''2099-01-01''] n db
           = (Inr (newVoucher ''DISC10'' 10 newYear2099), db)"
    using b
    by (simp add: parseCSVRow_def TrimSpace_examples f assms(1) otherThanNotFound_def
          time_Parse_newYear2099)
  show "parseCSVRow (voucherRepositoryImpl t) pf now ['''', ''20'', ''2099-01-01''] n db
           = (Inl EmptyCode, db)"
    by (simp add: parseCSVRow_def TrimSpace_examples)
  show "parseCSVRow (voucherRepositoryImpl t) pf now [''BAD'', ''200'', ''2099-01-01''] n db
           = (Inl (DiscountOutOfRange 200), db)"
    by (simp add: parseCSVRow_def TrimSpace_examples f assms(2) otherThanNotFound_def)
qed

lemma BulkCreate_DISC10:
  assumes "wellFormed db" and "''DISC10'' \<notin> set (map VoucherCode (rows db))"
  shows "repo_BulkCreate (voucherRepositoryImpl t) [newVoucher ''DISC10'' 10 newYear2099] db
     = (None, db\<lparr>rows := rows db
                   @ [\<lparr>ID = nextID db, VoucherCode = ''DISC10'', DiscountPercent = 10,
                       ExpiryDate = newYear2099,
                       CreatedAt = t, UpdatedAt = t, DeletedAt = None\<rparr>],
                 nextID := nextID db + 1\<rparr>)"
  using assms(2) wellFormed_nextID [OF assms(1)]
  by (simp add: voucherRepositoryImpl_def impl_BulkCreate_def insertRow_def
        constraintError_def newVoucher_def Let_def)

lemma insertRows_DISC10:
  assumes "wellFormed db" and "''DISC10'' \<notin> set (map VoucherCode (rows db))"
  shows "insertRows t [newVoucher ''DISC10'' 10 newYear2099] db
     = Inr (db\<lparr>rows := rows db
                   @ [\<lparr>ID = nextID db, VoucherCode = ''DISC10'', DiscountPercent = 10,
                       ExpiryDate = newYear2099,
                       CreatedAt = t, UpdatedAt = t, DeletedAt = None\<rparr>],
                 nextID := nextID db + 1\<rparr>)"
  using assms(2) wellFormed_nextID [OF assms(1)]
  by (simp add: insertRow_def constraintError_def newVoucher_def Let_def)

text \<open>\<open>ImportVouchers\<close> on the repository of the source, by the outcomes of the rows.\<close>

lemma ImportVouchers_impl_rows:
  assumes "2 \<le> length csv"
  shows "ImportVouchers (voucherRepositoryImpl t) pf now (Inr csv) db =
     (let errs = rowErrors (voucherRepositoryImpl t) pf now db (enumerate 2 (tl csv));
          vs = rowVouchers (voucherRepositoryImpl t) pf now db (enumerate 2 (tl csv))
      in if vs = [] then
           (Inr \<lparr>TotalRows = length csv - 1, Success = 0, Failed = length errs,
                  Errors = errs\<rparr>, db)
         else
           (case insertRows t vs db of
              Inl e \<Rightarrow> (Inl (InsertFailed e), db)
            | Inr db' \<Rightarrow>
                (Inr \<lparr>TotalRows = length csv - 1, Success = length vs, Failed = length errs,
                       Errors = errs\<rparr>, db')))"
proof -
  have l: "importRows (voucherRepositoryImpl t) pf now (tl csv) 0
             (newImportResult (length csv - 1), []) db
           = ((\<lparr>TotalRows = length csv - 1, Success = 0,
                Failed = length (rowErrors (voucherRepositoryImpl t) pf now db
                                   (enumerate 2 (tl csv))),
                Errors = rowErrors (voucherRepositoryImpl t) pf now db (enumerate 2 (tl csv))\<rparr>,
               rowVouchers (voucherRepositoryImpl t) pf now db (enumerate 2 (tl csv))), db)"
    using importRows_rows [of "voucherRepositoryImpl t" pf now "tl csv" 0
        "newImportResult (length csv - 1)" "[]" db]
    unfolding add_0 by (simp add: impl_FindByVoucherCode_state newImportResult_def)
  from assms have "\<not> length csv < 2"
    by simp
  then show ?thesis
    unfolding ImportVouchers_unfold l Let_def
    by (simp add: voucherRepositoryImpl_def impl_BulkCreate_def split: sum.splits)
qed

text \<open>
  C4: the file with a header and the rows \<open>DISC10,10.00,2099-01-01\<close>, \<open>,20,2099-01-01\<close>
  and \<open>BAD,200,2099-01-01\<close>, imported on the repository of the source into a table that
  holds neither code, while the day in UTC is not after 1 January 2099 (day 47117), gives the
  report with \<open>TotalRows = 3\<close>, \<open>Success = 1\<close>, \<open>Failed = 2\<close> and the errors of rows 3 (the
  empty code) and 4 (the discount 200), and inserts the voucher of row 2. \<open>ParseFloat\<close> is
  any function with the values of \<open>strconv.ParseFloat\<close> at \<open>10.00\<close> and \<open>200\<close>.

  A failing row does not stop the loop. For every repository, each row is counted as failed
  or yields a voucher. For every repository whose \<open>FindByVoucherCode\<close> leaves the state as
  it is, as that of the source does, the loop returns, for any rows, the error entry of
  each row that \<open>parseCSVRow\<close> refuses, under its own row number, and the voucher of each
  row that it accepts, wherever the row stands among the others. And on the repository of
  the source \<open>ImportVouchers\<close>, for any file with a row after the header, reports these
  error entries of all rows, and inserts these vouchers of all rows in one bulk insert.
\<close>

theorem CSV_import_scenario:
  assumes "ParseFloat ''10.00'' = Some 10" and "ParseFloat ''200'' = Some 200"
    and "wellFormed db"
    and "''DISC10'' \<notin> set (map VoucherCode (rows db))" and "''BAD'' \<notin> activeCodes db"
    and "utcDay now \<le> 47117"
  shows "ImportVouchers (voucherRepositoryImpl t) ParseFloat now
           (Inr [header, [''DISC10'', ''10.00'', ''2099-01-01''], ['''', ''20'', ''2099-01-01''],
                 [''BAD'', ''200'', ''2099-01-01'']]) db
         = (Inr \<lparr>TotalRows = 3, Success = 1, Failed = 2,
                  Errors = [\<lparr>Row = 3, Error = ''voucher code is required''\<rparr>,
                            \<lparr>Row = 4, Error =
                               ''discount percent 200.00 out of range (must be 1-100)''\<rparr>]\<rparr>,
            db\<lparr>rows := rows db
                   @ [\<lparr>ID = nextID db, VoucherCode = ''DISC10'', DiscountPercent = 10,
                       ExpiryDate = newYear2099,
                       CreatedAt = t, UpdatedAt = t, DeletedAt = None\<rparr>],
                 nextID := nextID db + 1\<rparr>)
     \<and> Failed (fst (fst (importRows repo pf clk rs i (r, vs) s)))
           + length (snd (fst (importRows repo pf clk rs i (r, vs) s)))
         = Failed r + length vs + length rs
     \<and> ((\<forall>c s'. snd (repo_FindByVoucherCode repo c s') = s')
        \<longrightarrow> importRows repo pf clk rs i (r, vs) s
            = ((r\<lparr>Errors := Errors r @ rowErrors repo pf clk s (enumerate (i + 2) rs),
                  Failed := Failed r + length (rowErrors repo pf clk s (enumerate (i + 2) rs))\<rparr>,
                vs @ rowVouchers repo pf clk s (enumerate (i + 2) rs)), s))
     \<and> (2 \<le> length csv
        \<longrightarrow> ImportVouchers (voucherRepositoryImpl t) pf clk (Inr csv) tbl =
            (let errs = rowErrors (voucherRepositoryImpl t) pf clk tbl (enumerate 2 (tl csv));
                 ok = rowVouchers (voucherRepositoryImpl t) pf clk tbl (enumerate 2 (tl csv))
             in if ok = [] then
                  (Inr \<lparr>TotalRows = length csv - 1, Success = 0, Failed = length errs,
                         Errors = errs\<rparr>, tbl)
                else
                  (case insertRows t ok tbl of
                     Inl e \<Rightarrow> (Inl (InsertFailed e), tbl)
                   | Inr tbl' \<Rightarrow>
                       (Inr \<lparr>TotalRows = length csv - 1, Success = length ok,
                              Failed = length errs, Errors = errs\<rparr>, tbl'))))"
proof -
  have d: "''DISC10'' \<notin> activeCodes db"
    using assms(4) activeCodes_subset by blast
  note rows = parseCSVRow_examples [OF assms(1,2) d assms(5,6)]
  have "ImportVouchers (voucherRepositoryImpl t) ParseFloat now
           (Inr [header, [''DISC10'', ''10.00'', ''2099-01-01''], ['''', ''20'', ''2099-01-01''],
                 [''BAD'', ''200'', ''2099-01-01'']]) db
         = (Inr \<lparr>TotalRows = 3, Success = 1, Failed = 2,
                  Errors = [\<lparr>Row = 3, Error = ''voucher code is required''\<rparr>,
                            \<lparr>Row = 4, Error =
                               ''discount percent 200.00 out of range (must be 1-100)''\<rparr>]\<rparr>,
            db\<lparr>rows := rows db
                   @ [\<lparr>ID = nextID db, VoucherCode = ''DISC10'', DiscountPercent = 10,
                       ExpiryDate = newYear2099,
                       CreatedAt = t, UpdatedAt = t, DeletedAt = None\<rparr>],
                 nextID := nextID db + 1\<rparr>)"
    by (simp add: ImportVouchers_def rows BulkCreate_DISC10 [OF assms(3,4)] newImportResult_def
          Sprintf_2f_200)
  moreover have "(\<forall>c s'. snd (repo_FindByVoucherCode repo c s') = s')
        \<longrightarrow> importRows repo pf clk rs i (r, vs) s
            = ((r\<lparr>Errors := Errors r @ rowErrors repo pf clk s (enumerate (i + 2) rs),
                  Failed := Failed r + length (rowErrors repo pf clk s (enumerate (i + 2) rs))\<rparr>,
                vs @ rowVouchers repo pf clk s (enumerate (i + 2) rs)), s)"
    using importRows_rows [of repo pf clk rs i r vs s] by blast
  moreover have "2 \<le> length csv
        \<longrightarrow> ImportVouchers (voucherRepositoryImpl t) pf clk (Inr csv) tbl =
            (let errs = rowErrors (voucherRepositoryImpl t) pf clk tbl (enumerate 2 (tl csv));
                 ok = rowVouchers (voucherRepositoryImpl t) pf clk tbl (enumerate 2 (tl csv))
             in if ok = [] then
                  (Inr \<lparr>TotalRows = length csv - 1, Success = 0, Failed = length errs,
                         Errors = errs\<rparr>, tbl)
                else
                  (case insertRows t ok tbl of
                     Inl e \<Rightarrow> (Inl (InsertFailed e), tbl)
                   | Inr tbl' \<Rightarrow>
                       (Inr \<lparr>TotalRows = length csv - 1, Success = length ok,
                              Failed = length errs, Errors = errs\<rparr>, tbl')))"
    using ImportVouchers_impl_rows [of csv t pf clk tbl] by blast
  moreover have "Failed (fst (fst (importRows repo pf clk rs i (r, vs) s)))
           + length (snd (fst (importRows repo pf clk rs i (r, vs) s)))
         = Failed r + length vs + length rs"
    using importRows_counts [of repo pf clk rs i r vs s] by simp
  ultimately show ?thesis
    by (intro conjI)
qed

text \<open>The scenario on the table \<open>storage2\<close>, and the same rows with the valid row last, in
  the loop and in the import.\<close>

theorem CSV_import_scenario_witness:
  "ImportVouchers (voucherRepositoryImpl 1700000000) decimalLiterals clockEast
     (Inr [[''voucher_code'', ''discount_percent'', ''expiry_date''],
           [''DISC10'', ''10.00'', ''2099-01-01''], ['''', ''20'', ''2099-01-01''],
           [''BAD'', ''200'', ''2099-01-01'']]) storage2
   = (Inr \<lparr>TotalRows = 3, Success = 1, Failed = 2,
            Errors = [\<lparr>Row = 3, Error = ''voucher code is required''\<rparr>,
                      \<lparr>Row = 4, Error =
                         ''discount percent 200.00 out of range (must be 1-100)''\<rparr>]\<rparr>,
      storage2\<lparr>rows := rows storage2
                   @ [\<lparr>ID = nextID storage2, VoucherCode = ''DISC10'', DiscountPercent = 10,
                       ExpiryDate = newYear2099,
                       CreatedAt = 1700000000, UpdatedAt = 1700000000, DeletedAt = None\<rparr>],
                 nextID := nextID storage2 + 1\<rparr>)
   \<and> importRows (voucherRepositoryImpl 1700000000) decimalLiterals clockEast
       [['''', ''20'', ''2099-01-01''], [''BAD'', ''200'', ''2099-01-01''],
        [''DISC10'', ''10.00'', ''2099-01-01'']] 0
       (\<lparr>TotalRows = 3, Success = 0, Failed = 0, Errors = []\<rparr>, []) storage2
     = ((\<lparr>TotalRows = 3, Success = 0, Failed = 2,
          Errors = [\<lparr>Row = 2, Error = ''voucher code is required''\<rparr>,
                    \<lparr>Row = 3, Error =
                       ''discount percent 200.00 out of range (must be 1-100)''\<rparr>]\<rparr>,
         [newVoucher ''DISC10'' 10 newYear2099]), storage2)
   \<and> ImportVouchers (voucherRepositoryImpl 1700000000) decimalLiterals clockEast
       (Inr [[''voucher_code'', ''discount_percent'', ''expiry_date''],
             ['''', ''20'', ''2099-01-01''], [''BAD'', ''200'', ''2099-01-01''],
             [''DISC10'', ''10.00'', ''2099-01-01'']]) storage2
     = (Inr \<lparr>TotalRows = 3, Success = 1, Failed = 2,
              Errors = [\<lparr>Row = 2, Error = ''voucher code is required''\<rparr>,
                        \<lparr>Row = 3, Error =
                           ''discount percent 200.00 out of range (must be 1-100)''\<rparr>]\<rparr>,
        storage2\<lparr>rows := rows storage2
                   @ [\<lparr>ID = nextID storage2, VoucherCode = ''DISC10'', DiscountPercent = 10,
                       ExpiryDate = newYear2099,
                       CreatedAt = 1700000000, UpdatedAt = 1700000000, DeletedAt = None\<rparr>],
                 nextID := nextID storage2 + 1\<rparr>)"
proof -
  have p: "decimalLiterals ''10.00'' = Some 10" "decimalLiterals ''200'' = Some 200"
    by (simp_all add: decimalLiterals_def)
  have d: "''DISC10'' \<notin> set (map VoucherCode (rows storage2))"
    by (simp add: storage2_def old123_def gone_def)
  have d': "''DISC10'' \<notin> activeCodes storage2"
    by (simp add: storage_examples)
  have b: "''BAD'' \<notin> activeCodes storage2"
    by (simp add: storage_examples)
  have u: "utcDay clockEast \<le> 47117"
    by (simp add: utcDay_def clockEast_def)
  have ro: "\<forall>c s'. snd (repo_FindByVoucherCode (voucherRepositoryImpl 1700000000) c s') = s'"
    by (simp add: impl_FindByVoucherCode_state)
  note rows = parseCSVRow_examples [OF p d' b u]
  note th = CSV_import_scenario [OF p storage_examples(1) d b u,
      of 1700000000 "[''voucher_code'', ''discount_percent'', ''expiry_date'']"
        "voucherRepositoryImpl 1700000000" decimalLiterals clockEast
        "[['''', ''20'', ''2099-01-01''], [''BAD'', ''200'', ''2099-01-01''],
          [''DISC10'', ''10.00'', ''2099-01-01'']]" 0
        "\<lparr>TotalRows = 3, Success = 0, Failed = 0, Errors = []\<rparr>" "[]" storage2
        "[[''voucher_code'', ''discount_percent'', ''expiry_date''],
          ['''', ''20'', ''2099-01-01''], [''BAD'', ''200'', ''2099-01-01''],
          [''DISC10'', ''10.00'', ''2099-01-01'']]" storage2]
  note 1 = th [THEN conjunct1]
  have 2: "importRows (voucherRepositoryImpl 1700000000) decimalLiterals clockEast
       [['''', ''20'', ''2099-01-01''], [''BAD'', ''200'', ''2099-01-01''],
        [''DISC10'', ''10.00'', ''2099-01-01'']] 0
       (\<lparr>TotalRows = 3, Success = 0, Failed = 0, Errors = []\<rparr>, []) storage2
     = ((\<lparr>TotalRows = 3, Success = 0, Failed = 2,
          Errors = [\<lparr>Row = 2, Error = ''voucher code is required''\<rparr>,
                    \<lparr>Row = 3, Error =
                       ''discount percent 200.00 out of range (must be 1-100)''\<rparr>]\<rparr>,
         [newVoucher ''DISC10'' 10 newYear2099]), storage2)"
    using th [THEN conjunct2, THEN conjunct2, THEN conjunct1] ro
    by (simp add: rowErrors_def rowVouchers_def rows Sprintf_2f_200)
  have 3: "ImportVouchers (voucherRepositoryImpl 1700000000) decimalLiterals clockEast
       (Inr [[''voucher_code'', ''discount_percent'', ''expiry_date''],
             ['''', ''20'', ''2099-01-01''], [''BAD'', ''200'', ''2099-01-01''],
             [''DISC10'', ''10.00'', ''2099-01-01'']]) storage2
     = (Inr \<lparr>TotalRows = 3, Success = 1, Failed = 2,
              Errors = [\<lparr>Row = 2, Error = ''voucher code is required''\<rparr>,
                        \<lparr>Row = 3, Error =
                           ''discount percent 200.00 out of range (must be 1-100)''\<rparr>]\<rparr>,
        storage2\<lparr>rows := rows storage2
                   @ [\<lparr>ID = nextID storage2, VoucherCode = ''DISC10'', DiscountPercent = 10,
                       ExpiryDate = newYear2099,
                       CreatedAt = 1700000000, UpdatedAt = 1700000000, DeletedAt = None\<rparr>],
                 nextID := nextID storage2 + 1\<rparr>)"
    using th [THEN conjunct2, THEN conjunct2, THEN conjunct2]
    by (simp add: rowErrors_def rowVouchers_def rows Sprintf_2f_200
          insertRows_DISC10 [OF storage_examples(1) d] del: insertRows.simps)
  from 1 2 3 show ?thesis
    by (intro conjI)
qed

section \<open>The duplicate check of Update (C6)\<close>

lemma traced_Create:
  "repo_Create (traced repo) v (s, calls) =
     (fst (repo_Create repo v s), snd (repo_Create repo v s), calls @ [CreateCall v])"
  by (simp add: traced_def logged_def split: prod.splits)

lemma Update_trace:
  assumes "repo_FindByID repo vid s = (Inr v, s1)"
  shows "snd (snd (Update (traced repo) now vid q (s, []))) =
     FindByIDCall vid #
     (if req_VoucherCode q = VoucherCode v then saveCall now v q
      else FindByVoucherCodeCall (req_VoucherCode q) #
           (case fst (repo_FindByVoucherCode repo (req_VoucherCode q) s1) of
              (existing, err) \<Rightarrow>
                if otherThanNotFound err = None \<and> existing = None then saveCall now v q
                else []))"
proof (cases "req_VoucherCode q = VoucherCode v")
  case True
  then show ?thesis
    by (simp add: Update_def traced_FindByID traced_Update assms Before_localMidnight
          saveCall_def Let_def split: option.splits)
next
  case False
  obtain existing err s2 where
    f: "repo_FindByVoucherCode repo (req_VoucherCode q) s1 = ((existing, err), s2)"
    by (metis prod.exhaust)
  show ?thesis
  proof (cases "otherThanNotFound err = None \<and> existing = None")
    case True
    with False show ?thesis
      by (simp add: Update_def traced_FindByID traced_FindByVoucherCode traced_Update assms f
            Before_localMidnight saveCall_def Let_def split: option.splits)
  next
    case no: False
    show ?thesis
    proof (cases "otherThanNotFound err")
      case None
      with no have "existing \<noteq> None"
        by simp
      with None False show ?thesis
        by (auto simp: Update_def traced_FindByID traced_FindByVoucherCode assms f)
    next
      case (Some e)
      with False show ?thesis
        by (simp add: Update_def traced_FindByID traced_FindByVoucherCode assms f)
    qed
  qed
qed

lemma Create_trace:
  "snd (snd (Create (traced repo) now q (s, []))) =
     FindByVoucherCodeCall (req_VoucherCode q) #
     (case fst (repo_FindByVoucherCode repo (req_VoucherCode q) s) of
        (existing, err) \<Rightarrow>
          if otherThanNotFound err = None \<and> existing = None then createCall now q else [])"
proof -
  obtain existing err s2 where
    f: "repo_FindByVoucherCode repo (req_VoucherCode q) s = ((existing, err), s2)"
    by (metis prod.exhaust)
  show ?thesis
  proof (cases "otherThanNotFound err = None \<and> existing = None")
    case True
    then show ?thesis
      by (simp add: Create_def traced_FindByVoucherCode traced_Create f
            Before_localMidnight createCall_def Let_def split: option.splits)
  next
    case no: False
    show ?thesis
    proof (cases "otherThanNotFound err")
      case None
      with no have "existing \<noteq> None"
        by simp
      with None show ?thesis
        by (auto simp: Create_def traced_FindByVoucherCode f)
    next
      case (Some e)
      then show ?thesis
        by (simp add: Create_def traced_FindByVoucherCode f)
    qed
  qed
qed

lemma saveCall_no_lookup: "filter isFindByVoucherCode (saveCall now v q) = []"
  by (simp add: saveCall_def isFindByVoucherCode_def split: option.splits)

lemma Update_lookups:
  assumes "repo_FindByID repo vid s = (Inr v, s1)"
  shows "filter isFindByVoucherCode (snd (snd (Update (traced repo) now vid q (s, []))))
     = (if req_VoucherCode q = VoucherCode v then []
        else [FindByVoucherCodeCall (req_VoucherCode q)])"
  by (simp add: Update_trace [OF assms] saveCall_no_lookup isFindByVoucherCode_def
        split: prod.splits)

lemma Update_check_as_Create:
  assumes "repo_FindByID repo vid s = (Inr v, s1)"
    and "req_VoucherCode q \<noteq> VoucherCode v"
    and "repo_FindByVoucherCode repo (req_VoucherCode q) s1 = ((existing, err), s2)"
  shows "otherThanNotFound err = Some e
           \<Longrightarrow> Update repo now vid q s = (Inl e, s2) \<and> Create repo now q s1 = (Inl e, s2)"
    and "otherThanNotFound err = None \<Longrightarrow> existing \<noteq> None
           \<Longrightarrow> Update repo now vid q s = (Inl DuplicateCode, s2)
               \<and> Create repo now q s1 = (Inl DuplicateCode, s2)"
  using assms by (simp_all add: Update_def Create_def)

text \<open>
  C6. For every repository, when \<open>FindByID\<close> finds the voucher \<open>v\<close>: the calls of \<open>Update\<close> are
  \<open>FindByID\<close>, then, if and only if the code of the request differs from the code of \<open>v\<close>,
  one \<open>FindByVoucherCode\<close> call with the code of the request, then the write if the checks
  pass; \<open>Create\<close> starts with the same \<open>FindByVoucherCode\<close> call, and on the same answer
  \<open>Update\<close> and \<open>Create\<close> fail alike: with the error of the lookup, or with \<open>DuplicateCode\<close>
  when a voucher was found.

  On the repository of the source, for a well-formed table and an active voucher \<open>r\<close>
  updated by its \<open>id\<close>: if the request keeps the code of \<open>r\<close>, has a discount in [1,100]
  and a date that parses and is not before today, \<open>Update\<close> calls \<open>FindByID\<close> and \<open>Update\<close> of
  the repository and nothing else, and returns the updated voucher. If the request has
  another code, which is the code of an active voucher, \<open>Update\<close> calls \<open>FindByID\<close> and
  \<open>FindByVoucherCode\<close> and fails with \<open>DuplicateCode\<close>, as \<open>Create\<close> does after the same
  \<open>FindByVoucherCode\<close> call.
\<close>

theorem Update_duplicate_check_only_on_changed_code:
  assumes "wellFormed db" and "r \<in> set (active db)"
  shows "(req_VoucherCode q = VoucherCode r
          \<and> 1 \<le> req_DiscountPercent q \<and> req_DiscountPercent q \<le> 100
          \<and> time_Parse (req_ExpiryDate q) = Some d \<and> localDay now \<le> unixDays d
        \<longrightarrow> Update (traced (voucherRepositoryImpl t)) now (ID r) q (db, [])
            = (Inr (r\<lparr>DiscountPercent := req_DiscountPercent q, ExpiryDate := d,
                      UpdatedAt := t\<rparr>),
               db\<lparr>rows := map (\<lambda>x. if ID x = ID r
                                    then r\<lparr>DiscountPercent := req_DiscountPercent q,
                                           ExpiryDate := d, UpdatedAt := t\<rparr>
                                    else x) (rows db)\<rparr>,
               [FindByIDCall (ID r),
                UpdateCall (r\<lparr>DiscountPercent := req_DiscountPercent q, ExpiryDate := d\<rparr>)]))
     \<and> (req_VoucherCode q \<noteq> VoucherCode r \<and> req_VoucherCode q \<in> activeCodes db
        \<longrightarrow> Update (traced (voucherRepositoryImpl t)) now (ID r) q (db, [])
            = (Inl DuplicateCode, db,
               [FindByIDCall (ID r), FindByVoucherCodeCall (req_VoucherCode q)])
          \<and> Create (traced (voucherRepositoryImpl t)) now q (db, [])
            = (Inl DuplicateCode, db, [FindByVoucherCodeCall (req_VoucherCode q)]))
     \<and> (repo_FindByID repo vid s = (Inr v, s1)
        \<longrightarrow> snd (snd (Update (traced repo) now vid q (s, [])))
            = FindByIDCall vid #
              (if req_VoucherCode q = VoucherCode v then saveCall now v q
               else FindByVoucherCodeCall (req_VoucherCode q) #
                    (case fst (repo_FindByVoucherCode repo (req_VoucherCode q) s1) of
                       (existing, err) \<Rightarrow>
                         if otherThanNotFound err = None \<and> existing = None
                         then saveCall now v q else []))
          \<and> filter isFindByVoucherCode (snd (snd (Update (traced repo) now vid q (s, []))))
            = (if req_VoucherCode q = VoucherCode v then []
               else [FindByVoucherCodeCall (req_VoucherCode q)])
          \<and> snd (snd (Create (traced repo) now q (s1, [])))
            = FindByVoucherCodeCall (req_VoucherCode q) #
              (case fst (repo_FindByVoucherCode repo (req_VoucherCode q) s1) of
                 (existing, err) \<Rightarrow>
                   if otherThanNotFound err = None \<and> existing = None
                   then createCall now q else []))
     \<and> (repo_FindByID repo vid s = (Inr v, s1) \<and> req_VoucherCode q \<noteq> VoucherCode v
        \<and> repo_FindByVoucherCode repo (req_VoucherCode q) s1 = ((existing, err), s2)
        \<longrightarrow> (otherThanNotFound err = Some e
              \<longrightarrow> Update repo now vid q s = (Inl e, s2) \<and> Create repo now q s1 = (Inl e, s2))
          \<and> (otherThanNotFound err = None \<and> existing \<noteq> None
              \<longrightarrow> Update repo now vid q s = (Inl DuplicateCode, s2)
                  \<and> Create repo now q s1 = (Inl DuplicateCode, s2)))"
proof -
  have 1: "req_VoucherCode q = VoucherCode r
          \<and> 1 \<le> req_DiscountPercent q \<and> req_DiscountPercent q \<le> 100
          \<and> time_Parse (req_ExpiryDate q) = Some d \<and> localDay now \<le> unixDays d
        \<longrightarrow> Update (traced (voucherRepositoryImpl t)) now (ID r) q (db, [])
            = (Inr (r\<lparr>DiscountPercent := req_DiscountPercent q, ExpiryDate := d,
                      UpdatedAt := t\<rparr>),
               db\<lparr>rows := map (\<lambda>x. if ID x = ID r
                                    then r\<lparr>DiscountPercent := req_DiscountPercent q,
                                           ExpiryDate := d, UpdatedAt := t\<rparr>
                                    else x) (rows db)\<rparr>,
               [FindByIDCall (ID r),
                UpdateCall (r\<lparr>DiscountPercent := req_DiscountPercent q, ExpiryDate := d\<rparr>)])"
  proof
    assume a: "req_VoucherCode q = VoucherCode r
          \<and> 1 \<le> req_DiscountPercent q \<and> req_DiscountPercent q \<le> 100
          \<and> time_Parse (req_ExpiryDate q) = Some d \<and> localDay now \<le> unixDays d"
    define v where "v = r\<lparr>DiscountPercent := req_DiscountPercent q, ExpiryDate := d\<rparr>"
    have u: "repo_Update (voucherRepositoryImpl t) v db
         = (Inr (v\<lparr>UpdatedAt := t\<rparr>),
            db\<lparr>rows := map (\<lambda>x. if ID x = ID r then v\<lparr>UpdatedAt := t\<rparr> else x) (rows db)\<rparr>)"
      using a by (intro impl_Update_same_code [OF assms]) (simp_all add: v_def)
    have nb: "\<not> Before (localMidnight now (unixDays d)) (localMidnight now (localDay now))"
      using a by (simp add: Before_localMidnight)
    show "Update (traced (voucherRepositoryImpl t)) now (ID r) q (db, [])
            = (Inr (r\<lparr>DiscountPercent := req_DiscountPercent q, ExpiryDate := d,
                      UpdatedAt := t\<rparr>),
               db\<lparr>rows := map (\<lambda>x. if ID x = ID r
                                    then r\<lparr>DiscountPercent := req_DiscountPercent q,
                                           ExpiryDate := d, UpdatedAt := t\<rparr>
                                    else x) (rows db)\<rparr>,
               [FindByIDCall (ID r),
                UpdateCall (r\<lparr>DiscountPercent := req_DiscountPercent q, ExpiryDate := d\<rparr>)])"
      using a nb
      by (simp add: Update_def traced_FindByID traced_Update impl_FindByID_found [OF assms]
            u [unfolded v_def] Let_def)
  qed
  have 2: "req_VoucherCode q \<noteq> VoucherCode r \<and> req_VoucherCode q \<in> activeCodes db
        \<longrightarrow> Update (traced (voucherRepositoryImpl t)) now (ID r) q (db, [])
            = (Inl DuplicateCode, db,
               [FindByIDCall (ID r), FindByVoucherCodeCall (req_VoucherCode q)])
          \<and> Create (traced (voucherRepositoryImpl t)) now q (db, [])
            = (Inl DuplicateCode, db, [FindByVoucherCodeCall (req_VoucherCode q)])"
  proof (intro impI conjI)
    assume b: "req_VoucherCode q \<noteq> VoucherCode r \<and> req_VoucherCode q \<in> activeCodes db"
    then obtain v where
      f: "repo_FindByVoucherCode (voucherRepositoryImpl t) (req_VoucherCode q) db
            = ((Some v, None), db)"
      using impl_FindByVoucherCode_found by blast
    show "Update (traced (voucherRepositoryImpl t)) now (ID r) q (db, [])
            = (Inl DuplicateCode, db,
               [FindByIDCall (ID r), FindByVoucherCodeCall (req_VoucherCode q)])"
      using b
      by (simp add: Update_def traced_FindByID traced_FindByVoucherCode
            impl_FindByID_found [OF assms] f otherThanNotFound_def)
    show "Create (traced (voucherRepositoryImpl t)) now q (db, [])
            = (Inl DuplicateCode, db, [FindByVoucherCodeCall (req_VoucherCode q)])"
      by (simp add: Create_def traced_FindByVoucherCode f otherThanNotFound_def)
  qed
  have 3: "repo_FindByID repo vid s = (Inr v, s1)
        \<longrightarrow> snd (snd (Update (traced repo) now vid q (s, [])))
            = FindByIDCall vid #
              (if req_VoucherCode q = VoucherCode v then saveCall now v q
               else FindByVoucherCodeCall (req_VoucherCode q) #
                    (case fst (repo_FindByVoucherCode repo (req_VoucherCode q) s1) of
                       (existing, err) \<Rightarrow>
                         if otherThanNotFound err = None \<and> existing = None
                         then saveCall now v q else []))
          \<and> filter isFindByVoucherCode (snd (snd (Update (traced repo) now vid q (s, []))))
            = (if req_VoucherCode q = VoucherCode v then []
               else [FindByVoucherCodeCall (req_VoucherCode q)])
          \<and> snd (snd (Create (traced repo) now q (s1, [])))
            = FindByVoucherCodeCall (req_VoucherCode q) #
              (case fst (repo_FindByVoucherCode repo (req_VoucherCode q) s1) of
                 (existing, err) \<Rightarrow>
                   if otherThanNotFound err = None \<and> existing = None
                   then createCall now q else [])"
    using Update_trace [of repo vid s v s1 now q] Update_lookups [of repo vid s v s1 now q]
      Create_trace [of repo now q s1]
    by blast
  have 4: "repo_FindByID repo vid s = (Inr v, s1) \<and> req_VoucherCode q \<noteq> VoucherCode v
        \<and> repo_FindByVoucherCode repo (req_VoucherCode q) s1 = ((existing, err), s2)
        \<longrightarrow> (otherThanNotFound err = Some e
              \<longrightarrow> Update repo now vid q s = (Inl e, s2) \<and> Create repo now q s1 = (Inl e, s2))
          \<and> (otherThanNotFound err = None \<and> existing \<noteq> None
              \<longrightarrow> Update repo now vid q s = (Inl DuplicateCode, s2)
                  \<and> Create repo now q s1 = (Inl DuplicateCode, s2))"
    using Update_check_as_Create [of repo vid s v s1 q existing err s2]
    by blast
  from 1 2 3 4 show ?thesis
    by (intro conjI)
qed


text \<open>On the table \<open>storage3\<close>, the voucher \<open>OLD123\<close> updated with its own code, with the code
  of \<open>SAVE20\<close>, with its own code and a date that does not parse, and with a free code; and
  an update with a new code on a repository whose lookup by code fails.\<close>

theorem Update_duplicate_check_only_on_changed_code_witness:
  "Update (traced (voucherRepositoryImpl 1700000000)) clockEast 1
     (request ''OLD123'' 50 ''2099-01-01'') (storage3, [])
   = (Inr (old123\<lparr>DiscountPercent := 50, ExpiryDate := newYear2099, UpdatedAt := 1700000000\<rparr>),
      storage3\<lparr>rows := [old123\<lparr>DiscountPercent := 50, ExpiryDate := newYear2099,
                              UpdatedAt := 1700000000\<rparr>, gone, save20]\<rparr>,
      [FindByIDCall 1,
       UpdateCall (old123\<lparr>DiscountPercent := 50, ExpiryDate := newYear2099\<rparr>)])
   \<and> Update (traced (voucherRepositoryImpl 1700000000)) clockEast 1
       (request ''SAVE20'' 50 ''2099-01-01'') (storage3, [])
     = (Inl DuplicateCode, storage3, [FindByIDCall 1, FindByVoucherCodeCall ''SAVE20''])
   \<and> Create (traced (voucherRepositoryImpl 1700000000)) clockEast
       (request ''SAVE20'' 50 ''2099-01-01'') (storage3, [])
     = (Inl DuplicateCode, storage3, [FindByVoucherCodeCall ''SAVE20''])
   \<and> snd (snd (Update (traced (voucherRepositoryImpl 1700000000)) clockEast 1
       (request ''OLD123'' 50 ''tomorrow'') (storage3, [])))
     = [FindByIDCall 1]
   \<and> snd (snd (Update (traced (voucherRepositoryImpl 1700000000)) clockEast 1
       (request ''FRESH'' 50 ''2099-01-01'') (storage3, [])))
     = [FindByIDCall 1, FindByVoucherCodeCall ''FRESH'',
        UpdateCall (old123\<lparr>VoucherCode := ''FRESH'', DiscountPercent := 50,
                      ExpiryDate := newYear2099\<rparr>)]
   \<and> Update (voucherRepositoryImpl 1700000000) clockEast 1
       (request ''SAVE20'' 50 ''2099-01-01'') storage3 = (Inl DuplicateCode, storage3)
   \<and> Create (voucherRepositoryImpl 1700000000) clockEast
       (request ''SAVE20'' 50 ''2099-01-01'') storage3 = (Inl DuplicateCode, storage3)
   \<and> Update ((mockRepo old123)
               \<lparr>repo_FindByVoucherCode :=
                  (\<lambda>c s. ((None, Some (StorageError ''connection refused'')), s))\<rparr>)
         clockEast 1 (request ''NEW1'' 50 ''2099-01-01'') ()
     = (Inl (StorageError ''connection refused''), ())
   \<and> Create ((mockRepo old123)
               \<lparr>repo_FindByVoucherCode :=
                  (\<lambda>c s. ((None, Some (StorageError ''connection refused'')), s))\<rparr>)
         clockEast (request ''NEW1'' 50 ''2099-01-01'') ()
     = (Inl (StorageError ''connection refused''), ())"
proof -
  have r: "old123 \<in> set (active storage3)"
    by (simp add: storage_examples)
  have l: "localDay clockEast \<le> unixDays newYear2099"
    by (simp add: unixDays_newYear2099 localDay_def clockEast_def)
  have i: "ID old123 = 1" "VoucherCode old123 = ''OLD123''"
    by (simp_all add: old123_def)
  have m: "map (\<lambda>x. if ID x = Suc 0 then v else x) (rows storage3) = [v, gone, save20]" for v
    by (simp add: storage3_def old123_def gone_def save20_def)
  have f: "repo_FindByID (voucherRepositoryImpl 1700000000) 1 storage3 = (Inr old123, storage3)"
    using impl_FindByID_found [OF storage_examples(2) r, of 1700000000] by (simp add: i)
  have n: "repo_FindByVoucherCode (voucherRepositoryImpl 1700000000) ''FRESH'' storage3
             = ((None, None), storage3)"
    by (rule impl_FindByVoucherCode_absent) (simp add: storage_examples)
  have p: "time_Parse ''tomorrow'' = None"
    by (simp add: date_eval)
  note th = Update_duplicate_check_only_on_changed_code [OF storage_examples(2) r]
  have 1: "Update (traced (voucherRepositoryImpl 1700000000)) clockEast 1
     (request ''OLD123'' 50 ''2099-01-01'') (storage3, [])
   = (Inr (old123\<lparr>DiscountPercent := 50, ExpiryDate := newYear2099, UpdatedAt := 1700000000\<rparr>),
      storage3\<lparr>rows := [old123\<lparr>DiscountPercent := 50, ExpiryDate := newYear2099,
                              UpdatedAt := 1700000000\<rparr>, gone, save20]\<rparr>,
      [FindByIDCall 1,
       UpdateCall (old123\<lparr>DiscountPercent := 50, ExpiryDate := newYear2099\<rparr>)])"
    using th [of "request ''OLD123'' 50 ''2099-01-01''" newYear2099 clockEast 1700000000,
        THEN conjunct1] l
    by (simp add: request_def i m time_Parse_newYear2099)
  have 2: "Update (traced (voucherRepositoryImpl 1700000000)) clockEast 1
       (request ''SAVE20'' 50 ''2099-01-01'') (storage3, [])
     = (Inl DuplicateCode, storage3, [FindByIDCall 1, FindByVoucherCodeCall ''SAVE20''])
   \<and> Create (traced (voucherRepositoryImpl 1700000000)) clockEast
       (request ''SAVE20'' 50 ''2099-01-01'') (storage3, [])
     = (Inl DuplicateCode, storage3, [FindByVoucherCodeCall ''SAVE20''])"
    using th [of "request ''SAVE20'' 50 ''2099-01-01''" newYear2099 clockEast 1700000000,
        THEN conjunct2, THEN conjunct1]
    by (simp add: request_def i storage_examples)
  have 3: "snd (snd (Update (traced (voucherRepositoryImpl 1700000000)) clockEast 1
       (request ''OLD123'' 50 ''tomorrow'') (storage3, [])))
     = [FindByIDCall 1]"
    using th [of "request ''OLD123'' 50 ''tomorrow''" newYear2099 clockEast 1700000000
        "voucherRepositoryImpl 1700000000" 1 storage3 old123 storage3,
        THEN conjunct2, THEN conjunct2, THEN conjunct1] f
    by (simp add: request_def i saveCall_def p)
  have 4: "snd (snd (Update (traced (voucherRepositoryImpl 1700000000)) clockEast 1
       (request ''FRESH'' 50 ''2099-01-01'') (storage3, [])))
     = [FindByIDCall 1, FindByVoucherCodeCall ''FRESH'',
        UpdateCall (old123\<lparr>VoucherCode := ''FRESH'', DiscountPercent := 50,
                      ExpiryDate := newYear2099\<rparr>)]"
    using th [of "request ''FRESH'' 50 ''2099-01-01''" newYear2099 clockEast 1700000000
        "voucherRepositoryImpl 1700000000" 1 storage3 old123 storage3,
        THEN conjunct2, THEN conjunct2, THEN conjunct1] f l
    by (simp add: request_def i saveCall_def n time_Parse_newYear2099 otherThanNotFound_def)
  have g: "repo_FindByVoucherCode (voucherRepositoryImpl 1700000000) ''SAVE20'' storage3
             = ((Some save20, None), storage3)"
    by (simp add: voucherRepositoryImpl_def impl_FindByVoucherCode_def storage_examples
          old123_def save20_def)
  have 5: "Update (voucherRepositoryImpl 1700000000) clockEast 1
       (request ''SAVE20'' 50 ''2099-01-01'') storage3 = (Inl DuplicateCode, storage3)
   \<and> Create (voucherRepositoryImpl 1700000000) clockEast
       (request ''SAVE20'' 50 ''2099-01-01'') storage3 = (Inl DuplicateCode, storage3)"
    using th [of "request ''SAVE20'' 50 ''2099-01-01''" newYear2099 clockEast 1700000000
        "voucherRepositoryImpl 1700000000" 1 storage3 old123 storage3 "Some save20" None
        storage3 ErrRecordNotFound,
        THEN conjunct2, THEN conjunct2, THEN conjunct2] f g
    by (simp add: request_def i otherThanNotFound_def)
  define failing where
    "failing = (mockRepo old123)
               \<lparr>repo_FindByVoucherCode :=
                  (\<lambda>c s. ((None, Some (StorageError ''connection refused'')), s))\<rparr>"
  have 6: "Update failing clockEast 1 (request ''NEW1'' 50 ''2099-01-01'') ()
     = (Inl (StorageError ''connection refused''), ())
   \<and> Create failing clockEast (request ''NEW1'' 50 ''2099-01-01'') ()
     = (Inl (StorageError ''connection refused''), ())"
    using th [of "request ''NEW1'' 50 ''2099-01-01''" newYear2099 clockEast 1700000000
        failing 1 "()" old123 "()" None "Some (StorageError ''connection refused'')"
        "()" "StorageError ''connection refused''",
        THEN conjunct2, THEN conjunct2, THEN conjunct2]
    by (simp add: failing_def mockRepo_def request_def i otherThanNotFound_def)
  from 1 2 3 4 5 6 show ?thesis
    unfolding failing_def by (intro conjI) simp_all
qed

section \<open>The discount range (C1)\<close>

lemma Update_passes:
  assumes "repo_FindByID repo vid s = (Inr v, s1)"
    and "req_VoucherCode q = VoucherCode v
         \<or> (\<exists>err. repo_FindByVoucherCode repo (req_VoucherCode q) s1 = ((None, err), s1)
                  \<and> otherThanNotFound err = None)"
    and "time_Parse (req_ExpiryDate q) = Some d" and "localDay now \<le> unixDays d"
  shows "Update repo now vid q s
     = repo_Update repo (v\<lparr>VoucherCode := req_VoucherCode q,
                            DiscountPercent := req_DiscountPercent q, ExpiryDate := d\<rparr>) s1"
proof -
  have nb: "\<not> Before (localMidnight now (unixDays d)) (localMidnight now (localDay now))"
    using assms(4) by (simp add: Before_localMidnight)
  from assms(2) show ?thesis
  proof
    assume "req_VoucherCode q = VoucherCode v"
    then show ?thesis
      using nb by (simp add: Update_def assms(1,3) Let_def)
  next
    assume "\<exists>err. repo_FindByVoucherCode repo (req_VoucherCode q) s1 = ((None, err), s1)
                  \<and> otherThanNotFound err = None"
    then obtain err where
      f: "repo_FindByVoucherCode repo (req_VoucherCode q) s1 = ((None, err), s1)"
      and e: "otherThanNotFound err = None"
      by blast
    show ?thesis
      using nb by (simp add: Update_def assms(1,3) f e Let_def)
  qed
qed

lemma impl_Create_check:
  assumes "wellFormed db" and "DiscountPercent v < 1 \<or> 100 < DiscountPercent v"
    and "ID v = 0"
  shows "repo_Create (voucherRepositoryImpl t) v db
     = (Inl (StorageError ''new row violates check constraint: discount_percent''), db)"
  using assms(2,3) wellFormed_nextID [OF assms(1)]
  by (simp add: voucherRepositoryImpl_def impl_Create_def insertRow_def constraintError_def
        Let_def)

lemma impl_Update_check:
  assumes "wellFormed db" and "r \<in> set (active db)" and "ID v = ID r"
    and "DiscountPercent v < 1 \<or> 100 < DiscountPercent v"
  shows "repo_Update (voucherRepositoryImpl t) v db
     = (Inl (StorageError ''new row violates check constraint: discount_percent''), db)"
proof -
  from assms(2) have "r \<in> set (rows db)"
    by (simp add: active_def)
  with assms(1) have pos: "ID r \<noteq> 0"
    by (auto simp: wellFormed_def list_all_iff)
  have "ID r \<notin> set (map ID (filter (\<lambda>x. ID x \<noteq> ID r) (rows db)))"
    by auto
  then have "constraintError (filter (\<lambda>x. ID x \<noteq> ID r) (rows db)) (v\<lparr>UpdatedAt := t\<rparr>)
      = Some (StorageError ''new row violates check constraint: discount_percent'')"
    using assms(3,4) by (simp add: constraintError_def)
  then show ?thesis
    using pos assms(3) by (simp add: voucherRepositoryImpl_def impl_Update_def Let_def)
qed

text \<open>
  C1, amended. Let the discount of a request be below 1 or above 100, and its code not
  empty and at most 50 bytes long.
  \<^item> The validation of the batch import, \<open>validateAndConvert\<close>, rejects the request with
    the error \<open>DiscountOutOfRange\<close>, whatever its date, and the loop of \<open>ImportBatch\<close>, when
    the code is not a duplicate, appends one message for it to the errors of the report and
    leaves the vouchers to insert as they are; for a discount other than 0 the message is
    that of \<open>DiscountOutOfRange\<close>.
  \<^item> \<open>Create\<close> and \<open>Update\<close> compare the discount with nothing: when the date parses and is
    not before the local day and the code has passed, they hand the voucher with that
    discount to \<open>Create\<close> or \<open>Update\<close> of the repository, whatever the repository, and
    return what it returns.
  \<^item> On the repository of the source and a well-formed table the check constraint of the
    table then refuses the row: \<open>Create\<close> and \<open>Update\<close> return the error of the storage,
    and the table is as it was.
\<close>

theorem discount_out_of_range_is_refused:
  assumes "req_DiscountPercent req < 1 \<or> 100 < req_DiscountPercent req"
    and "req_VoucherCode req \<noteq> []"
    and "length (req_VoucherCode req) \<le> 50"
  shows "validateAndConvert clk req = Inl (DiscountOutOfRange (req_DiscountPercent req))
     \<and> (\<not> duplicateMap (req_VoucherCode req)
        \<longrightarrow> (\<exists>msg. filterValid clk duplicateMap (req # rest) (result, validVouchers)
                    = filterValid clk duplicateMap rest
                        (result\<lparr>BatchErrors := BatchErrors result
                            @ [''Code '' @ req_VoucherCode req @ '': '' @ msg]\<rparr>,
                         validVouchers)
                  \<and> (req_DiscountPercent req \<noteq> 0
                      \<longrightarrow> msg = ''discount percent '' @ Sprintf_2f (req_DiscountPercent req)
                                  @ '' out of range (must be 1-100)'')))
     \<and> (time_Parse (req_ExpiryDate req) = Some d \<and> localDay now \<le> unixDays d
          \<and> repo_FindByVoucherCode repo (req_VoucherCode req) s = ((None, err), s1)
          \<and> otherThanNotFound err = None
        \<longrightarrow> Create repo now req s
            = repo_Create repo
                (newVoucher (req_VoucherCode req) (req_DiscountPercent req) d) s1)
     \<and> (time_Parse (req_ExpiryDate req) = Some d \<and> localDay now \<le> unixDays d
          \<and> repo_FindByID repo vid s = (Inr v, s1)
          \<and> (req_VoucherCode req = VoucherCode v
              \<or> (\<exists>err. repo_FindByVoucherCode repo (req_VoucherCode req) s1 = ((None, err), s1)
                       \<and> otherThanNotFound err = None))
        \<longrightarrow> Update repo now vid req s
            = repo_Update repo
                (v\<lparr>VoucherCode := req_VoucherCode req,
                   DiscountPercent := req_DiscountPercent req, ExpiryDate := d\<rparr>) s1)
     \<and> (time_Parse (req_ExpiryDate req) = Some d \<and> localDay now \<le> unixDays d
          \<and> wellFormed db \<and> req_VoucherCode req \<notin> activeCodes db
        \<longrightarrow> Create (voucherRepositoryImpl t) now req db
            = (Inl (StorageError ''new row violates check constraint: discount_percent''), db))
     \<and> (time_Parse (req_ExpiryDate req) = Some d \<and> localDay now \<le> unixDays d
          \<and> wellFormed db \<and> r \<in> set (active db)
          \<and> (req_VoucherCode req = VoucherCode r \<or> req_VoucherCode req \<notin> activeCodes db)
        \<longrightarrow> Update (voucherRepositoryImpl t) now (ID r) req db
            = (Inl (StorageError ''new row violates check constraint: discount_percent''), db))"
proof (intro conjI impI)
  show v: "validateAndConvert clk req = Inl (DiscountOutOfRange (req_DiscountPercent req))"
    using assms(1-3) by (auto simp: validateAndConvert_def)
  {
    assume "\<not> duplicateMap (req_VoucherCode req)"
    then have "filterValid clk duplicateMap (req # rest) (result, validVouchers)
                    = filterValid clk duplicateMap rest
                        (result\<lparr>BatchErrors := BatchErrors result
                            @ [''Code '' @ req_VoucherCode req @ '': ''
                               @ ErrorMsg (DiscountOutOfRange (req_DiscountPercent req))]\<rparr>,
                         validVouchers)"
      by (simp add: v)
    then show "\<exists>msg. filterValid clk duplicateMap (req # rest) (result, validVouchers)
                    = filterValid clk duplicateMap rest
                        (result\<lparr>BatchErrors := BatchErrors result
                            @ [''Code '' @ req_VoucherCode req @ '': '' @ msg]\<rparr>,
                         validVouchers)
                  \<and> (req_DiscountPercent req \<noteq> 0
                      \<longrightarrow> msg = ''discount percent '' @ Sprintf_2f (req_DiscountPercent req)
                                  @ '' out of range (must be 1-100)'')"
      by (intro exI [of _ "ErrorMsg (DiscountOutOfRange (req_DiscountPercent req))"]) simp
  }
  {
    assume "time_Parse (req_ExpiryDate req) = Some d \<and> localDay now \<le> unixDays d
          \<and> repo_FindByVoucherCode repo (req_VoucherCode req) s = ((None, err), s1)
          \<and> otherThanNotFound err = None"
    then show "Create repo now req s
            = repo_Create repo
                (newVoucher (req_VoucherCode req) (req_DiscountPercent req) d) s1"
      by (simp add: Create_expiry)
  }
  {
    assume "time_Parse (req_ExpiryDate req) = Some d \<and> localDay now \<le> unixDays d
          \<and> repo_FindByID repo vid s = (Inr v, s1)
          \<and> (req_VoucherCode req = VoucherCode v
              \<or> (\<exists>err. repo_FindByVoucherCode repo (req_VoucherCode req) s1 = ((None, err), s1)
                       \<and> otherThanNotFound err = None))"
    then show "Update repo now vid req s
            = repo_Update repo
                (v\<lparr>VoucherCode := req_VoucherCode req,
                   DiscountPercent := req_DiscountPercent req, ExpiryDate := d\<rparr>) s1"
      by (intro Update_passes) simp_all
  }
  {
    assume a: "time_Parse (req_ExpiryDate req) = Some d \<and> localDay now \<le> unixDays d
          \<and> wellFormed db \<and> req_VoucherCode req \<notin> activeCodes db"
    then have f: "repo_FindByVoucherCode (voucherRepositoryImpl t) (req_VoucherCode req) db
                    = ((None, None), db)"
      by (simp add: impl_FindByVoucherCode_absent)
    have "Create (voucherRepositoryImpl t) now req db
            = repo_Create (voucherRepositoryImpl t)
                (newVoucher (req_VoucherCode req) (req_DiscountPercent req) d) db"
      using a f by (simp add: Create_expiry otherThanNotFound_def)
    also have "\<dots> = (Inl (StorageError ''new row violates check constraint: discount_percent''), db)"
      using a assms(1) by (intro impl_Create_check) (simp_all add: newVoucher_def)
    finally show "Create (voucherRepositoryImpl t) now req db
            = (Inl (StorageError ''new row violates check constraint: discount_percent''), db)" .
  }
  {
    assume a: "time_Parse (req_ExpiryDate req) = Some d \<and> localDay now \<le> unixDays d
          \<and> wellFormed db \<and> r \<in> set (active db)
          \<and> (req_VoucherCode req = VoucherCode r \<or> req_VoucherCode req \<notin> activeCodes db)"
    then have wf: "wellFormed db" and r: "r \<in> set (active db)"
      by simp_all
    have "Update (voucherRepositoryImpl t) now (ID r) req db
            = repo_Update (voucherRepositoryImpl t)
                (r\<lparr>VoucherCode := req_VoucherCode req,
                   DiscountPercent := req_DiscountPercent req, ExpiryDate := d\<rparr>) db"
    proof (rule Update_passes)
      show "repo_FindByID (voucherRepositoryImpl t) (ID r) db = (Inr r, db)"
        using wf r by (rule impl_FindByID_found)
      show "req_VoucherCode req = VoucherCode r
         \<or> (\<exists>err. repo_FindByVoucherCode (voucherRepositoryImpl t) (req_VoucherCode req) db
                     = ((None, err), db) \<and> otherThanNotFound err = None)"
        using a impl_FindByVoucherCode_absent [of "req_VoucherCode req" db t]
        by (auto simp: otherThanNotFound_def)
      show "time_Parse (req_ExpiryDate req) = Some d" "localDay now \<le> unixDays d"
        using a by simp_all
    qed
    also have "\<dots> = (Inl (StorageError ''new row violates check constraint: discount_percent''), db)"
      using assms(1) by (intro impl_Update_check [OF wf r]) simp_all
    finally show "Update (voucherRepositoryImpl t) now (ID r) req db
            = (Inl (StorageError ''new row violates check constraint: discount_percent''), db)" .
  }
qed

text \<open>
  C1, as stated, fails for \<open>Create\<close> and \<open>Update\<close>: they do not reject a discount of 200
  with a discount-out-of-range error. On the table \<open>storage2\<close> both hand the voucher to the
  repository, as the calls show, and return the error of the check constraint of the
  table; \<open>validateAndConvert\<close> returns \<open>DiscountOutOfRange\<close> for the same request.
\<close>

theorem Create_Update_return_the_error_of_the_storage:
  "Create (traced (voucherRepositoryImpl 1700000000)) clockEast
     (request ''TEST123'' 200 ''2099-01-01'') (storage2, [])
   = (Inl (StorageError ''new row violates check constraint: discount_percent''), storage2,
      [FindByVoucherCodeCall ''TEST123'', CreateCall (newVoucher ''TEST123'' 200 newYear2099)])
   \<and> Update (traced (voucherRepositoryImpl 1700000000)) clockEast 1
       (request ''OLD123'' 200 ''2099-01-01'') (storage2, [])
     = (Inl (StorageError ''new row violates check constraint: discount_percent''), storage2,
        [FindByIDCall 1,
         UpdateCall (old123\<lparr>DiscountPercent := 200, ExpiryDate := newYear2099\<rparr>)])
   \<and> StorageError ''new row violates check constraint: discount_percent''
       \<noteq> DiscountOutOfRange 200
   \<and> validateAndConvert clockEast (request ''TEST123'' 200 ''2099-01-01'')
     = Inl (DiscountOutOfRange 200)"
proof -
  have l: "localDay clockEast \<le> unixDays newYear2099"
    by (simp add: unixDays_newYear2099 localDay_def clockEast_def)
  then have nb: "\<not> Before (localMidnight clockEast (unixDays newYear2099))
                      (localMidnight clockEast (localDay clockEast))"
    by (simp add: Before_localMidnight)
  have r: "old123 \<in> set (active storage2)"
    by (simp add: storage_examples)
  have i: "ID old123 = 1" "VoucherCode old123 = ''OLD123''"
    by (simp_all add: old123_def)
  have f: "repo_FindByID (voucherRepositoryImpl 1700000000) 1 storage2 = (Inr old123, storage2)"
    using impl_FindByID_found [OF storage_examples(1) r, of 1700000000] by (simp add: i)
  have n: "repo_FindByVoucherCode (voucherRepositoryImpl 1700000000) ''TEST123'' storage2
             = ((None, None), storage2)"
    by (rule impl_FindByVoucherCode_absent) (simp add: storage_examples)
  have c: "repo_Create (voucherRepositoryImpl 1700000000)
             (newVoucher ''TEST123'' 200 newYear2099) storage2
           = (Inl (StorageError ''new row violates check constraint: discount_percent''),
              storage2)"
    by (rule impl_Create_check [OF storage_examples(1)]) (simp_all add: newVoucher_def)
  have f': "repo_FindByID (voucherRepositoryImpl 1700000000) (Suc 0) storage2
              = (Inr old123, storage2)"
    using f by simp
  have u: "repo_Update (voucherRepositoryImpl 1700000000)
             (old123\<lparr>VoucherCode := ''OLD123'', DiscountPercent := 200,
                      ExpiryDate := newYear2099\<rparr>) storage2
           = (Inl (StorageError ''new row violates check constraint: discount_percent''),
              storage2)"
    by (rule impl_Update_check [OF storage_examples(1) r]) simp_all
  have e: "old123\<lparr>VoucherCode := ''OLD123'', DiscountPercent := 200, ExpiryDate := newYear2099\<rparr>
           = old123\<lparr>DiscountPercent := 200, ExpiryDate := newYear2099\<rparr>"
    by (simp add: old123_def)
  have 1: "Create (traced (voucherRepositoryImpl 1700000000)) clockEast
     (request ''TEST123'' 200 ''2099-01-01'') (storage2, [])
   = (Inl (StorageError ''new row violates check constraint: discount_percent''), storage2,
      [FindByVoucherCodeCall ''TEST123'', CreateCall (newVoucher ''TEST123'' 200 newYear2099)])"
    using nb
    by (simp add: Create_def request_def traced_FindByVoucherCode traced_Create n c
          otherThanNotFound_def time_Parse_newYear2099 Let_def)
  have "Update (traced (voucherRepositoryImpl 1700000000)) clockEast 1
       (request ''OLD123'' 200 ''2099-01-01'') (storage2, [])
     = (Inl (StorageError ''new row violates check constraint: discount_percent''), storage2,
        [FindByIDCall 1,
         UpdateCall (old123\<lparr>VoucherCode := ''OLD123'', DiscountPercent := 200,
                       ExpiryDate := newYear2099\<rparr>)])"
    using nb
    by (simp add: Update_def request_def traced_FindByID traced_Update f' i u
          time_Parse_newYear2099 Let_def)
  then have 2: "Update (traced (voucherRepositoryImpl 1700000000)) clockEast 1
       (request ''OLD123'' 200 ''2099-01-01'') (storage2, [])
     = (Inl (StorageError ''new row violates check constraint: discount_percent''), storage2,
        [FindByIDCall 1,
         UpdateCall (old123\<lparr>DiscountPercent := 200, ExpiryDate := newYear2099\<rparr>)])"
    by (simp only: e)
  have 3: "validateAndConvert clockEast (request ''TEST123'' 200 ''2099-01-01'')
     = Inl (DiscountOutOfRange 200)"
    by (simp add: validateAndConvert_def request_def)
  from 1 2 3 show ?thesis
    by simp
qed

text \<open>The request \<open>PROMO\<close> with the discount 150: in the batch validation, with the mock
  repository of the service tests, and on the table \<open>storage3\<close>.\<close>

theorem discount_out_of_range_is_refused_witness:
  "validateAndConvert clockEast (request ''PROMO'' 150 ''2099-01-01'')
     = Inl (DiscountOutOfRange 150)
   \<and> filterValid clockEast (\<lambda>c. False) [request ''PROMO'' 150 ''2099-01-01'']
       (newBatchImportResult 1, [])
     = ((newBatchImportResult 1)
          \<lparr>BatchErrors := [''Code PROMO: discount percent 150.00 out of range (must be 1-100)'']\<rparr>,
        [])
   \<and> Create (mockRepo old123) clockEast (request ''PROMO'' 150 ''2099-01-01'') ()
     = (Inr (newVoucher ''PROMO'' 150 newYear2099), ())
   \<and> Update (mockRepo old123) clockEast 1 (request ''PROMO'' 150 ''2099-01-01'') ()
     = (Inr (old123\<lparr>VoucherCode := ''PROMO'', DiscountPercent := 150,
                    ExpiryDate := newYear2099\<rparr>), ())
   \<and> Create (voucherRepositoryImpl 1700000000) clockEast
       (request ''PROMO'' 150 ''2099-01-01'') storage3
     = (Inl (StorageError ''new row violates check constraint: discount_percent''), storage3)
   \<and> Update (voucherRepositoryImpl 1700000000) clockEast 5
       (request ''PROMO'' 150 ''2099-01-01'') storage3
     = (Inl (StorageError ''new row violates check constraint: discount_percent''), storage3)"
proof -
  define q where "q = request ''PROMO'' 150 ''2099-01-01''"
  have q: "req_VoucherCode q = ''PROMO''" "req_DiscountPercent q = 150"
    "req_ExpiryDate q = ''2099-01-01''"
    by (simp_all add: q_def request_def)
  have a: "req_DiscountPercent q < 1 \<or> 100 < req_DiscountPercent q"
    "req_VoucherCode q \<noteq> []" "length (req_VoucherCode q) \<le> 50"
    by (simp_all add: q)
  have d: "time_Parse (req_ExpiryDate q) = Some newYear2099"
    "localDay clockEast \<le> unixDays newYear2099"
    by (simp_all add: q time_Parse_newYear2099 unixDays_newYear2099 localDay_def clockEast_def)
  have fmt: "Sprintf_2f 150 = ''150.00''"
    by (simp add: Sprintf_2f_def roundHalfEven_def itoa.simps digitChar_def zeroPad_def)
  have s: "save20 \<in> set (active storage3)" "ID save20 = 5" "VoucherCode save20 = ''SAVE20''"
    by (simp_all add: storage_examples save20_def)
  note th = discount_out_of_range_is_refused [OF a, of clockEast "\<lambda>c. False" "[]" "newBatchImportResult 1" "[]"
      newYear2099 clockEast "mockRepo old123" "()" None "()" 1 old123 storage3 1700000000 save20]
  have 1: "validateAndConvert clockEast q = Inl (DiscountOutOfRange 150)"
    using th [THEN conjunct1] by (simp add: q)
  from th [THEN conjunct2, THEN conjunct1] obtain msg where
    m: "filterValid clockEast (\<lambda>c. False) [q] (newBatchImportResult 1, [])
          = filterValid clockEast (\<lambda>c. False) []
              ((newBatchImportResult 1)
                 \<lparr>BatchErrors := BatchErrors (newBatchImportResult 1)
                     @ [''Code '' @ req_VoucherCode q @ '': '' @ msg]\<rparr>, [])"
    and t: "req_DiscountPercent q \<noteq> 0
            \<longrightarrow> msg = ''discount percent '' @ Sprintf_2f (req_DiscountPercent q)
                        @ '' out of range (must be 1-100)''"
    by blast
  from t have "msg = ''discount percent 150.00 out of range (must be 1-100)''"
    by (simp add: q fmt)
  with m have 2: "filterValid clockEast (\<lambda>c. False) [q] (newBatchImportResult 1, [])
     = ((newBatchImportResult 1)
          \<lparr>BatchErrors := [''Code PROMO: discount percent 150.00 out of range (must be 1-100)'']\<rparr>,
        [])"
    by (simp add: q newBatchImportResult_def)
  have 3: "Create (mockRepo old123) clockEast q ()
     = (Inr (newVoucher ''PROMO'' 150 newYear2099), ())"
    using th [THEN conjunct2, THEN conjunct2, THEN conjunct1] d
    by (simp add: q mockRepo_def otherThanNotFound_def)
  have 4: "Update (mockRepo old123) clockEast 1 q ()
     = (Inr (old123\<lparr>VoucherCode := ''PROMO'', DiscountPercent := 150,
                    ExpiryDate := newYear2099\<rparr>), ())"
    using th [THEN conjunct2, THEN conjunct2, THEN conjunct2, THEN conjunct1] d
    by (simp add: q mockRepo_def otherThanNotFound_def)
  have 5: "Create (voucherRepositoryImpl 1700000000) clockEast q storage3
     = (Inl (StorageError ''new row violates check constraint: discount_percent''), storage3)"
    using th [THEN conjunct2, THEN conjunct2, THEN conjunct2, THEN conjunct2, THEN conjunct1] d
    by (simp add: q storage_examples)
  have 6: "Update (voucherRepositoryImpl 1700000000) clockEast 5 q storage3
     = (Inl (StorageError ''new row violates check constraint: discount_percent''), storage3)"
    using th [THEN conjunct2, THEN conjunct2, THEN conjunct2, THEN conjunct2, THEN conjunct2] s d
    by (simp add: q storage_examples)
  from 1 2 3 4 5 6 show ?thesis
    unfolding q_def by (intro conjI)
qed

end
